(* ===== verification/Prelude.thy ===== *)
theory Prelude
  imports Main "HOL-Library.Word"
begin

text \<open>
  The ground every other theory stands on.

  \<^item> Go values: a Go \<open>string\<close> or \<open>[]byte\<close> is a HOL \<^typ>\<open>string\<close> (a list of 8-bit
    \<^typ>\<open>char\<close>s, so \<^const>\<open>length\<close> is Go's \<open>len\<close>); \<open>uint8\<close>, \<open>uint32\<close> are words;
    \<open>time.Time\<close> is the number of nanoseconds since the Unix epoch; \<open>time.Duration\<close> is a signed
    64-bit number of nanoseconds, kept as an \<^typ>\<open>int\<close> with the wrap-around written out.
  \<^item> Go calls: \<open>('w, 'a) go\<close> is a call that reads and changes a world \<open>'w\<close> and either returns
    or panics. \<open>bindg\<close> sequences calls, \<open>tryg\<close> is the \<open>if err != nil { ... }\<close> idiom,
    \<open>deferg\<close> is \<open>defer\<close> (it runs on return and on panic), \<open>recoverg\<close> is a deferred
    \<open>recover()\<close>.
  \<^item> \<open>wp\<close>, the weakest precondition of a call, with one rewrite rule per combinator: the
    proofs about use cases and handlers run on these rules.
\<close>

named_theorems wp_simps "weakest preconditions of the Go combinators"
named_theorems frame_simps "what a call leaves unchanged"

subsection \<open>Go values\<close>

type_synonym time = int
type_synonym duration = int
type_synonym uuid = "128 word"

text \<open>A value of a signed 64-bit integer type, from the exact result of an operation.\<close>

definition int64 :: "int \<Rightarrow> int" where
  "int64 n = (n + 2 ^ 63) mod 2 ^ 64 - 2 ^ 63"

lemma int64_bounds: "- (2 ^ 63) \<le> int64 n" "int64 n < 2 ^ 63"
  by (simp_all add: int64_def)

lemma int64_id: "- (2 ^ 63) \<le> n \<Longrightarrow> n < 2 ^ 63 \<Longrightarrow> int64 n = n"
  by (simp add: int64_def)

subsection \<open>Calls: a world, a result, and panics\<close>

datatype 'a outcome = Ret 'a | Panic string

type_synonym ('w, 'a) go = "'w \<Rightarrow> 'a outcome \<times> 'w"

definition ret :: "'a \<Rightarrow> ('w, 'a) go" where
  "ret a w = (Ret a, w)"

definition panicg :: "string \<Rightarrow> ('w, 'a) go" where
  "panicg s w = (Panic s, w)"

definition bindg :: "('w, 'a) go \<Rightarrow> ('a \<Rightarrow> ('w, 'b) go) \<Rightarrow> ('w, 'b) go" where
  "bindg m f w = (case m w of (Ret a, w') \<Rightarrow> f a w' | (Panic p, w') \<Rightarrow> (Panic p, w'))"

definition seqg :: "('w, unit) go \<Rightarrow> ('w, 'b) go \<Rightarrow> ('w, 'b) go" where
  "seqg m n = bindg m (\<lambda>_. n)"

definition tryg :: "('w, 'e + 'a) go \<Rightarrow> ('e \<Rightarrow> ('w, 'b) go) \<Rightarrow> ('a \<Rightarrow> ('w, 'b) go) \<Rightarrow> ('w, 'b) go" where
  "tryg m onerr k = bindg m (\<lambda>r. case r of Inl e \<Rightarrow> onerr e | Inr a \<Rightarrow> k a)"

definition deferg :: "('a outcome \<Rightarrow> ('w, unit) go) \<Rightarrow> ('w, 'a) go \<Rightarrow> ('w, 'a) go" where
  "deferg d m w = (case m w of (r, w') \<Rightarrow>
     (case d r w' of (Ret _, w'') \<Rightarrow> (r, w'') | (Panic p, w'') \<Rightarrow> (Panic p, w'')))"

definition recoverg :: "(string \<Rightarrow> ('w, 'a) go) \<Rightarrow> ('w, 'a) go \<Rightarrow> ('w, 'a) go" where
  "recoverg h m w = (case m w of (Ret a, w') \<Rightarrow> (Ret a, w') | (Panic p, w') \<Rightarrow> h p w')"

definition reads :: "('w \<Rightarrow> 'a) \<Rightarrow> ('w, 'a) go" where
  "reads f w = (Ret (f w), w)"

definition modifies :: "('w \<Rightarrow> 'w) \<Rightarrow> ('w, unit) go" where
  "modifies f w = (Ret (), f w)"

subsection \<open>Weakest preconditions\<close>

definition wp :: "('w, 'a) go \<Rightarrow> ('a outcome \<Rightarrow> 'w \<Rightarrow> bool) \<Rightarrow> 'w \<Rightarrow> bool" where
  "wp m Q w = (case m w of (r, w') \<Rightarrow> Q r w')"

lemma wp_ret [wp_simps]: "wp (ret a) Q w = Q (Ret a) w"
  by (simp add: wp_def ret_def)

lemma wp_panicg [wp_simps]: "wp (panicg s) Q w = Q (Panic s) w"
  by (simp add: wp_def panicg_def)

lemma wp_bindg [wp_simps]:
  "wp (bindg m f) Q w =
     wp m (\<lambda>r w'. case r of Ret a \<Rightarrow> wp (f a) Q w' | Panic p \<Rightarrow> Q (Panic p) w') w"
  by (auto simp: wp_def bindg_def split: prod.splits outcome.splits)

lemma wp_seqg [wp_simps]:
  "wp (seqg m n) Q w =
     wp m (\<lambda>r w'. case r of Ret a \<Rightarrow> wp n Q w' | Panic p \<Rightarrow> Q (Panic p) w') w"
  by (simp add: seqg_def wp_bindg)

lemma wp_tryg [wp_simps]:
  "wp (tryg m h k) Q w =
     wp m (\<lambda>r w'. case r of Ret (Inl e) \<Rightarrow> wp (h e) Q w' | Ret (Inr a) \<Rightarrow> wp (k a) Q w'
                  | Panic p \<Rightarrow> Q (Panic p) w') w"
  by (auto simp: tryg_def wp_bindg intro!: arg_cong2 [where f = "\<lambda>x. wp m x"] ext
      split: outcome.splits sum.splits)

lemma wp_deferg [wp_simps]:
  "wp (deferg d m) Q w =
     wp m (\<lambda>r w'. wp (d r) (\<lambda>r' w''. case r' of Ret _ \<Rightarrow> Q r w'' | Panic p \<Rightarrow> Q (Panic p) w'') w') w"
  by (auto simp: wp_def deferg_def split: prod.splits outcome.splits)

lemma wp_recoverg [wp_simps]:
  "wp (recoverg h m) Q w =
     wp m (\<lambda>r w'. case r of Ret a \<Rightarrow> Q (Ret a) w' | Panic p \<Rightarrow> wp (h p) Q w') w"
  by (auto simp: wp_def recoverg_def split: prod.splits outcome.splits)

lemma wp_reads [wp_simps]: "wp (reads f) Q w = Q (Ret (f w)) w"
  by (simp add: wp_def reads_def)

lemma wp_modifies [wp_simps]: "wp (modifies f) Q w = Q (Ret ()) (f w)"
  by (simp add: wp_def modifies_def)

lemma wp_if [wp_simps]: "wp (if b then m else n) Q w = (if b then wp m Q w else wp n Q w)"
  by simp

lemma wp_mono: "wp m P w \<Longrightarrow> (\<And>r w'. P r w' \<Longrightarrow> Q r w') \<Longrightarrow> wp m Q w"
  by (auto simp: wp_def split: prod.splits)

lemma wp_conj: "wp m P w \<Longrightarrow> wp m Q w \<Longrightarrow> wp m (\<lambda>r w'. P r w' \<and> Q r w') w"
  by (auto simp: wp_def split: prod.splits)

lemma wpD: "wp m Q w \<Longrightarrow> m w = (r, w') \<Longrightarrow> Q r w'"
  by (simp add: wp_def)

lemma wpI: "(\<And>r w'. m w = (r, w') \<Longrightarrow> Q r w') \<Longrightarrow> wp m Q w"
  by (auto simp: wp_def split: prod.splits)

subsection \<open>Lists\<close>

lemma distinct_map_append1:
  "distinct (map f (xs @ [x])) \<longleftrightarrow> distinct (map f xs) \<and> f x \<notin> f ` set xs"
  by auto

lemma find_Some_iff_filter: "find P xs = Some x \<Longrightarrow> P x \<and> x \<in> set xs"
  by (metis find_Some_iff nth_mem)

lemma find_None_all: "find P xs = None \<longleftrightarrow> (\<forall>x \<in> set xs. \<not> P x)"
  by (auto simp: find_None_iff)

end
