(* ===== verification/Go_Encoding.thy ===== *)
theory Go_Encoding
  imports Prelude
begin

text \<open>
  Go's \<open>encoding/hex\<close> and \<open>encoding/base64\<close> (the unpadded standard and URL alphabets), as the
  program uses them: \<open>hex.EncodeToString\<close>, \<open>EncodeToString\<close> and \<open>DecodeString\<close> of
  \<open>RawStdEncoding\<close> and \<open>RawURLEncoding\<close>. Lemmas: lengths, alphabets, injectivity and the round
  trip \<open>DecodeString (EncodeToString b) = b\<close>.
\<close>

abbreviation byte :: "char \<Rightarrow> nat" where
  "byte \<equiv> of_char"

lemma byte_lt [simp]: "byte c < 256"
  by simp

lemma byte_inject [simp]: "byte c = byte d \<longleftrightarrow> c = d"
  by simp

subsection \<open>Hexadecimal\<close>

definition hextable :: string where
  "hextable = ''0123456789abcdef''"

definition hexdigit :: "nat \<Rightarrow> char" where
  "hexdigit n = hextable ! n"

fun hex_EncodeToString :: "string \<Rightarrow> string" where
  "hex_EncodeToString [] = []"
| "hex_EncodeToString (c # cs) =
    hexdigit (byte c div 16) # hexdigit (byte c mod 16) # hex_EncodeToString cs"

definition unhexdigit :: "char \<Rightarrow> nat option" where
  "unhexdigit c = (let b = byte c in
     if 48 \<le> b \<and> b \<le> 57 then Some (b - 48)
     else if 97 \<le> b \<and> b \<le> 102 then Some (b - 87) else None)"

lemma less_16_cases: "n < 16 \<Longrightarrow> n \<in> {0,1,2,3,4,5,6,7,8,9,10,11,12,13,14,15::nat}"
  by (simp add: numeral_eq_Suc less_Suc_eq)

lemma unhexdigit_hexdigit [simp]: "n < 16 \<Longrightarrow> unhexdigit (hexdigit n) = Some n"
  by (drule less_16_cases) (auto simp: hexdigit_def hextable_def unhexdigit_def Let_def)

lemma hexdigit_inject: "m < 16 \<Longrightarrow> n < 16 \<Longrightarrow> hexdigit m = hexdigit n \<longleftrightarrow> m = n"
  by (metis option.inject unhexdigit_hexdigit)

lemma hexdigit_in: "n < 16 \<Longrightarrow> hexdigit n \<in> set hextable"
  by (drule less_16_cases) (auto simp: hexdigit_def hextable_def)

lemma length_hex [simp]: "length (hex_EncodeToString s) = 2 * length s"
  by (induction s) auto

lemma hex_alphabet: "set (hex_EncodeToString s) \<subseteq> set hextable"
  by (induction s) (auto intro: hexdigit_in simp: less_mult_imp_div_less)

lemma hex_inject: "hex_EncodeToString s = hex_EncodeToString t \<longleftrightarrow> s = t"
proof (induction s arbitrary: t)
  case Nil
  then show ?case by (cases t) auto
next
  case (Cons c cs)
  have *: "c = d" if "byte c div 16 = byte d div 16" "byte c mod 16 = byte d mod 16" for c d
    using that by (metis byte_inject div_mod_decomp)
  show ?case
    by (cases t) (auto simp: Cons.IH hexdigit_inject less_mult_imp_div_less intro: *)
qed

subsection \<open>Base64 without padding\<close>

definition std_alphabet :: string where
  "std_alphabet = ''ABCDEFGHIJKLMNOPQRSTUVWXYZabcdefghijklmnopqrstuvwxyz0123456789+/''"

definition url_alphabet :: string where
  "url_alphabet = ''ABCDEFGHIJKLMNOPQRSTUVWXYZabcdefghijklmnopqrstuvwxyz0123456789-_''"

text \<open>Three bytes make four characters; a last group of one or two bytes makes two or three.\<close>

fun sextets :: "string \<Rightarrow> nat list" where
  "sextets [] = []"
| "sextets [a] = [byte a div 4, byte a mod 4 * 16]"
| "sextets [a, b] = [byte a div 4, byte a mod 4 * 16 + byte b div 16, byte b mod 16 * 4]"
| "sextets (a # b # c # cs) =
    byte a div 4 # (byte a mod 4 * 16 + byte b div 16) # (byte b mod 16 * 4 + byte c div 64)
     # byte c mod 64 # sextets cs"

definition base64_EncodeToString :: "string \<Rightarrow> string \<Rightarrow> string" where
  "base64_EncodeToString alphabet s = map (\<lambda>n. alphabet ! n) (sextets s)"

text \<open>\<open>DecodeString\<close>: carriage returns and newlines are skipped, a foreign character or a last
  group of a single character is an error, and the unused bits of the last character are ignored
  (the encodings are not \<open>Strict\<close>).\<close>

fun unsextets :: "nat list \<Rightarrow> string option" where
  "unsextets [] = Some []"
| "unsextets [_] = None"
| "unsextets [a, b] = Some [char_of (a * 4 + b div 16)]"
| "unsextets [a, b, c] =
    Some [char_of (a * 4 + b div 16), char_of (b mod 16 * 16 + c div 4)]"
| "unsextets (a # b # c # d # ns) =
    (case unsextets ns of
       Some s \<Rightarrow> Some (char_of (a * 4 + b div 16) # char_of (b mod 16 * 16 + c div 4)
                        # char_of (c mod 4 * 64 + d) # s)
     | None \<Rightarrow> None)"

fun index_of :: "'a list \<Rightarrow> 'a \<Rightarrow> nat option" where
  "index_of [] x = None"
| "index_of (y # ys) x = (if x = y then Some 0 else map_option Suc (index_of ys x))"

fun decode_chars :: "string \<Rightarrow> string \<Rightarrow> nat list option" where
  "decode_chars alphabet [] = Some []"
| "decode_chars alphabet (c # cs) =
    (case index_of alphabet c of None \<Rightarrow> None
     | Some n \<Rightarrow> map_option ((#) n) (decode_chars alphabet cs))"

definition base64_DecodeString :: "string \<Rightarrow> string \<Rightarrow> string option" where
  "base64_DecodeString alphabet s =
    (case decode_chars alphabet (filter (\<lambda>c. byte c \<noteq> 10 \<and> byte c \<noteq> 13) s) of
       None \<Rightarrow> None | Some ns \<Rightarrow> unsextets ns)"

lemma sextets_lt: "n \<in> set (sextets s) \<Longrightarrow> n < 64"
proof (induction s rule: sextets.induct)
  case (4 a b c cs)
  have "byte a < 256" "byte b < 256" "byte c < 256" by simp_all
  with 4 show ?case by (auto simp del: byte_lt)
next
  case (2 a)
  have "byte a < 256" by simp
  with 2 show ?case by (auto simp del: byte_lt)
next
  case (3 a b)
  have "byte a < 256" "byte b < 256" by simp_all
  with 3 show ?case by (auto simp del: byte_lt)
qed simp

lemma length_sextets: "length (sextets s) = (4 * length s + 2) div 3"
  by (induction s rule: sextets.induct) auto

lemma length_base64 [simp]: "length (base64_EncodeToString al s) = (4 * length s + 2) div 3"
  by (simp add: base64_EncodeToString_def length_sextets)

lemma byte_split4: "byte a div 4 * 4 + byte a mod 4 = byte a"
  by presburger

lemma char_of_eq: "n = byte c \<Longrightarrow> char_of n = c"
  by simp

lemma unsextets_sextets: "unsextets (sextets s) = Some s"
proof (induction s rule: sextets.induct)
  case (2 a)
  show ?case by (auto intro!: char_of_eq)
next
  case (3 a b)
  have "byte b < 256" by simp
  then show ?case by (auto intro!: char_of_eq simp del: byte_lt)
next
  case (4 a b c cs)
  have "byte a < 256" "byte b < 256" "byte c < 256" by simp_all
  with 4 show ?case by (auto intro!: char_of_eq simp del: byte_lt)
qed simp

lemma index_of_nth: "distinct xs \<Longrightarrow> n < length xs \<Longrightarrow> index_of xs (xs ! n) = Some n"
proof (induction xs arbitrary: n)
  case (Cons x xs)
  then show ?case by (cases n) auto
qed simp

lemma decode_chars_map:
  "distinct al \<Longrightarrow> list_all (\<lambda>n. n < length al) ns \<Longrightarrow>
    decode_chars al (map (\<lambda>n. al ! n) ns) = Some ns"
  by (induction ns) (auto simp: index_of_nth)

definition good_alphabet :: "string \<Rightarrow> bool" where
  "good_alphabet al = (distinct al \<and> length al = 64 \<and> list_all (\<lambda>c. byte c \<noteq> 10 \<and> byte c \<noteq> 13) al)"

lemma good_std: "good_alphabet std_alphabet"
  by (simp add: good_alphabet_def std_alphabet_def)

lemma good_url: "good_alphabet url_alphabet"
  by (simp add: good_alphabet_def url_alphabet_def)

lemma base64_set:
  assumes "good_alphabet al"
  shows "set (base64_EncodeToString al s) \<subseteq> set al"
  using assms by (auto simp: base64_EncodeToString_def good_alphabet_def dest: sextets_lt)

lemma base64_roundtrip:
  assumes g: "good_alphabet al"
  shows "base64_DecodeString al (base64_EncodeToString al s) = Some s"
proof -
  have "list_all (\<lambda>n. n < length al) (sextets s)"
    using g sextets_lt by (auto simp: list_all_iff good_alphabet_def)
  then have d: "decode_chars al (base64_EncodeToString al s) = Some (sextets s)"
    using g by (simp add: base64_EncodeToString_def decode_chars_map good_alphabet_def)
  have "filter (\<lambda>c. byte c \<noteq> 10 \<and> byte c \<noteq> 13) (base64_EncodeToString al s)
      = base64_EncodeToString al s"
    using g base64_set [OF g] by (auto simp: filter_id_conv good_alphabet_def list_all_iff)
  then show ?thesis
    by (simp add: base64_DecodeString_def d unsextets_sextets del: filter_True)
qed

subsection \<open>Fixed-width hexadecimal numbers\<close>

text \<open>\<open>hexn k n\<close> is \<open>n\<close> in \<open>k\<close> hexadecimal digits, most significant first.\<close>

fun hexn :: "nat \<Rightarrow> nat \<Rightarrow> string" where
  "hexn 0 n = []"
| "hexn (Suc k) n = hexn k (n div 16) @ [hexdigit (n mod 16)]"

fun unhex_acc :: "nat \<Rightarrow> string \<Rightarrow> nat option" where
  "unhex_acc acc [] = Some acc"
| "unhex_acc acc (c # cs) =
    (case unhexdigit c of None \<Rightarrow> None | Some d \<Rightarrow> unhex_acc (acc * 16 + d) cs)"

lemma unhex_acc_append:
  "unhex_acc acc (xs @ ys) = (case unhex_acc acc xs of None \<Rightarrow> None | Some a \<Rightarrow> unhex_acc a ys)"
  by (induction xs arbitrary: acc) (auto split: option.splits)

lemma unhex_hexn: "unhex_acc acc (hexn k n) = Some (acc * 16 ^ k + n mod 16 ^ k)"
proof (induction k arbitrary: n)
  case (Suc k)
  have "n div 16 mod 16 ^ k * 16 + n mod 16 = n mod 16 ^ Suc k"
    by (metis add.commute mod_mult2_eq mult.commute power_Suc)
  then show ?case by (simp add: unhex_acc_append Suc.IH algebra_simps)
qed simp

lemma length_hexn [simp]: "length (hexn k n) = k"
  by (induction k arbitrary: n) auto

lemma hexn_alphabet: "set (hexn k n) \<subseteq> set hextable"
  by (induction k arbitrary: n) (auto intro: hexdigit_in)

end
