(* ===== verification/Go_Strings.thy ===== *)
theory Go_Strings
  imports Prelude
begin

text \<open>
  The parts of Go's \<open>unicode/utf8\<close>, \<open>unicode\<close> and \<open>strings\<close> packages the program calls: rune
  decoding and encoding, \<open>unicode.ToLower\<close> with the case table of the Unicode version Go ships,
  \<open>unicode.IsSpace\<close>, \<open>strings.ToLower\<close>, \<open>strings.TrimSpace\<close>, \<open>strings.Split\<close> and
  \<open>strings.IndexByte\<close>. A rune is a \<^typ>\<open>nat\<close>.
\<close>

subsection \<open>UTF-8\<close>

definition RuneError :: nat where
  "RuneError = 65533"

definition cont :: "char \<Rightarrow> bool" where
  "cont c = (128 \<le> (of_char c :: nat) \<and> (of_char c :: nat) < 192)"

definition cbits :: "char \<Rightarrow> nat" where
  "cbits c = of_char c - 128"

text \<open>\<open>utf8.DecodeRuneInString\<close>: the first rune and its width, or \<open>(RuneError, 1)\<close> for an
  invalid encoding (overlong, surrogate, beyond U+10FFFF, truncated).\<close>

fun decode_rune :: "string \<Rightarrow> nat \<times> nat" where
  "decode_rune [] = (RuneError, 0)"
| "decode_rune (c0 # cs) =
    (let b0 = of_char c0 :: nat in
     if b0 < 128 then (b0, 1)
     else if b0 < 194 \<or> 244 < b0 then (RuneError, 1)
     else if b0 < 224 then
       (case cs of c1 # _ \<Rightarrow> if cont c1 then ((b0 - 192) * 64 + cbits c1, 2) else (RuneError, 1)
        | _ \<Rightarrow> (RuneError, 1))
     else if b0 < 240 then
       (case cs of c1 # c2 # _ \<Rightarrow>
          if cont c1 \<and> cont c2 \<and> (b0 = 224 \<longrightarrow> 160 \<le> (of_char c1 :: nat))
             \<and> (b0 = 237 \<longrightarrow> (of_char c1 :: nat) < 160)
          then ((b0 - 224) * 4096 + cbits c1 * 64 + cbits c2, 3) else (RuneError, 1)
        | _ \<Rightarrow> (RuneError, 1))
     else
       (case cs of c1 # c2 # c3 # _ \<Rightarrow>
          if cont c1 \<and> cont c2 \<and> cont c3 \<and> (b0 = 240 \<longrightarrow> 144 \<le> (of_char c1 :: nat))
             \<and> (b0 = 244 \<longrightarrow> (of_char c1 :: nat) < 144)
          then ((b0 - 240) * 262144 + cbits c1 * 4096 + cbits c2 * 64 + cbits c3, 4)
          else (RuneError, 1)
        | _ \<Rightarrow> (RuneError, 1)))"

declare decode_rune.simps [simp del]

lemma decode_rune_Nil [simp]: "decode_rune [] = (RuneError, 0)"
  by (simp add: decode_rune.simps)

lemma decode_rune_ascii [simp]:
  "(of_char c :: nat) < 128 \<Longrightarrow> decode_rune (c # cs) = (of_char c, 1)"
  by (simp add: decode_rune.simps)

lemma decode_rune_width: "s \<noteq> [] \<Longrightarrow> 0 < snd (decode_rune s)"
  by (cases s) (auto simp: decode_rune.simps Let_def split: list.splits)

lemma decode_rune_width_le: "snd (decode_rune s) \<le> length s"
  by (cases s) (auto simp: decode_rune.simps Let_def split: list.splits)

text \<open>The runes a \<open>for _, c := range s\<close> loop visits.\<close>

function runes :: "string \<Rightarrow> nat list" where
  "runes s = (if s = [] then [] else fst (decode_rune s) # runes (drop (snd (decode_rune s)) s))"
  by pat_completeness auto
termination
  by (relation "measure length") (use decode_rune_width in auto)

declare runes.simps [simp del]

lemma runes_Nil [simp]: "runes [] = []"
  by (simp add: runes.simps)

lemma runes_ascii_Cons [simp]:
  "(of_char c :: nat) < 128 \<Longrightarrow> runes (c # cs) = of_char c # runes cs"
  by (subst runes.simps) simp

definition ascii :: "string \<Rightarrow> bool" where
  "ascii s = list_all (\<lambda>c. (of_char c :: nat) < 128) s"

lemma runes_ascii: "ascii s \<Longrightarrow> runes s = map of_char s"
  by (induction s) (auto simp: ascii_def)

text \<open>\<open>utf8.EncodeRune\<close>; a surrogate or a value beyond U+10FFFF is encoded as \<open>RuneError\<close>.\<close>

definition encode_rune :: "nat \<Rightarrow> string" where
  "encode_rune r =
    (if r < 128 then [char_of r]
     else if r < 2048 then [char_of (192 + r div 64), char_of (128 + r mod 64)]
     else if 1114111 < r \<or> (55296 \<le> r \<and> r < 57344) then [char_of (239::nat), char_of (191::nat), char_of (189::nat)]
     else if r < 65536 then
       [char_of (224 + r div 4096), char_of (128 + r div 64 mod 64), char_of (128 + r mod 64)]
     else [char_of (240 + r div 262144), char_of (128 + r div 4096 mod 64),
           char_of (128 + r div 64 mod 64), char_of (128 + r mod 64)])"

lemma encode_rune_ascii [simp]: "r < 128 \<Longrightarrow> encode_rune r = [char_of r]"
  by (simp add: encode_rune_def)

lemma encode_rune_not_ascii:
  "128 \<le> r \<Longrightarrow> \<exists>c cs. encode_rune r = c # cs \<and> 128 \<le> (of_char c :: nat)"
  by (auto simp: encode_rune_def of_char_of)

text \<open>A Unicode scalar value is read back from its encoding.\<close>

definition scalar :: "nat \<Rightarrow> bool" where
  "scalar r = (r \<le> 1114111 \<and> \<not> (55296 \<le> r \<and> r < 57344))"

lemma of_char_byte: "n < 256 \<Longrightarrow> of_char (char_of n) = (n :: nat)"
  by (simp add: of_char_of)

lemma cont_byte: "n < 64 \<Longrightarrow> cont (char_of (128 + n)) \<and> cbits (char_of (128 + n)) = n"
  by (simp add: cont_def cbits_def of_char_byte)

lemma decode_2:
  "2 \<le> a \<Longrightarrow> a < 32 \<Longrightarrow> b < 64 \<Longrightarrow>
    decode_rune (char_of (192 + a :: nat) # char_of (128 + b :: nat) # t) = (a * 64 + b, 2)"
  by (simp add: decode_rune.simps Let_def of_char_byte cont_byte)

lemma decode_3:
  "a < 16 \<Longrightarrow> b < 64 \<Longrightarrow> c < 64 \<Longrightarrow> (a = 0 \<Longrightarrow> 32 \<le> b) \<Longrightarrow> (a = 13 \<Longrightarrow> b < 32) \<Longrightarrow>
    decode_rune (char_of (224 + a :: nat) # char_of (128 + b :: nat) # char_of (128 + c :: nat) # t) = (a * 4096 + b * 64 + c, 3)"
  by (auto simp add: decode_rune.simps Let_def of_char_byte cont_byte)

lemma decode_4:
  "a < 5 \<Longrightarrow> b < 64 \<Longrightarrow> c < 64 \<Longrightarrow> d < 64 \<Longrightarrow> (a = 0 \<Longrightarrow> 16 \<le> b) \<Longrightarrow> (a = 4 \<Longrightarrow> b < 16) \<Longrightarrow>
    decode_rune (char_of (240 + a :: nat) # char_of (128 + b :: nat) # char_of (128 + c :: nat) # char_of (128 + d :: nat) # t)
      = (a * 262144 + b * 4096 + c * 64 + d, 4)"
  by (auto simp add: decode_rune.simps Let_def of_char_byte cont_byte)

lemma digits_64: "(n :: nat) = n div 64 * 64 + n mod 64" "n div 64 div 64 = n div 4096" "n div 4096 div 64 = n div 262144"
  by (simp_all flip: div_mult2_eq)

lemma decode_encode_rune:
  assumes "scalar r"
  shows "decode_rune (encode_rune r @ t) = (r, length (encode_rune r))"
proof -
  have m: "r mod 64 < 64" "r div 64 mod 64 < 64" "r div 4096 mod 64 < 64" by simp_all
  have r2: "r = r div 64 * 64 + r mod 64" by (rule digits_64(1))
  have r3: "r = r div 4096 * 4096 + r div 64 mod 64 * 64 + r mod 64"
    using r2 digits_64(1) [of "r div 64", unfolded digits_64(2)] by linarith
  have r4: "r = r div 262144 * 262144 + r div 4096 mod 64 * 4096 + r div 64 mod 64 * 64 + r mod 64"
    using r3 digits_64(1) [of "r div 4096", unfolded digits_64(3)] by linarith
  consider "r < 128" | "128 \<le> r" "r < 2048" | "2048 \<le> r" "r < 65536" | "65536 \<le> r" by linarith
  then show ?thesis
  proof cases
    case 1 then show ?thesis by (simp add: of_char_byte)
  next
    case 2
    then have "encode_rune r = [char_of (192 + r div 64), char_of (128 + r mod 64)]" by (simp add: encode_rune_def)
    moreover have "2 \<le> r div 64" "r div 64 < 32" using 2 by simp_all
    ultimately show ?thesis using decode_2 [of "r div 64" "r mod 64" t] m r2 by simp
  next
    case 3
    with assms have "encode_rune r = [char_of (224 + r div 4096), char_of (128 + r div 64 mod 64), char_of (128 + r mod 64)]"
      by (auto simp: encode_rune_def scalar_def)
    moreover have "r div 4096 < 16" using 3 by simp
    moreover have "r div 4096 = 0 \<Longrightarrow> 32 \<le> r div 64 mod 64" "r div 4096 = 13 \<Longrightarrow> r div 64 mod 64 < 32"
      using r3 m 3 assms unfolding scalar_def by linarith+
    ultimately show ?thesis using decode_3 [of "r div 4096" "r div 64 mod 64" "r mod 64" t] m r3 by simp
  next
    case 4
    with assms have "encode_rune r = [char_of (240 + r div 262144), char_of (128 + r div 4096 mod 64), char_of (128 + r div 64 mod 64), char_of (128 + r mod 64)]"
      by (auto simp: encode_rune_def scalar_def)
    moreover have "r div 262144 < 5" using assms by (intro less_mult_imp_div_less) (simp add: scalar_def)
    moreover have "r div 262144 = 0 \<Longrightarrow> 16 \<le> r div 4096 mod 64" "r div 262144 = 4 \<Longrightarrow> r div 4096 mod 64 < 16"
      using r4 m 4 assms unfolding scalar_def by linarith+
    ultimately show ?thesis using decode_4 [of "r div 262144" "r div 4096 mod 64" "r div 64 mod 64" "r mod 64" t] m r4 by simp
  qed
qed

text \<open>Valid UTF-8.\<close>

definition valid_utf8 :: "string \<Rightarrow> bool" where
  "valid_utf8 s = (\<exists>rs. list_all scalar rs \<and> s = concat (map encode_rune rs))"

lemma valid_utf8_ascii:
  assumes "list_all (\<lambda>c. (of_char c :: nat) < 128) s"
  shows "valid_utf8 s"
proof -
  have "s = concat (map encode_rune (map of_char s))" using assms by (induction s) auto
  moreover have "list_all scalar (map of_char s)" using assms by (auto simp: list_all_iff scalar_def)
  ultimately show ?thesis unfolding valid_utf8_def by blast
qed

subsection \<open>Case mapping and white space\<close>

text \<open>The lower-case mapping of \<open>unicode.CaseRanges\<close> above ASCII, one entry
  \<open>(lo, hi, stride, delta)\<close> for the runes \<open>lo, lo + stride, \<dots>, hi\<close>.\<close>

definition lower_ranges :: "(nat \<times> nat \<times> nat \<times> int) list" where
  "lower_ranges =
    [(192, 214, 1, 32), (216, 222, 1, 32), (256, 302, 2, 1), (304, 304, 1, - 199),
     (306, 310, 2, 1), (313, 327, 2, 1), (330, 374, 2, 1), (376, 376, 1, - 121),
     (377, 381, 2, 1), (385, 385, 1, 210), (386, 388, 2, 1), (390, 390, 1, 206),
     (391, 391, 1, 1), (393, 394, 1, 205), (395, 395, 1, 1), (398, 398, 1, 79),
     (399, 399, 1, 202), (400, 400, 1, 203), (401, 401, 1, 1), (403, 403, 1, 205),
     (404, 404, 1, 207), (406, 406, 1, 211), (407, 407, 1, 209), (408, 408, 1, 1),
     (412, 412, 1, 211), (413, 413, 1, 213), (415, 415, 1, 214), (416, 420, 2, 1),
     (422, 422, 1, 218), (423, 423, 1, 1), (425, 425, 1, 218), (428, 428, 1, 1),
     (430, 430, 1, 218), (431, 431, 1, 1), (433, 434, 1, 217), (435, 437, 2, 1),
     (439, 439, 1, 219), (440, 440, 1, 1), (444, 444, 1, 1), (452, 452, 1, 2),
     (453, 453, 1, 1), (455, 455, 1, 2), (456, 456, 1, 1), (458, 458, 1, 2),
     (459, 475, 2, 1), (478, 494, 2, 1), (497, 497, 1, 2), (498, 500, 2, 1),
     (502, 502, 1, - 97), (503, 503, 1, - 56), (504, 542, 2, 1), (544, 544, 1, - 130),
     (546, 562, 2, 1), (570, 570, 1, 10795), (571, 571, 1, 1), (573, 573, 1, - 163),
     (574, 574, 1, 10792), (577, 577, 1, 1), (579, 579, 1, - 195), (580, 580, 1, 69),
     (581, 581, 1, 71), (582, 590, 2, 1), (880, 882, 2, 1), (886, 886, 1, 1),
     (895, 895, 1, 116), (902, 902, 1, 38), (904, 906, 1, 37), (908, 908, 1, 64),
     (910, 911, 1, 63), (913, 929, 1, 32), (931, 939, 1, 32), (975, 975, 1, 8),
     (984, 1006, 2, 1), (1012, 1012, 1, - 60), (1015, 1015, 1, 1), (1017, 1017, 1, - 7),
     (1018, 1018, 1, 1), (1021, 1023, 1, - 130), (1024, 1039, 1, 80), (1040, 1071, 1, 32),
     (1120, 1152, 2, 1), (1162, 1214, 2, 1), (1216, 1216, 1, 15), (1217, 1229, 2, 1),
     (1232, 1326, 2, 1), (1329, 1366, 1, 48), (4256, 4293, 1, 7264), (4295, 4295, 1, 7264),
     (4301, 4301, 1, 7264), (5024, 5103, 1, 38864), (5104, 5109, 1, 8), (7312, 7354, 1, - 3008),
     (7357, 7359, 1, - 3008), (7680, 7828, 2, 1), (7838, 7838, 1, - 7615), (7840, 7934, 2, 1),
     (7944, 7951, 1, - 8), (7960, 7965, 1, - 8), (7976, 7983, 1, - 8), (7992, 7999, 1, - 8),
     (8008, 8013, 1, - 8), (8025, 8031, 2, - 8), (8040, 8047, 1, - 8), (8072, 8079, 1, - 8),
     (8088, 8095, 1, - 8), (8104, 8111, 1, - 8), (8120, 8121, 1, - 8), (8122, 8123, 1, - 74),
     (8124, 8124, 1, - 9), (8136, 8139, 1, - 86), (8140, 8140, 1, - 9), (8152, 8153, 1, - 8),
     (8154, 8155, 1, - 100), (8168, 8169, 1, - 8), (8170, 8171, 1, - 112), (8172, 8172, 1, - 7),
     (8184, 8185, 1, - 128), (8186, 8187, 1, - 126), (8188, 8188, 1, - 9), (8486, 8486, 1, - 7517),
     (8490, 8490, 1, - 8383), (8491, 8491, 1, - 8262), (8498, 8498, 1, 28), (8544, 8559, 1, 16),
     (8579, 8579, 1, 1), (9398, 9423, 1, 26), (11264, 11311, 1, 48), (11360, 11360, 1, 1),
     (11362, 11362, 1, - 10743), (11363, 11363, 1, - 3814), (11364, 11364, 1, - 10727), (11367, 11371, 2, 1),
     (11373, 11373, 1, - 10780), (11374, 11374, 1, - 10749), (11375, 11375, 1, - 10783), (11376, 11376, 1, - 10782),
     (11378, 11378, 1, 1), (11381, 11381, 1, 1), (11390, 11391, 1, - 10815), (11392, 11490, 2, 1),
     (11499, 11501, 2, 1), (11506, 11506, 1, 1), (42560, 42604, 2, 1), (42624, 42650, 2, 1),
     (42786, 42798, 2, 1), (42802, 42862, 2, 1), (42873, 42875, 2, 1), (42877, 42877, 1, - 35332),
     (42878, 42886, 2, 1), (42891, 42891, 1, 1), (42893, 42893, 1, - 42280), (42896, 42898, 2, 1),
     (42902, 42920, 2, 1), (42922, 42922, 1, - 42308), (42923, 42923, 1, - 42319), (42924, 42924, 1, - 42315),
     (42925, 42925, 1, - 42305), (42926, 42926, 1, - 42308), (42928, 42928, 1, - 42258), (42929, 42929, 1, - 42282),
     (42930, 42930, 1, - 42261), (42931, 42931, 1, 928), (42932, 42946, 2, 1), (42948, 42948, 1, - 48),
     (42949, 42949, 1, - 42307), (42950, 42950, 1, - 35384), (42951, 42953, 2, 1), (42960, 42960, 1, 1),
     (42966, 42968, 2, 1), (42997, 42997, 1, 1), (65313, 65338, 1, 32), (66560, 66599, 1, 40),
     (66736, 66771, 1, 40), (66928, 66938, 1, 39), (66940, 66954, 1, 39), (66956, 66962, 1, 39),
     (66964, 66965, 1, 39), (68736, 68786, 1, 64), (71840, 71871, 1, 32), (93760, 93791, 1, 32),
     (125184, 125217, 1, 34)]"

fun in_range :: "nat \<Rightarrow> nat \<times> nat \<times> nat \<times> int \<Rightarrow> bool" where
  "in_range r (lo, hi, stride, d) = (lo \<le> r \<and> r \<le> hi \<and> (r - lo) mod stride = 0)"

definition unicode_ToLower :: "nat \<Rightarrow> nat" where
  "unicode_ToLower r =
    (if r < 128 then (if 65 \<le> r \<and> r \<le> 90 then r + 32 else r)
     else (case find (in_range r) lower_ranges of
             Some (lo, hi, stride, d) \<Rightarrow> nat (int r + d) | None \<Rightarrow> r))"

lemma unicode_ToLower_ascii_iff:
  "r < 128 \<Longrightarrow> unicode_ToLower r = (if 65 \<le> r \<and> r \<le> 90 then r + 32 else r)"
  by (simp add: unicode_ToLower_def)

lemma lower_ranges_ascii:
  "list_all (\<lambda>(lo, hi, stride, d). (lo = 304 \<and> hi = 304) \<or> (lo = 8490 \<and> hi = 8490) \<or> 128 \<le> int lo + d)
     lower_ranges"
  by (simp add: lower_ranges_def)

text \<open>Only two runes outside ASCII have an ASCII lower-case form: the dotted capital I (U+0130)
  and the Kelvin sign (U+212A).\<close>

lemma unicode_ToLower_to_ascii:
  assumes "128 \<le> r" "unicode_ToLower r < 128"
  shows "r = 304 \<or> r = 8490"
proof -
  from assms obtain lo hi stride d where f: "find (in_range r) lower_ranges = Some (lo, hi, stride, d)"
    by (auto simp: unicode_ToLower_def split: option.splits)
  from f have m: "in_range r (lo, hi, stride, d)" "(lo, hi, stride, d) \<in> set lower_ranges"
    using find_Some_iff_filter by fastforce+
  from lower_ranges_ascii m(2)
  have "(lo = 304 \<and> hi = 304) \<or> (lo = 8490 \<and> hi = 8490) \<or> 128 \<le> int lo + d"
    by (fastforce simp: list_all_iff)
  then show ?thesis
    using m(1) assms f by (auto simp: unicode_ToLower_def)
qed

definition unicode_IsSpace :: "nat \<Rightarrow> bool" where
  "unicode_IsSpace r =
    ((9 \<le> r \<and> r \<le> 13) \<or> r = 32 \<or> r = 133 \<or> r = 160 \<or> r = 5760 \<or> (8192 \<le> r \<and> r \<le> 8202)
     \<or> r = 8232 \<or> r = 8233 \<or> r = 8239 \<or> r = 8287 \<or> r = 12288)"

subsection \<open>The strings package\<close>

definition strings_ToLower :: "string \<Rightarrow> string" where
  "strings_ToLower s = concat (map (encode_rune \<circ> unicode_ToLower) (runes s))"

definition rune_start :: "char \<Rightarrow> bool" where
  "rune_start c = (\<not> cont c)"

text \<open>\<open>utf8.DecodeLastRuneInString\<close>: step back over at most three continuation bytes, decode, and
  insist that the rune ends where the string does.\<close>

definition last_start :: "string \<Rightarrow> nat" where
  "last_start s = (let e = length s in
     if rune_start (s ! (e - 1)) \<or> e = 1 then e - 1
     else if rune_start (s ! (e - 2)) \<or> e = 2 then e - 2
     else if rune_start (s ! (e - 3)) \<or> e = 3 then e - 3
     else e - 4)"

definition decode_last_rune :: "string \<Rightarrow> nat \<times> nat" where
  "decode_last_rune s =
    (if s = [] then (RuneError, 0)
     else if (of_char (last s) :: nat) < 128 then (of_char (last s), 1)
     else (case decode_rune (drop (last_start s) s) of
             (r, n) \<Rightarrow> if last_start s + n = length s then (r, n) else (RuneError, 1)))"

lemma decode_last_rune_width: "s \<noteq> [] \<Longrightarrow> 0 < snd (decode_last_rune s)"
proof (cases "(of_char (last s) :: nat) < 128")
  case False
  assume s: "s \<noteq> []"
  then have "drop (last_start s) s \<noteq> []"
    by (cases s) (auto simp: last_start_def Let_def)
  then have "0 < snd (decode_rune (drop (last_start s) s))"
    by (rule decode_rune_width)
  with s False show ?thesis
    by (auto simp: decode_last_rune_def split: prod.splits)
qed (simp add: decode_last_rune_def)

function trim_left :: "string \<Rightarrow> string" where
  "trim_left s = (if s \<noteq> [] \<and> unicode_IsSpace (fst (decode_rune s))
                  then trim_left (drop (snd (decode_rune s)) s) else s)"
  by pat_completeness auto
termination
  by (relation "measure length") (use decode_rune_width in auto)

function trim_right :: "string \<Rightarrow> string" where
  "trim_right s = (if s \<noteq> [] \<and> unicode_IsSpace (fst (decode_last_rune s))
                   then trim_right (take (length s - snd (decode_last_rune s)) s) else s)"
  by pat_completeness auto
termination
  by (relation "measure length") (use decode_last_rune_width in auto)

declare trim_left.simps [simp del] trim_right.simps [simp del]

definition strings_TrimSpace :: "string \<Rightarrow> string" where
  "strings_TrimSpace s = trim_right (trim_left s)"

text \<open>\<open>strings.Split(s, sep)\<close> for a one-byte separator.\<close>

fun strings_Split :: "char \<Rightarrow> string \<Rightarrow> string list" where
  "strings_Split sep [] = [[]]"
| "strings_Split sep (c # cs) =
    (if c = sep then [] # strings_Split sep cs
     else (case strings_Split sep cs of p # ps \<Rightarrow> (c # p) # ps | [] \<Rightarrow> [[c]]))"

text \<open>\<open>strings.IndexByte\<close>; \<open>None\<close> is the \<open>-1\<close> of the source.\<close>

fun strings_IndexByte :: "string \<Rightarrow> char \<Rightarrow> nat option" where
  "strings_IndexByte [] c = None"
| "strings_IndexByte (x # xs) c = (if x = c then Some 0 else map_option Suc (strings_IndexByte xs c))"

subsection \<open>Facts\<close>

lemma char_of_of_char_nat [simp]: "char_of (of_char c :: nat) = c"
  by simp

lemma strings_ToLower_id:
  assumes "ascii s" "list_all (\<lambda>c. \<not> (65 \<le> (of_char c :: nat) \<and> (of_char c :: nat) \<le> 90)) s"
  shows "strings_ToLower s = s"
proof -
  have "concat (map (encode_rune \<circ> unicode_ToLower) (map of_char s)) = s"
    using assms by (induction s) (auto simp: ascii_def unicode_ToLower_ascii_iff)
  with assms(1) show ?thesis by (simp add: strings_ToLower_def runes_ascii)
qed

lemma trim_left_id: "s = [] \<or> \<not> unicode_IsSpace (fst (decode_rune s)) \<Longrightarrow> trim_left s = s"
  by (subst trim_left.simps) auto

lemma trim_right_id: "s = [] \<or> \<not> unicode_IsSpace (fst (decode_last_rune s)) \<Longrightarrow> trim_right s = s"
  by (subst trim_right.simps) auto

lemma strings_TrimSpace_id:
  assumes "ascii s" "s \<noteq> []" "\<not> unicode_IsSpace (of_char (hd s))" "\<not> unicode_IsSpace (of_char (last s))"
  shows "strings_TrimSpace s = s"
proof -
  from assms have h: "(of_char (hd s) :: nat) < 128" "(of_char (last s) :: nat) < 128"
    by (auto simp: ascii_def list_all_iff)
  from assms(2) obtain c cs where s: "s = c # cs" by (cases s) auto
  have "trim_left s = s"
    using assms h s by (intro trim_left_id) auto
  moreover have "trim_right s = s"
    using assms h by (intro trim_right_id) (simp add: decode_last_rune_def)
  ultimately show ?thesis by (simp add: strings_TrimSpace_def)
qed

lemma strings_Split_nonempty [simp]: "strings_Split sep s \<noteq> []"
  by (induction s) (auto split: list.splits)

lemma strings_Split_no_sep: "p \<in> set (strings_Split sep s) \<Longrightarrow> sep \<notin> set p"
  by (induction s arbitrary: p) (auto split: list.splits if_splits)

lemma strings_Split_append:
  "sep \<notin> set a \<Longrightarrow> strings_Split sep (a @ sep # b) = a # strings_Split sep b"
  by (induction a) (auto split: list.splits)

lemma strings_Split_single: "sep \<notin> set a \<Longrightarrow> strings_Split sep a = [a]"
  by (induction a) auto

end
