(* ===== verification/Go_Num.thy ===== *)
theory Go_Num
  imports Go_Encoding Go_Strings
begin

text \<open>
  Decimal numbers: \<open>strconv.Atoi\<close>, the \<open>%d\<close> verb, the conversions \<open>uint32(n)\<close> and \<open>uint8(n)\<close>,
  \<open>time.Duration\<close> arithmetic, and \<open>fmt.Sscanf\<close> for formats made of literal text and \<open>%d\<close>.
\<close>

unbundle bit_operations_syntax

type_synonym u8 = "8 word"
type_synonym u32 = "32 word"

definition digit :: "char \<Rightarrow> bool" where
  "digit c = (48 \<le> byte c \<and> byte c \<le> 57)"

definition digit_val :: "char \<Rightarrow> nat" where
  "digit_val c = byte c - 48"

definition digit_char :: "nat \<Rightarrow> char" where
  "digit_char n = char_of (48 + n)"

lemma digit_char_props [simp]:
  "n < 10 \<Longrightarrow> digit (digit_char n)" "n < 10 \<Longrightarrow> digit_val (digit_char n) = n"
  by (simp_all add: digit_def digit_val_def digit_char_def of_char_of)

fun num_acc :: "nat \<Rightarrow> string \<Rightarrow> nat" where
  "num_acc acc [] = acc"
| "num_acc acc (c # cs) = num_acc (acc * 10 + digit_val c) cs"

lemma num_acc_append: "num_acc acc (xs @ ys) = num_acc (num_acc acc xs) ys"
  by (induction xs arbitrary: acc) auto

subsection \<open>Printing\<close>

text \<open>\<open>fmt.Sprintf("%d", n)\<close> of a number that is not negative.\<close>

fun itoa :: "nat \<Rightarrow> string" where
  "itoa n = (if n < 10 then [digit_char n] else itoa (n div 10) @ [digit_char (n mod 10)])"

declare itoa.simps [simp del]

lemma itoa_digits: "list_all digit (itoa n)"
proof (induction n rule: itoa.induct)
  case (1 n)
  then show ?case by (subst itoa.simps) auto
qed

lemma itoa_nonempty [simp]: "itoa n \<noteq> []"
  by (subst itoa.simps) simp

lemma num_acc_itoa: "num_acc 0 (itoa n) = n"
proof (induction n rule: itoa.induct)
  case (1 n)
  then show ?case by (subst itoa.simps) (auto simp: num_acc_append)
qed

text \<open>The same number padded with zeros to at least \<open>k\<close> digits.\<close>

fun padn :: "nat \<Rightarrow> nat \<Rightarrow> string" where
  "padn 0 n = []"
| "padn (Suc k) n = padn k (n div 10) @ [digit_char (n mod 10)]"

lemma length_padn [simp]: "length (padn k n) = k"
  by (induction k arbitrary: n) auto

lemma padn_digits: "list_all digit (padn k n)"
  by (induction k arbitrary: n) auto

lemma num_acc_padn: "num_acc acc (padn k n) = acc * 10 ^ k + n mod 10 ^ k"
proof (induction k arbitrary: n)
  case (Suc k)
  have "n div 10 mod 10 ^ k * 10 + n mod 10 = n mod 10 ^ Suc k"
    by (metis add.commute mod_mult2_eq mult.commute power_Suc)
  then show ?case by (simp add: num_acc_append Suc.IH algebra_simps)
qed simp

subsection \<open>strconv.Atoi\<close>

text \<open>An optional sign and at least one digit, nothing else, and a value of 64 bits; \<open>None\<close> is a
  non-nil error (\<open>ErrSyntax\<close> or \<open>ErrRange\<close>).\<close>

definition atoi_digits :: "string \<Rightarrow> nat option" where
  "atoi_digits s = (if s \<noteq> [] \<and> list_all digit s then Some (num_acc 0 s) else None)"

definition strconv_Atoi :: "string \<Rightarrow> int option" where
  "strconv_Atoi s =
    (let neg = (s \<noteq> [] \<and> hd s = CHR ''-'');
         body = (if s \<noteq> [] \<and> (hd s = CHR ''-'' \<or> hd s = CHR ''+'') then tl s else s)
     in case atoi_digits body of
          None \<Rightarrow> None
        | Some n \<Rightarrow> (let v = (if neg then - int n else int n)
                     in if - (2 ^ 63) \<le> v \<and> v < 2 ^ 63 then Some v else None))"

lemma strconv_Atoi_range: "strconv_Atoi s = Some n \<Longrightarrow> - (2 ^ 63) \<le> n \<and> n < 2 ^ 63"
  by (auto simp: strconv_Atoi_def Let_def split: option.splits if_splits)

lemma digit_not_sign: "digit c \<Longrightarrow> c \<noteq> CHR ''-'' \<and> c \<noteq> CHR ''+''"
  by (auto simp: digit_def)

lemma strconv_Atoi_itoa:
  assumes "n < 2 ^ 63"
  shows "strconv_Atoi (itoa n) = Some (int n)"
proof -
  obtain c cs where s: "itoa n = c # cs" by (cases "itoa n") auto
  with itoa_digits [of n] have "digit c" by simp
  then have "hd (itoa n) \<noteq> CHR ''-''" "hd (itoa n) \<noteq> CHR ''+''"
    using s digit_not_sign by auto
  moreover have "atoi_digits (itoa n) = Some n"
    by (simp add: atoi_digits_def itoa_digits num_acc_itoa)
  ultimately show ?thesis using assms by (simp add: strconv_Atoi_def Let_def)
qed

subsection \<open>Integer conversions and durations\<close>

definition uint32 :: "int \<Rightarrow> u32" where
  "uint32 n = word_of_int n"

definition uint8 :: "int \<Rightarrow> u8" where
  "uint8 n = word_of_int n"

lemma unat_uint32: "int (unat (uint32 n)) = n mod 2 ^ 32"
  by (simp add: uint32_def uint_word_of_int)

lemma unat_uint8: "int (unat (uint8 n)) = n mod 2 ^ 8"
  by (simp add: uint8_def uint_word_of_int)

definition Millisecond :: duration where
  "Millisecond = 1000000"

definition Second :: duration where
  "Second = 1000000000"

definition Hour :: duration where
  "Hour = 3600000000000"

text \<open>\<open>time.Duration(n) * unit\<close> is a 64-bit multiplication.\<close>

definition dur_mul :: "int \<Rightarrow> duration \<Rightarrow> duration" where
  "dur_mul n unit = int64 (n * unit)"

lemma dur_mul_exact: "0 < n \<Longrightarrow> n * unit < 2 ^ 63 \<Longrightarrow> 0 \<le> unit \<Longrightarrow> dur_mul n unit = n * unit"
  by (simp add: dur_mul_def int64_id order_trans [OF _ mult_nonneg_nonneg])

text \<open>\<open>t.Add(d)\<close>, and \<open>t.Sub(u)\<close>, which saturates at the limits of a \<open>Duration\<close>.\<close>

definition time_Add :: "time \<Rightarrow> duration \<Rightarrow> time" where
  "time_Add t d = t + d"

definition time_Sub :: "time \<Rightarrow> time \<Rightarrow> duration" where
  "time_Sub t u = max (- (2 ^ 63)) (min (2 ^ 63 - 1) (t - u))"

lemma time_Sub_pos: "0 < time_Sub t u \<longleftrightarrow> u < t"
  by (auto simp: time_Sub_def max_def min_def)

lemma time_Sub_le: "u \<le> t \<Longrightarrow> time_Sub t u \<le> t - u"
  by (auto simp: time_Sub_def max_def min_def)

subsection \<open>fmt.Sscanf\<close>

text \<open>Literal text must match byte for byte; \<open>%d\<close> into an unsigned variable of \<open>bits\<close> bits skips
  leading blanks (not newlines), takes the longest run of digits and fails on an empty run or on a
  value that does not fit. Input after the last verb is not looked at.\<close>

fun scan_lit :: "string \<Rightarrow> string \<Rightarrow> string option" where
  "scan_lit [] s = Some s"
| "scan_lit (x # xs) [] = None"
| "scan_lit (x # xs) (y # ys) = (if x = y then scan_lit xs ys else None)"

function scan_skip :: "string \<Rightarrow> string" where
  "scan_skip s = (if s \<noteq> [] \<and> unicode_IsSpace (fst (decode_rune s)) \<and> fst (decode_rune s) \<noteq> 10
                  then scan_skip (drop (snd (decode_rune s)) s) else s)"
  by pat_completeness auto
termination
  by (relation "measure length") (use decode_rune_width in auto)

declare scan_skip.simps [simp del]

definition scan_uint :: "nat \<Rightarrow> string \<Rightarrow> (nat \<times> string) option" where
  "scan_uint bits s =
    (let s' = scan_skip s; ds = takeWhile digit s'; n = num_acc 0 ds
     in if ds = [] \<or> 2 ^ bits \<le> n then None else Some (n, dropWhile digit s'))"

text \<open>\<open>%d\<close> into a signed \<open>int\<close> (64 bits) takes an optional sign.\<close>

definition scan_int :: "string \<Rightarrow> (int \<times> string) option" where
  "scan_int s =
    (let s' = scan_skip s;
         neg = (s' \<noteq> [] \<and> hd s' = CHR ''-'');
         s'' = (if s' \<noteq> [] \<and> (hd s' = CHR ''-'' \<or> hd s' = CHR ''+'') then tl s' else s');
         ds = takeWhile digit s'';
         v = (if neg then - int (num_acc 0 ds) else int (num_acc 0 ds))
     in if ds = [] \<or> v < - (2 ^ 63) \<or> 2 ^ 63 \<le> v then None else Some (v, dropWhile digit s''))"

lemma scan_lit_append [simp]: "scan_lit xs (xs @ ys) = Some ys"
  by (induction xs) auto

lemma scan_skip_digit: "digit c \<Longrightarrow> scan_skip (c # cs) = c # cs"
  by (subst scan_skip.simps) (auto simp: digit_def unicode_IsSpace_def)

lemma takeWhile_digits:
  assumes "list_all digit xs" "ys = [] \<or> \<not> digit (hd ys)"
  shows "takeWhile digit (xs @ ys) = xs" "dropWhile digit (xs @ ys) = ys"
  using assms by (induction xs; cases ys; auto)+

lemma scan_head:
  assumes "list_all digit xs" "xs \<noteq> []"
  shows "scan_skip (xs @ ys) = xs @ ys" "hd (xs @ ys) \<noteq> CHR ''-''" "hd (xs @ ys) \<noteq> CHR ''+''"
  using assms by (cases xs; auto simp: scan_skip_digit dest: digit_not_sign)+

lemma scan_uint_itoa:
  assumes "n < 2 ^ bits" "ys = [] \<or> \<not> digit (hd ys)"
  shows "scan_uint bits (itoa n @ ys) = Some (n, ys)"
  using assms itoa_digits [of n]
  by (simp add: scan_uint_def Let_def scan_head takeWhile_digits num_acc_itoa)

lemma scan_int_itoa:
  assumes "n < 2 ^ 63" "ys = [] \<or> \<not> digit (hd ys)"
  shows "scan_int (itoa n @ ys) = Some (int n, ys)"
  using assms itoa_digits [of n]
  by (simp add: scan_int_def Let_def scan_head takeWhile_digits num_acc_itoa del: hd_append2)

end
