(* ===== verification/Config.thy ===== *)
theory Config
  imports Go_Num
begin

text \<open>
  \<open>internal/config\<close>: the configuration record, its defaults, \<open>envOr\<close>, \<open>envBool\<close> and \<open>Load\<close>.
  The process environment is the function \<open>os.Getenv\<close> (an unset variable reads as the empty
  string). Lemmas: what a loaded configuration guarantees, which variable causes which error and in
  which order, and what the 64-bit and 32-bit conversions of \<open>Load\<close> do to large values.
\<close>

datatype config_error =
    config_ErrMissingPostgresURL
  | config_ErrInvalidInt
  | config_ErrMissingAllowedOrigins
  | config_ErrMissingValkeyURL

record Config =
  Addr :: string
  PostgresURL :: string
  CookieSecure :: bool
  SessionTTL :: duration
  Argon2MemoryKiB :: u32
  Argon2Time :: u32
  Argon2Parallel :: u8
  AllowedOrigins :: "string list"
  RunMigrationsOnBoot :: bool
  ValkeyURL :: string
  ValkeyDialTimeout :: duration
  ValkeyOpTimeout :: duration

definition defaultAddr :: string where "defaultAddr = '':8080''"
definition defaultSessionTTLHrs :: int where "defaultSessionTTLHrs = 168"
definition defaultArgon2MemoryKi :: u32 where "defaultArgon2MemoryKi = 65536"
definition defaultArgon2Time :: u32 where "defaultArgon2Time = 3"
definition defaultArgon2Para :: u8 where "defaultArgon2Para = 1"
definition defaultValkeyDialTimeoutMs :: int where "defaultValkeyDialTimeoutMs = 200"
definition defaultValkeyOpTimeoutMs :: int where "defaultValkeyOpTimeoutMs = 100"

lemmas config_defaults = defaultAddr_def defaultSessionTTLHrs_def defaultArgon2MemoryKi_def
  defaultArgon2Time_def defaultArgon2Para_def defaultValkeyDialTimeoutMs_def
  defaultValkeyOpTimeoutMs_def

definition envOr :: "(string \<Rightarrow> string) \<Rightarrow> string \<Rightarrow> string \<Rightarrow> string" where
  "envOr getenv key fallback = (let v = getenv key in if v \<noteq> '''' then v else fallback)"

definition envBool :: "(string \<Rightarrow> string) \<Rightarrow> string \<Rightarrow> bool \<Rightarrow> bool" where
  "envBool getenv key fallback =
    (let v = getenv key in
     if v = '''' then fallback
     else if v \<in> set [''1'', ''true'', ''TRUE'', ''yes'', ''YES''] then True
     else if v \<in> set [''0'', ''false'', ''FALSE'', ''no'', ''NO''] then False
     else fallback)"

text \<open>One optional integer variable of \<open>Load\<close>: absent keeps the default, a malformed value or one
  outside \<open>ok\<close> is \<open>ErrInvalidInt\<close>.\<close>

definition load_int ::
  "(string \<Rightarrow> string) \<Rightarrow> string \<Rightarrow> (int \<Rightarrow> bool) \<Rightarrow> (int \<Rightarrow> Config \<Rightarrow> Config) \<Rightarrow> Config \<Rightarrow> config_error + Config" where
  "load_int getenv key ok assign cfg =
    (let v = getenv key in
     if v \<noteq> '''' then
       (case strconv_Atoi v of
          None \<Rightarrow> Inl config_ErrInvalidInt
        | Some n \<Rightarrow> if \<not> ok n then Inl config_ErrInvalidInt else Inr (assign n cfg))
     else Inr cfg)"

definition and_then :: "'e + 'a \<Rightarrow> ('a \<Rightarrow> 'e + 'b) \<Rightarrow> 'e + 'b" where
  "and_then r f = (case r of Inl e \<Rightarrow> Inl e | Inr a \<Rightarrow> f a)"

definition load_numbers :: "(string \<Rightarrow> string) \<Rightarrow> Config \<Rightarrow> config_error + Config" where
  "load_numbers getenv cfg =
    and_then (load_int getenv ''VALKEY_DIAL_TIMEOUT_MS'' (\<lambda>n. 0 < n)
      (\<lambda>n c. c\<lparr>ValkeyDialTimeout := dur_mul n Millisecond\<rparr>) cfg) (\<lambda>cfg.
    and_then (load_int getenv ''VALKEY_OP_TIMEOUT_MS'' (\<lambda>n. 0 < n)
      (\<lambda>n c. c\<lparr>ValkeyOpTimeout := dur_mul n Millisecond\<rparr>) cfg) (\<lambda>cfg.
    and_then (load_int getenv ''SESSION_TTL_HOURS'' (\<lambda>n. 0 < n)
      (\<lambda>n c. c\<lparr>SessionTTL := dur_mul n Hour\<rparr>) cfg) (\<lambda>cfg.
    and_then (load_int getenv ''ARGON2_MEMORY_KIB'' (\<lambda>n. 0 < n)
      (\<lambda>n c. c\<lparr>Argon2MemoryKiB := uint32 n\<rparr>) cfg) (\<lambda>cfg.
    and_then (load_int getenv ''ARGON2_TIME'' (\<lambda>n. 0 < n)
      (\<lambda>n c. c\<lparr>Argon2Time := uint32 n\<rparr>) cfg) (\<lambda>cfg.
    load_int getenv ''ARGON2_PARALLELISM'' (\<lambda>n. 0 < n \<and> n \<le> 255)
      (\<lambda>n c. c\<lparr>Argon2Parallel := uint8 n\<rparr>) cfg)))))"

definition parse_origins :: "string \<Rightarrow> string list" where
  "parse_origins raw =
    filter (\<lambda>p. p \<noteq> '''') (map strings_TrimSpace (strings_Split (CHR '','') raw))"

definition base_config :: "(string \<Rightarrow> string) \<Rightarrow> Config" where
  "base_config getenv =
    \<lparr>Addr = envOr getenv ''ADDR'' defaultAddr,
     PostgresURL = getenv ''POSTGRES_URL'',
     CookieSecure = envBool getenv ''COOKIE_SECURE'' True,
     SessionTTL = dur_mul defaultSessionTTLHrs Hour,
     Argon2MemoryKiB = defaultArgon2MemoryKi,
     Argon2Time = defaultArgon2Time,
     Argon2Parallel = defaultArgon2Para,
     AllowedOrigins = [],
     RunMigrationsOnBoot = envBool getenv ''RUN_MIGRATIONS_ON_BOOT'' False,
     ValkeyURL = getenv ''VALKEY_URL'',
     ValkeyDialTimeout = dur_mul defaultValkeyDialTimeoutMs Millisecond,
     ValkeyOpTimeout = dur_mul defaultValkeyOpTimeoutMs Millisecond\<rparr>"

definition Load :: "(string \<Rightarrow> string) \<Rightarrow> config_error + Config" where
  "Load getenv =
    (let cfg = base_config getenv in
     if PostgresURL cfg = '''' then Inl config_ErrMissingPostgresURL
     else if ValkeyURL cfg = '''' then Inl config_ErrMissingValkeyURL
     else and_then (load_numbers getenv cfg) (\<lambda>cfg.
       let cfg = cfg\<lparr>AllowedOrigins := AllowedOrigins cfg @ parse_origins (getenv ''ALLOWED_ORIGINS'')\<rparr>
       in if length (AllowedOrigins cfg) = 0 then Inl config_ErrMissingAllowedOrigins
          else Inr cfg))"

subsection \<open>What a loaded configuration guarantees\<close>

lemma and_then_Inr: "and_then r f = Inr b \<longleftrightarrow> (\<exists>a. r = Inr a \<and> f a = Inr b)"
  by (auto simp: and_then_def split: sum.splits)

lemma and_then_Inl: "and_then r f = Inl e \<longleftrightarrow> r = Inl e \<or> (\<exists>a. r = Inr a \<and> f a = Inl e)"
  by (auto simp: and_then_def split: sum.splits)

lemma load_int_Inr:
  "load_int g key ok assign c = Inr c' \<longleftrightarrow>
    (g key = '''' \<and> c' = c) \<or> (\<exists>n. g key \<noteq> '''' \<and> strconv_Atoi (g key) = Some n \<and> ok n \<and> c' = assign n c)"
  by (auto simp: load_int_def Let_def split: option.splits if_splits)

definition bad_int :: "(string \<Rightarrow> string) \<Rightarrow> string \<Rightarrow> (int \<Rightarrow> bool) \<Rightarrow> bool" where
  "bad_int g key ok = (g key \<noteq> '''' \<and> (case strconv_Atoi (g key) of None \<Rightarrow> True | Some n \<Rightarrow> \<not> ok n))"

lemma load_int_eq:
  "load_int g key ok assign c =
    (if bad_int g key ok then Inl config_ErrInvalidInt
     else Inr (if g key = '''' then c else assign (the (strconv_Atoi (g key))) c))"
  by (simp add: load_int_def bad_int_def Let_def split: option.split)

lemma and_then_if: "and_then (if b then Inl e else Inr a) f = (if b then Inl e else f a)"
  by (simp add: and_then_def)

definition any_bad_int :: "(string \<Rightarrow> string) \<Rightarrow> bool" where
  "any_bad_int g =
    (bad_int g ''VALKEY_DIAL_TIMEOUT_MS'' (\<lambda>n. 0 < n) \<or> bad_int g ''VALKEY_OP_TIMEOUT_MS'' (\<lambda>n. 0 < n)
     \<or> bad_int g ''SESSION_TTL_HOURS'' (\<lambda>n. 0 < n) \<or> bad_int g ''ARGON2_MEMORY_KIB'' (\<lambda>n. 0 < n)
     \<or> bad_int g ''ARGON2_TIME'' (\<lambda>n. 0 < n) \<or> bad_int g ''ARGON2_PARALLELISM'' (\<lambda>n. 0 < n \<and> n \<le> 255))"

lemma load_numbers_Inl: "load_numbers g c = Inl e \<longleftrightarrow> e = config_ErrInvalidInt \<and> any_bad_int g"
  by (simp add: load_numbers_def load_int_eq and_then_if any_bad_int_def) blast

lemma load_numbers_ok: "\<not> any_bad_int g \<Longrightarrow> \<exists>c'. load_numbers g c = Inr c'"
  by (cases "load_numbers g c") (auto simp: load_numbers_Inl)

definition fixed_part :: "Config \<Rightarrow> string \<times> string \<times> string list \<times> bool \<times> string \<times> bool" where
  "fixed_part c = (PostgresURL c, ValkeyURL c, AllowedOrigins c, CookieSecure c, Addr c, RunMigrationsOnBoot c)"

lemma load_int_fixed:
  "load_int g key ok assign c = Inr c' \<Longrightarrow> (\<And>n. fixed_part (assign n c) = fixed_part c) \<Longrightarrow>
    fixed_part c' = fixed_part c"
  by (auto simp: load_int_Inr)

lemma load_numbers_fixed: "load_numbers g c = Inr c' \<Longrightarrow> fixed_part c' = fixed_part c"
  unfolding load_numbers_def and_then_Inr
  by (elim exE conjE, (drule load_int_fixed, simp only: fixed_part_def, simp)+, simp)

lemma set_trim_left: "set (trim_left s) \<subseteq> set s"
proof (induction s rule: trim_left.induct)
  case (1 s)
  then show ?case by (subst trim_left.simps) (auto dest: in_set_dropD)
qed

lemma set_trim_right: "set (trim_right s) \<subseteq> set s"
proof (induction s rule: trim_right.induct)
  case (1 s)
  then show ?case by (subst trim_right.simps) (auto dest: in_set_takeD)
qed

lemma parse_origins_clean: "p \<in> set (parse_origins raw) \<Longrightarrow> p \<noteq> '''' \<and> CHR '','' \<notin> set p"
  using set_trim_left set_trim_right strings_Split_no_sep
  by (fastforce simp: parse_origins_def strings_TrimSpace_def)

text \<open>C29: a configuration that \<open>Load\<close> returns has a database URL, a cache URL and at least one allowed
  origin, and every allowed origin is a non-empty piece of \<open>ALLOWED_ORIGINS\<close> without a comma. The
  server therefore never starts with an empty CSRF allow-list.\<close>

theorem Load_required:
  assumes "Load getenv = Inr cfg"
  shows "PostgresURL cfg \<noteq> '''' \<and> ValkeyURL cfg \<noteq> '''' \<and> AllowedOrigins cfg \<noteq> []
    \<and> (\<forall>p \<in> set (AllowedOrigins cfg). p \<noteq> '''' \<and> CHR '','' \<notin> set p)
    \<and> PostgresURL cfg = getenv ''POSTGRES_URL'' \<and> ValkeyURL cfg = getenv ''VALKEY_URL''"
proof -
  let ?os = "parse_origins (getenv ''ALLOWED_ORIGINS'')"
  from assms obtain c where c: "load_numbers getenv (base_config getenv) = Inr c"
    and cfg: "cfg = c\<lparr>AllowedOrigins := AllowedOrigins c @ ?os\<rparr>" "AllowedOrigins c @ ?os \<noteq> []"
    and r: "getenv ''POSTGRES_URL'' \<noteq> ''''" "getenv ''VALKEY_URL'' \<noteq> ''''"
    by (auto simp: Load_def Let_def and_then_Inr base_config_def split: if_splits)
  from load_numbers_fixed [OF c] cfg r show ?thesis
    using parse_origins_clean by (simp add: fixed_part_def base_config_def)
qed

text \<open>C30: \<open>Load\<close> fails exactly when a required variable is missing or a number is malformed, and the
  error it returns is the first of these in the order database URL, cache URL, numbers, origins.\<close>

theorem Load_errors:
  "Load getenv = Inl e \<longleftrightarrow>
    (if getenv ''POSTGRES_URL'' = '''' then e = config_ErrMissingPostgresURL
     else if getenv ''VALKEY_URL'' = '''' then e = config_ErrMissingValkeyURL
     else if any_bad_int getenv then e = config_ErrInvalidInt
     else parse_origins (getenv ''ALLOWED_ORIGINS'') = [] \<and> e = config_ErrMissingAllowedOrigins)"
proof (cases "any_bad_int getenv")
  case True
  then have "load_numbers getenv c = Inl config_ErrInvalidInt" for c
    by (simp add: load_numbers_Inl)
  with True show ?thesis by (auto simp: Load_def Let_def and_then_def base_config_def)
next
  case False
  then obtain c where c: "load_numbers getenv (base_config getenv) = Inr c"
    using load_numbers_ok by blast
  then have "AllowedOrigins c = []"
    using load_numbers_fixed [OF c] by (simp add: fixed_part_def base_config_def)
  with False c show ?thesis
    by (auto simp: Load_def Let_def and_then_def) (simp_all add: base_config_def)
qed


subsection \<open>The numbers of a loaded configuration\<close>

definition number_of :: "(string \<Rightarrow> string) \<Rightarrow> string \<Rightarrow> int \<Rightarrow> int" where
  "number_of g key d = (if g key = '''' then d else the (strconv_Atoi (g key)))"

lemma load_int_good:
  "\<not> bad_int g key ok \<Longrightarrow> assign d c = c \<Longrightarrow>
    load_int g key ok assign c = Inr (assign (number_of g key d) c)"
  by (simp add: load_int_eq number_of_def)

lemma load_numbers_eq:
  assumes "\<not> any_bad_int g"
  shows "load_numbers g (base_config g) = Inr (base_config g
    \<lparr>ValkeyDialTimeout := dur_mul (number_of g ''VALKEY_DIAL_TIMEOUT_MS'' 200) Millisecond,
     ValkeyOpTimeout := dur_mul (number_of g ''VALKEY_OP_TIMEOUT_MS'' 100) Millisecond,
     SessionTTL := dur_mul (number_of g ''SESSION_TTL_HOURS'' 168) Hour,
     Argon2MemoryKiB := uint32 (number_of g ''ARGON2_MEMORY_KIB'' 65536),
     Argon2Time := uint32 (number_of g ''ARGON2_TIME'' 3),
     Argon2Parallel := uint8 (number_of g ''ARGON2_PARALLELISM'' 1)\<rparr>)"
proof -
  have go: "and_then (load_int g key ok assign c) f = f (assign (number_of g key d) c)"
    if "\<not> bad_int g key ok" "assign d c = c" for key ok assign c d and f :: "Config \<Rightarrow> config_error + Config"
    using that by (simp add: load_int_good and_then_def)
  show ?thesis
    using assms unfolding any_bad_int_def load_numbers_def
    by (simp add: go [where d = 200] go [where d = 100] go [where d = 168] go [where d = 65536]
        go [where d = 3] load_int_good [where d = 1] base_config_def config_defaults uint32_def uint8_def)
qed

lemma Load_no_bad_int:
  assumes "Load g = Inr cfg"
  shows "\<not> any_bad_int g"
proof
  assume "any_bad_int g"
  then have "load_numbers g (base_config g) = Inl config_ErrInvalidInt"
    by (simp add: load_numbers_Inl)
  with assms show False by (simp add: Load_def Let_def and_then_def split: if_splits)
qed

lemma number_of_good:
  "\<not> bad_int g key ok \<Longrightarrow> ok d \<Longrightarrow> ok (number_of g key d)"
  by (auto simp: bad_int_def number_of_def split: option.splits)

lemma Load_number_fields:
  assumes "Load g = Inr cfg"
  shows "ValkeyDialTimeout cfg = dur_mul (number_of g ''VALKEY_DIAL_TIMEOUT_MS'' 200) Millisecond"
    "ValkeyOpTimeout cfg = dur_mul (number_of g ''VALKEY_OP_TIMEOUT_MS'' 100) Millisecond"
    "SessionTTL cfg = dur_mul (number_of g ''SESSION_TTL_HOURS'' 168) Hour"
    "Argon2MemoryKiB cfg = uint32 (number_of g ''ARGON2_MEMORY_KIB'' 65536)"
    "Argon2Time cfg = uint32 (number_of g ''ARGON2_TIME'' 3)"
    "Argon2Parallel cfg = uint8 (number_of g ''ARGON2_PARALLELISM'' 1)"
proof -
  from assms obtain c os where c: "load_numbers g (base_config g) = Inr c" "cfg = c\<lparr>AllowedOrigins := os\<rparr>"
    by (auto simp: Load_def Let_def and_then_Inr split: if_splits)
  note c [unfolded load_numbers_eq [OF Load_no_bad_int [OF assms]]]
  then show "ValkeyDialTimeout cfg = dur_mul (number_of g ''VALKEY_DIAL_TIMEOUT_MS'' 200) Millisecond"
    "ValkeyOpTimeout cfg = dur_mul (number_of g ''VALKEY_OP_TIMEOUT_MS'' 100) Millisecond"
    "SessionTTL cfg = dur_mul (number_of g ''SESSION_TTL_HOURS'' 168) Hour"
    "Argon2MemoryKiB cfg = uint32 (number_of g ''ARGON2_MEMORY_KIB'' 65536)"
    "Argon2Time cfg = uint32 (number_of g ''ARGON2_TIME'' 3)"
    "Argon2Parallel cfg = uint8 (number_of g ''ARGON2_PARALLELISM'' 1)"
    by (auto simp del: dur_mul_def)
qed

lemma Load_numbers_positive:
  assumes "Load g = Inr cfg"
  shows "0 < number_of g ''SESSION_TTL_HOURS'' 168" "0 < number_of g ''ARGON2_MEMORY_KIB'' 65536"
    "0 < number_of g ''ARGON2_TIME'' 3"
    "0 < number_of g ''ARGON2_PARALLELISM'' 1" "number_of g ''ARGON2_PARALLELISM'' 1 \<le> 255"
proof -
  have pos: "0 < number_of g key d" if "\<not> bad_int g key (\<lambda>n. 0 < n)" "0 < d" for key d
    using number_of_good [of g key "\<lambda>n. 0 < n" d] that by simp
  have "\<not> bad_int g ''SESSION_TTL_HOURS'' (\<lambda>n. 0 < n)" "\<not> bad_int g ''ARGON2_MEMORY_KIB'' (\<lambda>n. 0 < n)"
    "\<not> bad_int g ''ARGON2_TIME'' (\<lambda>n. 0 < n)" "\<not> bad_int g ''ARGON2_PARALLELISM'' (\<lambda>n. 0 < n \<and> n \<le> 255)"
    using Load_no_bad_int [OF assms] unfolding any_bad_int_def by blast+
  then show "0 < number_of g ''SESSION_TTL_HOURS'' 168" "0 < number_of g ''ARGON2_MEMORY_KIB'' 65536"
    "0 < number_of g ''ARGON2_TIME'' 3"
    "0 < number_of g ''ARGON2_PARALLELISM'' 1" "number_of g ''ARGON2_PARALLELISM'' 1 \<le> 255"
    using pos number_of_good [where ok = "\<lambda>n. 0 < n \<and> n \<le> 255" and d = 1] by simp_all
qed

text \<open>C31: the numbers of a loaded configuration are the ones the environment asks for, as long as they
  fit: the session lifetime is exactly the given number of hours up to 2562047 hours, the Argon2 cost
  parameters are exact below 2^32, and the parallelism is always exact and never zero.\<close>

theorem Load_exact_numbers:
  assumes "Load getenv = Inr cfg"
  defines "ttl \<equiv> number_of getenv ''SESSION_TTL_HOURS'' 168"
    and "mem \<equiv> number_of getenv ''ARGON2_MEMORY_KIB'' 65536"
    and "passes \<equiv> number_of getenv ''ARGON2_TIME'' 3"
  shows "0 < ttl \<and> (ttl \<le> 2562047 \<longrightarrow> SessionTTL cfg = ttl * 3600000000000)
    \<and> 0 < mem \<and> (mem < 2 ^ 32 \<longrightarrow> int (unat (Argon2MemoryKiB cfg)) = mem)
    \<and> 0 < passes \<and> (passes < 2 ^ 32 \<longrightarrow> int (unat (Argon2Time cfg)) = passes)
    \<and> int (unat (Argon2Parallel cfg)) = number_of getenv ''ARGON2_PARALLELISM'' 1
    \<and> Argon2Parallel cfg \<noteq> 0"
proof -
  note pos = Load_numbers_positive [OF assms(1)] and fields = Load_number_fields [OF assms(1)]
  have "ttl \<le> 2562047 \<Longrightarrow> dur_mul ttl Hour = ttl * 3600000000000"
    using pos(1) by (simp add: dur_mul_def Hour_def int64_def ttl_def)
  moreover have p: "int (unat (Argon2Parallel cfg)) = number_of getenv ''ARGON2_PARALLELISM'' 1"
    using pos(4,5) by (simp only: fields unat_uint8) simp
  moreover have "Argon2Parallel cfg \<noteq> 0"
    using p pos(4) by auto
  moreover have "int (unat (uint32 m)) = m" if "0 < m" "m < 2 ^ 32" for m
    using that by (simp only: unat_uint32) simp
  ultimately show ?thesis
    using pos fields(3-6) unfolding ttl_def mem_def passes_def by (simp only: simp_thms) blast
qed

text \<open>An environment for examples: the listed variables are set, all others are unset.\<close>

definition env_of :: "(string \<times> string) list \<Rightarrow> string \<Rightarrow> string" where
  "env_of kvs key = (case map_of kvs key of None \<Rightarrow> '''' | Some v \<Rightarrow> v)"

definition sample_env :: "(string \<times> string) list" where
  "sample_env = [(''POSTGRES_URL'', ''postgres://db''), (''VALKEY_URL'', ''redis://cache''),
     (''ALLOWED_ORIGINS'', ''https://app.1klas.com, ,http://localhost''),
     (''SESSION_TTL_HOURS'', ''24'')]"

text \<open>A check on the result of \<open>Load\<close> that evaluates.\<close>

definition loads :: "(string \<Rightarrow> string) \<Rightarrow> (Config \<Rightarrow> bool) \<Rightarrow> bool" where
  "loads g P = (case Load g of Inl e \<Rightarrow> False | Inr cfg \<Rightarrow> P cfg)"

lemma loads_iff: "loads g P \<longleftrightarrow> (\<exists>cfg. Load g = Inr cfg \<and> P cfg)"
  by (auto simp: loads_def split: sum.splits)

lemma load_sample_env: "loads (env_of sample_env) (\<lambda>cfg. SessionTTL cfg = 86400000000000)"
  by code_simp

theorem Load_required_witness:
  "\<exists>cfg. Load (env_of sample_env) = Inr cfg \<and> PostgresURL cfg \<noteq> '''' \<and> AllowedOrigins cfg \<noteq> []"
  using load_sample_env Load_required [of "env_of sample_env"] unfolding loads_iff by blast

theorem Load_exact_numbers_witness:
  "\<exists>cfg. Load (env_of sample_env) = Inr cfg \<and> SessionTTL cfg = 24 * 3600000000000 \<and> Argon2Parallel cfg \<noteq> 0"
proof -
  obtain cfg where cfg: "Load (env_of sample_env) = Inr cfg" using load_sample_env unfolding loads_iff by blast
  moreover have "number_of (env_of sample_env) ''SESSION_TTL_HOURS'' 168 = 24" by code_simp
  ultimately show ?thesis using Load_exact_numbers [OF cfg] by auto
qed

lemma Load_ok:
  assumes "g ''POSTGRES_URL'' \<noteq> ''''" "g ''VALKEY_URL'' \<noteq> ''''" "\<not> any_bad_int g"
    "parse_origins (g ''ALLOWED_ORIGINS'') \<noteq> []"
  obtains cfg where "Load g = Inr cfg"
  using assms load_numbers_ok [OF assms(3), of "base_config g"]
  by (auto simp: Load_def Let_def and_then_def base_config_def split: if_splits)

lemma sample_origins: "parse_origins ''https://app.1klas.com, ,http://localhost'' \<noteq> []"
  by code_simp

lemmas atoi_eval = strconv_Atoi_def atoi_digits_def digit_def digit_val_def

lemma load_with_time:
  "\<exists>cfg. Load (env_of ((''ARGON2_TIME'', ''4294967296'') # sample_env)) = Inr cfg \<and> Argon2Time cfg = 0"
proof -
  let ?g = "env_of ((''ARGON2_TIME'', ''4294967296'') # sample_env)"
  have n: "number_of ?g ''ARGON2_TIME'' 3 = 4294967296"
    by (simp add: number_of_def env_of_def atoi_eval)
  obtain cfg where "Load ?g = Inr cfg"
    by (rule Load_ok [of ?g])
       (simp_all add: any_bad_int_def bad_int_def env_of_def sample_env_def sample_origins atoi_eval)
  moreover from Load_number_fields(5) [OF this] n have "Argon2Time cfg = 0"
    by (simp add: uint32_def)
  ultimately show ?thesis by blast
qed

text \<open>What a successful \<open>Load\<close> returns.\<close>

definition loaded :: "(string \<Rightarrow> string) \<Rightarrow> Config" where
  "loaded g = base_config g
    \<lparr>ValkeyDialTimeout := dur_mul (number_of g ''VALKEY_DIAL_TIMEOUT_MS'' 200) Millisecond,
     ValkeyOpTimeout := dur_mul (number_of g ''VALKEY_OP_TIMEOUT_MS'' 100) Millisecond,
     SessionTTL := dur_mul (number_of g ''SESSION_TTL_HOURS'' 168) Hour,
     Argon2MemoryKiB := uint32 (number_of g ''ARGON2_MEMORY_KIB'' 65536),
     Argon2Time := uint32 (number_of g ''ARGON2_TIME'' 3),
     Argon2Parallel := uint8 (number_of g ''ARGON2_PARALLELISM'' 1),
     AllowedOrigins := parse_origins (g ''ALLOWED_ORIGINS'')\<rparr>"

lemma Load_Inr:
  "Load g = Inr cfg \<longleftrightarrow> g ''POSTGRES_URL'' \<noteq> '''' \<and> g ''VALKEY_URL'' \<noteq> '''' \<and> \<not> any_bad_int g
    \<and> parse_origins (g ''ALLOWED_ORIGINS'') \<noteq> [] \<and> cfg = loaded g"
proof (cases "any_bad_int g")
  case True
  then show ?thesis using Load_no_bad_int by blast
next
  case False
  have b: "PostgresURL (base_config g) = g ''POSTGRES_URL''" "ValkeyURL (base_config g) = g ''VALKEY_URL''"
    "AllowedOrigins (base_config g) = []"
    by (simp_all add: base_config_def)
  show ?thesis
    using False by (auto simp: Load_def Let_def b load_numbers_eq and_then_def loaded_def)
qed

lemma number_of_upd: "number_of (g(k := v)) key d = (if key = k then if v = '''' then d else the (strconv_Atoi v) else number_of g key d)"
  by (simp add: number_of_def)

lemma bad_int_upd: "bad_int (g(k := v)) key ok =
    (if key = k then v \<noteq> '''' \<and> (case strconv_Atoi v of None \<Rightarrow> True | Some n \<Rightarrow> \<not> ok n) else bad_int g key ok)"
  by (simp add: bad_int_def)

text \<open>C32: the numbers of the environment are converted with wrap-around, and all other settings stay. Take any environment that loads and
  replace one of its numbers by any positive number of 63 bits. It still loads, with the same configuration up to that
  number: the durations are the product modulo 2^64 as a signed number (negative for 2562048 hours), the memory
  and the passes are the number modulo 2^32 (zero passes for 2^32); only the parallelism is checked against its width.\<close>

theorem Load_wraps:
  assumes "Load g = Inr cfg" and "0 < n" and "n < 2 ^ 63"
  shows "Load (g(''SESSION_TTL_HOURS'' := itoa n)) = Inr (cfg\<lparr>SessionTTL := (int n * 3600000000000 + 2 ^ 63) mod 2 ^ 64 - 2 ^ 63\<rparr>)
    \<and> Load (g(''VALKEY_DIAL_TIMEOUT_MS'' := itoa n)) = Inr (cfg\<lparr>ValkeyDialTimeout := (int n * 1000000 + 2 ^ 63) mod 2 ^ 64 - 2 ^ 63\<rparr>)
    \<and> Load (g(''VALKEY_OP_TIMEOUT_MS'' := itoa n)) = Inr (cfg\<lparr>ValkeyOpTimeout := (int n * 1000000 + 2 ^ 63) mod 2 ^ 64 - 2 ^ 63\<rparr>)
    \<and> (\<exists>m. Load (g(''ARGON2_MEMORY_KIB'' := itoa n)) = Inr (cfg\<lparr>Argon2MemoryKiB := m\<rparr>) \<and> unat m = n mod 2 ^ 32)
    \<and> (\<exists>t. Load (g(''ARGON2_TIME'' := itoa n)) = Inr (cfg\<lparr>Argon2Time := t\<rparr>) \<and> unat t = n mod 2 ^ 32)
    \<and> (if n \<le> 255 then \<exists>q. Load (g(''ARGON2_PARALLELISM'' := itoa n)) = Inr (cfg\<lparr>Argon2Parallel := q\<rparr>) \<and> unat q = n
       else Load (g(''ARGON2_PARALLELISM'' := itoa n)) = Inl config_ErrInvalidInt)"
proof -
  note g = assms(1) [unfolded Load_Inr]
  note atoi = strconv_Atoi_itoa [OF assms(3)]
  have loads:
    "Load (g(''SESSION_TTL_HOURS'' := itoa n)) = Inr (loaded (g(''SESSION_TTL_HOURS'' := itoa n)))"
    "Load (g(''VALKEY_DIAL_TIMEOUT_MS'' := itoa n)) = Inr (loaded (g(''VALKEY_DIAL_TIMEOUT_MS'' := itoa n)))"
    "Load (g(''VALKEY_OP_TIMEOUT_MS'' := itoa n)) = Inr (loaded (g(''VALKEY_OP_TIMEOUT_MS'' := itoa n)))"
    "Load (g(''ARGON2_MEMORY_KIB'' := itoa n)) = Inr (loaded (g(''ARGON2_MEMORY_KIB'' := itoa n)))"
    "Load (g(''ARGON2_TIME'' := itoa n)) = Inr (loaded (g(''ARGON2_TIME'' := itoa n)))"
    "n \<le> 255 \<Longrightarrow> Load (g(''ARGON2_PARALLELISM'' := itoa n)) = Inr (loaded (g(''ARGON2_PARALLELISM'' := itoa n)))"
    using g assms(2) by (simp_all add: Load_Inr any_bad_int_def bad_int_upd atoi)
  have c: "cfg = loaded g" using g by blast
  note upd = loaded_def number_of_upd atoi base_config_def envOr_def envBool_def Let_def
  have "loaded (g(''SESSION_TTL_HOURS'' := itoa n)) = cfg\<lparr>SessionTTL := (int n * 3600000000000 + 2 ^ 63) mod 2 ^ 64 - 2 ^ 63\<rparr>"
    "loaded (g(''VALKEY_DIAL_TIMEOUT_MS'' := itoa n)) = cfg\<lparr>ValkeyDialTimeout := (int n * 1000000 + 2 ^ 63) mod 2 ^ 64 - 2 ^ 63\<rparr>"
    "loaded (g(''VALKEY_OP_TIMEOUT_MS'' := itoa n)) = cfg\<lparr>ValkeyOpTimeout := (int n * 1000000 + 2 ^ 63) mod 2 ^ 64 - 2 ^ 63\<rparr>"
    "loaded (g(''ARGON2_MEMORY_KIB'' := itoa n)) = cfg\<lparr>Argon2MemoryKiB := uint32 (int n)\<rparr>"
    "loaded (g(''ARGON2_TIME'' := itoa n)) = cfg\<lparr>Argon2Time := uint32 (int n)\<rparr>"
    "loaded (g(''ARGON2_PARALLELISM'' := itoa n)) = cfg\<lparr>Argon2Parallel := uint8 (int n)\<rparr>"
    unfolding c by (simp_all add: upd) (simp_all add: dur_mul_def int64_def Hour_def Millisecond_def)
  note fields = this
  have w32: "unat (uint32 (int n)) = n mod 2 ^ 32" and w8: "n \<le> 255 \<Longrightarrow> unat (uint8 (int n)) = n"
    by (simp_all add: uint32_def uint8_def unat_of_nat)
  have bad: "Load (g(''ARGON2_PARALLELISM'' := itoa n)) = Inl config_ErrInvalidInt" if "\<not> n \<le> 255"
    using that g assms(2) by (simp add: Load_errors any_bad_int_def bad_int_upd atoi)
  have par: "if n \<le> 255 then \<exists>q. Load (g(''ARGON2_PARALLELISM'' := itoa n)) = Inr (cfg\<lparr>Argon2Parallel := q\<rparr>) \<and> unat q = n
       else Load (g(''ARGON2_PARALLELISM'' := itoa n)) = Inl config_ErrInvalidInt"
  proof (cases "n \<le> 255")
    case True
    from loads(6) [OF True, unfolded fields(6)] w8 [OF True] have
      "\<exists>q. Load (g(''ARGON2_PARALLELISM'' := itoa n)) = Inr (cfg\<lparr>Argon2Parallel := q\<rparr>) \<and> unat q = n" by (intro exI conjI)
    with True show ?thesis by (simp only: if_True)
  next
    case False
    with bad [OF False] show ?thesis by (simp only: if_False)
  qed
  show ?thesis
    by (intro conjI par exI, (rule loads(1-5) [unfolded fields(1-5)] w32)+)
qed

theorem Load_wraps_witness:
  "(\<exists>cfg. Load ((env_of sample_env)(''SESSION_TTL_HOURS'' := itoa 2562048)) = Inr cfg \<and> SessionTTL cfg < 0)
   \<and> (\<exists>cfg. Load ((env_of sample_env)(''ARGON2_TIME'' := itoa 4294967296)) = Inr cfg \<and> Argon2Time cfg = 0)"
proof -
  obtain cfg where cfg: "Load (env_of sample_env) = Inr cfg" using load_sample_env unfolding loads_iff by blast
  have "(int 2562048 * 3600000000000 + 2 ^ 63) mod 2 ^ 64 - 2 ^ 63 < (0 :: int)" by simp
  with Load_wraps [OF cfg, of 2562048] have "\<exists>cfg. Load ((env_of sample_env)(''SESSION_TTL_HOURS'' := itoa 2562048)) = Inr cfg \<and> SessionTTL cfg < 0"
    by simp
  moreover from Load_wraps [OF cfg, of 4294967296] obtain t where
    t: "Load ((env_of sample_env)(''ARGON2_TIME'' := itoa 4294967296)) = Inr (cfg\<lparr>Argon2Time := t\<rparr>)" "unat t = 4294967296 mod 2 ^ 32"
    by auto
  have "t = 0" using t(2) by (simp add: unat_eq_0)
  with t(1) have "\<exists>cfg. Load ((env_of sample_env)(''ARGON2_TIME'' := itoa 4294967296)) = Inr cfg \<and> Argon2Time cfg = 0" by auto
  ultimately show ?thesis by blast
qed

end
