(* ===== verification/Tenant.thy ===== *)
theory Tenant
  imports Go_Encoding
begin

text \<open>
  \<open>internal/domain/tenant\<close>: the tenant identifier and its parsing. \<open>github.com/google/uuid\<close> is not
  part of the repository: \<open>uuid.Parse\<close> and \<open>UUID.String\<close> are the fields of a record \<open>uuid_lib\<close>
  that the definitions take as an argument, and \<open>uuid_laws\<close> is what the code relies on. A UUID is
  its 16 bytes as a 128-bit word. \<open>canonical_uuids\<close> is a concrete pair of functions that satisfies
  the laws.
\<close>

record uuid_lib =
  uuid_Parse :: "string \<Rightarrow> uuid option"
  uuid_String :: "uuid \<Rightarrow> string"

definition uuid_Nil :: uuid where
  "uuid_Nil = 0"

definition uuid_char :: "char \<Rightarrow> bool" where
  "uuid_char c = (c \<in> set hextable \<or> c = CHR ''-'')"

definition default_tenant_string :: string where
  "default_tenant_string = ''00000000-0000-0000-0000-000000000001''"

text \<open>Documented behaviour of the package: the canonical form is 36 characters of lower-case
  hexadecimal digits and dashes, parsing reads it back, and the canonical form of the number one
  denotes the number one.\<close>

definition uuid_laws :: "uuid_lib \<Rightarrow> bool" where
  "uuid_laws ul = ((\<forall>u. uuid_Parse ul (uuid_String ul u) = Some u)
    \<and> (\<forall>u. length (uuid_String ul u) = 36 \<and> list_all uuid_char (uuid_String ul u))
    \<and> uuid_Parse ul default_tenant_string = Some 1)"

subsection \<open>The value object\<close>

datatype tenant_ID = ID (tenant_UUID: uuid)

datatype tenant_error = tenant_ErrInvalidTenantID

definition tenant_NewID :: "uuid \<Rightarrow> tenant_ID" where
  "tenant_NewID u = ID u"

definition tenant_Parse :: "uuid_lib \<Rightarrow> string \<Rightarrow> tenant_error + tenant_ID" where
  "tenant_Parse ul s =
    (case uuid_Parse ul s of None \<Rightarrow> Inl tenant_ErrInvalidTenantID | Some u \<Rightarrow> Inr (ID u))"

text \<open>\<open>MustParse\<close> panics on a malformed string; \<open>None\<close> is the panic.\<close>

definition tenant_MustParse :: "uuid_lib \<Rightarrow> string \<Rightarrow> tenant_ID option" where
  "tenant_MustParse ul s = (case tenant_Parse ul s of Inl e \<Rightarrow> None | Inr t \<Rightarrow> Some t)"

text \<open>\<open>DefaultID\<close> is a package variable: were its initialiser to panic, the process would not start
  and no request would ever see the value, so nothing is said about that case.\<close>

definition tenant_DefaultID :: "uuid_lib \<Rightarrow> tenant_ID" where
  "tenant_DefaultID ul = the (tenant_MustParse ul default_tenant_string)"

definition tenant_String :: "uuid_lib \<Rightarrow> tenant_ID \<Rightarrow> string" where
  "tenant_String ul t = uuid_String ul (tenant_UUID t)"

definition tenant_IsZero :: "tenant_ID \<Rightarrow> bool" where
  "tenant_IsZero t = (tenant_UUID t = uuid_Nil)"

lemma uuid_lawsD:
  assumes "uuid_laws ul"
  shows "uuid_Parse ul (uuid_String ul u) = Some u" "length (uuid_String ul u) = 36"
    "list_all uuid_char (uuid_String ul u)" "uuid_Parse ul default_tenant_string = Some 1"
  using assms by (auto simp: uuid_laws_def)

lemma uuid_String_inject: "uuid_laws ul \<Longrightarrow> uuid_String ul u = uuid_String ul v \<longleftrightarrow> u = v"
  by (metis option.inject uuid_lawsD(1))

lemma tenant_DefaultID_eq: "uuid_laws ul \<Longrightarrow> tenant_DefaultID ul = ID 1"
  by (simp add: tenant_DefaultID_def tenant_MustParse_def tenant_Parse_def uuid_lawsD)

lemma tenant_roundtrip: "uuid_laws ul \<Longrightarrow> tenant_Parse ul (tenant_String ul t) = Inr t"
  by (simp add: tenant_Parse_def tenant_String_def uuid_lawsD)

subsection \<open>A concrete instance of the package\<close>

definition canonical_String :: "uuid \<Rightarrow> string" where
  "canonical_String u =
    (let h = hexn 32 (unat u) in
     take 8 h @ ''-'' @ take 4 (drop 8 h) @ ''-'' @ take 4 (drop 12 h) @ ''-''
       @ take 4 (drop 16 h) @ ''-'' @ drop 20 h)"

definition canonical_Parse :: "string \<Rightarrow> uuid option" where
  "canonical_Parse s =
    (if length s = 36 then map_option of_nat (unhex_acc 0 (filter (\<lambda>c. c \<noteq> CHR ''-'') s)) else None)"

definition canonical_uuids :: uuid_lib where
  "canonical_uuids = \<lparr>uuid_Parse = canonical_Parse, uuid_String = canonical_String\<rparr>"

lemma hextable_no_dash: "c \<in> set hextable \<Longrightarrow> c \<noteq> CHR ''-''"
  by (auto simp: hextable_def)

lemma filter_dash_hex: "set h \<subseteq> set hextable \<Longrightarrow> filter (\<lambda>c. c \<noteq> CHR ''-'') h = h"
  using hextable_no_dash by (auto simp: filter_id_conv)

lemma canonical_filter: "filter (\<lambda>c. c \<noteq> CHR ''-'') (canonical_String u) = hexn 32 (unat u)"
proof -
  let ?h = "hexn 32 (unat u)"
  have s: "set (take m (drop n ?h)) \<subseteq> set hextable" "set (drop n ?h) \<subseteq> set hextable"
    "set (take m ?h) \<subseteq> set hextable" for m n
    using hexn_alphabet [of 32 "unat u"] by (auto dest!: in_set_takeD in_set_dropD)
  have d: "take 8 ?h @ take 4 (drop 8 ?h) @ take 4 (drop 12 ?h) @ take 4 (drop 16 ?h) @ drop 20 ?h = ?h"
  proof -
    have t: "take 4 (drop n ?h) @ drop (n + 4) ?h = drop n ?h" for n
      by (metis add.commute append_take_drop_id drop_drop)
    from t [of 16] t [of 12] t [of 8] show ?thesis
      by (simp add: append_take_drop_id)
  qed
  show ?thesis
    by (simp add: canonical_String_def Let_def filter_dash_hex s d)
qed

lemma canonical_chars: "list_all uuid_char (canonical_String u)"
  using hexn_alphabet [of 32 "unat u"]
  by (auto simp: canonical_String_def Let_def list_all_iff uuid_char_def dest!: in_set_takeD in_set_dropD)

lemma canonical_roundtrip: "canonical_Parse (canonical_String u) = Some u"
proof -
  have "length (canonical_String u) = 36"
    by (simp add: canonical_String_def Let_def)
  moreover have "unat u mod 16 ^ 32 = unat u"
    using unsigned_less [where 'b = 128 and 'a = nat, of u] by simp
  ultimately show ?thesis
    by (simp add: canonical_Parse_def canonical_filter unhex_hexn)
qed

lemma canonical_default: "canonical_String 1 = default_tenant_string"
  by code_simp

lemma canonical_uuids_laws: "uuid_laws canonical_uuids"
proof -
  have "canonical_Parse default_tenant_string = Some 1"
    using canonical_roundtrip [of 1] by (simp add: canonical_default)
  moreover have "length (canonical_String u) = 36" for u
    by (simp add: canonical_String_def Let_def)
  ultimately show ?thesis
    by (simp add: uuid_laws_def canonical_uuids_def canonical_roundtrip canonical_chars)
qed

end
