(* ===== verification/Go_Regexp.thy ===== *)
theory Go_Regexp
  imports Prelude
begin

text \<open>
  The part of Go's \<open>regexp\<close> package the program uses: an anchored expression over byte classes,
  \<open>^...$\<close>, matched with \<open>MatchString\<close>. Every class of the program is ASCII, so a match on runes
  and a match on bytes agree. The matcher works by derivatives; \<open>regexp_MatchString_lang\<close> says it
  decides the language of the expression.
\<close>

datatype re =
    Void
  | Eps
  | Cls "(char \<times> char) list"
  | Cat re re
  | Alt re re
  | Star re

definition in_class :: "(char \<times> char) list \<Rightarrow> char \<Rightarrow> bool" where
  "in_class rs c = list_ex (\<lambda>(a, b). (of_char a :: nat) \<le> of_char c \<and> (of_char c :: nat) \<le> of_char b) rs"

definition Plus :: "re \<Rightarrow> re" where
  "Plus r = Cat r (Star r)"

definition AtLeast2 :: "re \<Rightarrow> re" where
  "AtLeast2 r = Cat r (Cat r (Star r))"

definition Lit :: "char \<Rightarrow> re" where
  "Lit c = Cls [(c, c)]"

fun nullable :: "re \<Rightarrow> bool" where
  "nullable Void = False"
| "nullable Eps = True"
| "nullable (Cls _) = False"
| "nullable (Cat r s) = (nullable r \<and> nullable s)"
| "nullable (Alt r s) = (nullable r \<or> nullable s)"
| "nullable (Star r) = True"

text \<open>\<open>cat\<close> and \<open>alt\<close> drop the parts that can no longer match, so derivatives stay small.\<close>

fun cat :: "re \<Rightarrow> re \<Rightarrow> re" where
  "cat Void s = Void"
| "cat Eps s = s"
| "cat r s = Cat r s"

fun alt :: "re \<Rightarrow> re \<Rightarrow> re" where
  "alt Void s = s"
| "alt r Void = r"
| "alt r s = Alt r s"

fun deriv :: "char \<Rightarrow> re \<Rightarrow> re" where
  "deriv c Void = Void"
| "deriv c Eps = Void"
| "deriv c (Cls rs) = (if in_class rs c then Eps else Void)"
| "deriv c (Cat r s) =
    (if nullable r then alt (cat (deriv c r) s) (deriv c s) else cat (deriv c r) s)"
| "deriv c (Alt r s) = alt (deriv c r) (deriv c s)"
| "deriv c (Star r) = cat (deriv c r) (Star r)"

definition regexp_MatchString :: "re \<Rightarrow> string \<Rightarrow> bool" where
  "regexp_MatchString r s = nullable (fold deriv s r)"

subsection \<open>The language of an expression\<close>

inductive matches :: "re \<Rightarrow> string \<Rightarrow> bool" where
  eps: "matches Eps []"
| cls: "in_class rs c \<Longrightarrow> matches (Cls rs) [c]"
| cat: "matches r a \<Longrightarrow> matches s b \<Longrightarrow> matches (Cat r s) (a @ b)"
| alt1: "matches r a \<Longrightarrow> matches (Alt r s) a"
| alt2: "matches s a \<Longrightarrow> matches (Alt r s) a"
| star0: "matches (Star r) []"
| star1: "matches r (x # a) \<Longrightarrow> matches (Star r) b \<Longrightarrow> matches (Star r) (x # a @ b)"

inductive_simps matches_Void [simp]: "matches Void s"
inductive_simps matches_Eps [simp]: "matches Eps s"
inductive_simps matches_Cls: "matches (Cls rs) s"
inductive_simps matches_Cat: "matches (Cat r s) x"
inductive_simps matches_Alt [simp]: "matches (Alt r s) x"
inductive_simps matches_Star_Cons: "matches (Star r) (x # xs)"

lemma matches_Star_Nil [simp]: "matches (Star r) []"
  by (rule matches.star0)

lemma nullable_matches: "nullable r = matches r []"
  by (induction r) (auto simp: matches_Cls matches_Cat)

lemma matches_cat [simp]: "matches (cat r s) x = matches (Cat r s) x"
  by (cases r) (auto simp: matches_Cat)

lemma matches_alt [simp]: "matches (alt r s) x = matches (Alt r s) x"
  by (cases r; cases s) auto

lemma deriv_Star_matches:
  assumes IH: "\<And>b. matches (deriv c r) b = matches r (c # b)"
  shows "matches (deriv c (Star r)) b = matches (Star r) (c # b)"
  by (auto simp: matches_Star_Cons matches_Cat IH)

lemma deriv_matches: "matches (deriv c r) b = matches r (c # b)"
proof (induction r arbitrary: b)
  case (Cat r s)
  show ?case
  proof (cases "nullable r")
    case True
    then show ?thesis
      by (auto simp: matches_Cat Cat.IH Cons_eq_append_conv nullable_matches)
  next
    case False
    then show ?thesis
      by (auto simp: matches_Cat Cat.IH Cons_eq_append_conv nullable_matches)
  qed
next
  case (Star r)
  from deriv_Star_matches [OF Star.IH] show ?case .
qed (auto simp: matches_Cls)

lemma fold_deriv_matches: "matches (fold deriv s r) b = matches r (s @ b)"
  by (induction s arbitrary: r) (simp_all add: deriv_matches)

lemma regexp_MatchString_lang: "regexp_MatchString r s = matches r s"
  by (simp add: regexp_MatchString_def nullable_matches fold_deriv_matches)

lemma matches_Star_Cls: "matches (Star (Cls rs)) s = list_all (in_class rs) s"
proof (induction s)
  case (Cons x s)
  then show ?case by (auto simp: matches_Star_Cons matches_Cls)
qed simp

lemma matches_Cat_Cls:
  "matches (Cat (Cls rs) r) s = (\<exists>c cs. s = c # cs \<and> in_class rs c \<and> matches r cs)"
proof
  assume "matches (Cat (Cls rs) r) s"
  then show "\<exists>c cs. s = c # cs \<and> in_class rs c \<and> matches r cs"
    by (auto simp: matches_Cat matches_Cls)
next
  assume "\<exists>c cs. s = c # cs \<and> in_class rs c \<and> matches r cs"
  then obtain c cs where "s = [c] @ cs" "in_class rs c" "matches r cs" by auto
  then show "matches (Cat (Cls rs) r) s" by (metis matches.cat matches.cls)
qed

lemma matches_Plus_Cls: "matches (Plus (Cls rs)) s = (s \<noteq> [] \<and> list_all (in_class rs) s)"
  by (cases s) (auto simp: Plus_def matches_Cat_Cls matches_Star_Cls)

lemma matches_AtLeast2_Cls:
  "matches (AtLeast2 (Cls rs)) s = (2 \<le> length s \<and> list_all (in_class rs) s)"
  by (cases s; cases "tl s") (auto simp: AtLeast2_def matches_Cat_Cls matches_Star_Cls)

lemma matches_Lit: "matches (Lit c) s = (s = [c])"
  by (auto simp: Lit_def matches_Cls in_class_def)

end
