(* ===== verification/User.thy ===== *)
theory User
  imports Tenant Go_Strings Go_Regexp
begin

text \<open>
  \<open>internal/domain/user\<close>: the e-mail value object with its normalisation and validation, the
  password policy, the password-hash value object, the user aggregate with its constructors, the
  opaque transaction token, and the package's sentinel errors. Lemmas: the shape of every accepted
  address, that normalisation is idempotent (so an address read back from the database is accepted
  unchanged), and the bounds of the password policy.
\<close>

datatype user_error =
    user_ErrUserNotFound
  | user_ErrEmailTaken
  | user_ErrInvalidEmail
  | user_ErrWeakPassword

subsection \<open>E-mail addresses\<close>

definition local_class :: "(char \<times> char) list" where
  "local_class = [(CHR ''a'', CHR ''z''), (CHR ''0'', CHR ''9''), (CHR ''.'', CHR ''.''),
     (CHR ''_'', CHR ''_''), (CHR ''%'', CHR ''%''), (CHR ''+'', CHR ''+''), (CHR ''-'', CHR ''-'')]"

definition domain_class :: "(char \<times> char) list" where
  "domain_class = [(CHR ''a'', CHR ''z''), (CHR ''0'', CHR ''9''), (CHR ''.'', CHR ''.''),
     (CHR ''-'', CHR ''-'')]"

definition tld_class :: "(char \<times> char) list" where
  "tld_class = [(CHR ''a'', CHR ''z'')]"

definition emailRegex :: re where
  "emailRegex =
    Cat (Plus (Cls local_class)) (Cat (Lit (CHR ''@'')) (Cat (Plus (Cls domain_class))
      (Cat (Lit (CHR ''.'')) (AtLeast2 (Cls tld_class)))))"

definition emailMaxLen :: nat where
  "emailMaxLen = 254"

datatype Email = Email (email_String: string)

definition NewEmail :: "string \<Rightarrow> user_error + Email" where
  "NewEmail s =
    (let v = strings_TrimSpace (strings_ToLower s) in
     if v = '''' \<or> length v > emailMaxLen then Inl user_ErrInvalidEmail
     else if \<not> regexp_MatchString emailRegex v then Inl user_ErrInvalidEmail
     else Inr (Email v))"

subsection \<open>Passwords\<close>

definition PasswordMinLen :: nat where "PasswordMinLen = 12"
definition PasswordMaxLen :: nat where "PasswordMaxLen = 256"

datatype PasswordHash = PasswordHash (ph_String: string)

definition NewPasswordHash :: "string \<Rightarrow> PasswordHash" where
  "NewPasswordHash encoded = PasswordHash encoded"

definition ph_IsZero :: "PasswordHash \<Rightarrow> bool" where
  "ph_IsZero p = (ph_String p = '''')"

definition ValidatePasswordPolicy :: "string \<Rightarrow> user_error option" where
  "ValidatePasswordPolicy raw =
    (if length raw < PasswordMinLen \<or> length raw > PasswordMaxLen then Some user_ErrWeakPassword else None)"

subsection \<open>The aggregate\<close>

text \<open>\<open>Status\<close> is a string type with four named values; a row of the database may hold any string.\<close>

type_synonym Status = string

definition StatusActive :: Status where "StatusActive = ''active''"
definition StatusPendingActivation :: Status where "StatusPendingActivation = ''pending_activation''"
definition StatusSuspended :: Status where "StatusSuspended = ''suspended''"
definition StatusRejected :: Status where "StatusRejected = ''rejected''"

record User =
  user_id :: uuid
  user_tenantID :: tenant_ID
  user_email :: Email
  user_passwordHash :: PasswordHash
  user_status :: Status
  user_createdAt :: time
  user_updatedAt :: time

definition user_New :: "uuid \<Rightarrow> tenant_ID \<Rightarrow> Email \<Rightarrow> PasswordHash \<Rightarrow> time \<Rightarrow> User" where
  "user_New uid t email hash now =
    \<lparr>user_id = uid, user_tenantID = t, user_email = email, user_passwordHash = hash,
     user_status = StatusActive, user_createdAt = now, user_updatedAt = now\<rparr>"

definition user_Hydrate ::
  "uuid \<Rightarrow> tenant_ID \<Rightarrow> Email \<Rightarrow> PasswordHash \<Rightarrow> Status \<Rightarrow> time \<Rightarrow> time \<Rightarrow> User" where
  "user_Hydrate uid t email hash status createdAt updatedAt =
    \<lparr>user_id = uid, user_tenantID = t, user_email = email, user_passwordHash = hash,
     user_status = status, user_createdAt = createdAt, user_updatedAt = updatedAt\<rparr>"

text \<open>The transaction token wraps any value (\<open>inner any\<close>). The adapters of the program put into it
  a pgx transaction, of which the token carries the number, or the empty struct of the test kit.\<close>

datatype tx_inner = TxNil | TxPgx nat | TxStruct

datatype Tx = Tx (InnerTx: tx_inner)

definition NewTx :: "tx_inner \<Rightarrow> Tx" where
  "NewTx i = Tx i"

subsection \<open>What an accepted address looks like\<close>

lemma matches_emailRegex:
  "regexp_MatchString emailRegex v \<longleftrightarrow>
    (\<exists>l d t. v = l @ CHR ''@'' # d @ CHR ''.'' # t \<and> l \<noteq> [] \<and> d \<noteq> [] \<and> 2 \<le> length t
      \<and> list_all (in_class local_class) l \<and> list_all (in_class domain_class) d
      \<and> list_all (in_class tld_class) t)"
proof
  assume "regexp_MatchString emailRegex v"
  then show "\<exists>l d t. v = l @ CHR ''@'' # d @ CHR ''.'' # t \<and> l \<noteq> [] \<and> d \<noteq> [] \<and> 2 \<le> length t
      \<and> list_all (in_class local_class) l \<and> list_all (in_class domain_class) d
      \<and> list_all (in_class tld_class) t"
    unfolding regexp_MatchString_lang emailRegex_def matches_Cat matches_Lit
      matches_Plus_Cls matches_AtLeast2_Cls
    by (metis append.assoc append_Cons append_Nil)
next
  assume "\<exists>l d t. v = l @ CHR ''@'' # d @ CHR ''.'' # t \<and> l \<noteq> [] \<and> d \<noteq> [] \<and> 2 \<le> length t
      \<and> list_all (in_class local_class) l \<and> list_all (in_class domain_class) d
      \<and> list_all (in_class tld_class) t"
  then obtain l d t where v: "v = l @ [CHR ''@''] @ d @ [CHR ''.''] @ t"
    and "l \<noteq> []" "d \<noteq> []" "2 \<le> length t" "list_all (in_class local_class) l"
      "list_all (in_class domain_class) d" "list_all (in_class tld_class) t"
    by auto
  then show "regexp_MatchString emailRegex v"
    unfolding regexp_MatchString_lang emailRegex_def v
    by (intro matches.cat) (simp_all add: matches_Plus_Cls matches_Lit matches_AtLeast2_Cls)
qed

definition email_char :: "char \<Rightarrow> bool" where
  "email_char c = (in_class local_class c \<or> c = CHR ''@'')"

lemma email_char_byte:
  assumes "email_char c"
  shows "byte c < 128" "\<not> (65 \<le> byte c \<and> byte c \<le> 90 \<and> c \<noteq> CHR ''@'')" "\<not> unicode_IsSpace (byte c)"
    "33 \<le> byte c"
  using assms by (auto simp: email_char_def in_class_def local_class_def unicode_IsSpace_def)

lemma email_char_no_upper: "email_char c \<Longrightarrow> \<not> (65 \<le> byte c \<and> byte c \<le> 90)"
  by (auto simp: email_char_def in_class_def local_class_def)

lemma domain_local: "in_class domain_class c \<Longrightarrow> in_class local_class c"
  by (auto simp: in_class_def local_class_def domain_class_def)

lemma tld_local: "in_class tld_class c \<Longrightarrow> in_class local_class c"
  by (auto simp: in_class_def local_class_def tld_class_def)

lemma dot_local: "in_class local_class (CHR ''.'')"
  by (simp add: in_class_def local_class_def)

lemma email_chars:
  assumes "regexp_MatchString emailRegex v"
  shows "list_all email_char v" "v \<noteq> []"
proof -
  from assms obtain l d t where "v = l @ CHR ''@'' # d @ CHR ''.'' # t"
    and "list_all (in_class local_class) l" "list_all (in_class domain_class) d"
      "list_all (in_class tld_class) t"
    unfolding matches_emailRegex by blast
  then show "list_all email_char v" "v \<noteq> []"
    using domain_local tld_local dot_local by (auto simp: list_all_iff email_char_def)
qed

lemma NewEmail_Inr:
  "NewEmail s = Inr e \<longleftrightarrow>
    (let v = strings_TrimSpace (strings_ToLower s) in
      e = Email v \<and> length v \<le> 254 \<and> regexp_MatchString emailRegex v)"
  using email_chars(2) by (auto simp: NewEmail_def Let_def emailMaxLen_def)

text \<open>The normal form of an address is a fixed point of normalisation.\<close>

lemma NewEmail_fixpoint:
  assumes "regexp_MatchString emailRegex v" "length v \<le> 254"
  shows "NewEmail v = Inr (Email v)"
proof -
  note ec = email_chars [OF assms(1)]
  have a: "ascii v" and u: "list_all (\<lambda>c. \<not> (65 \<le> byte c \<and> byte c \<le> 90)) v"
    using ec(1) email_char_byte(1) email_char_no_upper by (auto simp: ascii_def list_all_iff)
  from ec have "email_char (hd v)" "email_char (last v)"
    by (auto simp: list_all_iff)
  then have "strings_TrimSpace v = v"
    using a ec(2) email_char_byte(3) by (intro strings_TrimSpace_id) auto
  with assms show ?thesis
    by (simp add: NewEmail_Inr strings_ToLower_id [OF a u])
qed

lemma email_class_no_at: "in_class local_class c \<Longrightarrow> c \<noteq> CHR ''@''"
  by (auto simp: in_class_def local_class_def)

text \<open>C26: An address that \<open>NewEmail\<close> accepts is in normal form: at most 254 bytes, a non-empty local part, one \<open>@\<close>, a
  domain with a top level of two or more lower-case letters, and no upper-case letter or blank; and the normal form
  is accepted again unchanged, so a stored address survives \<open>Hydrate\<close> and two spellings of it denote one user.\<close>

theorem email_normal_form:
  assumes "NewEmail s = Inr e"
  shows "NewEmail (email_String e) = Inr e \<and> length (email_String e) \<le> 254
    \<and> (\<exists>l d t. email_String e = l @ ''@'' @ d @ ''.'' @ t \<and> l \<noteq> [] \<and> d \<noteq> [] \<and> 2 \<le> length t
        \<and> list_all (in_class local_class) l \<and> list_all (in_class domain_class) d \<and> list_all (in_class tld_class) t)
    \<and> length (filter (\<lambda>c. c = CHR ''@'') (email_String e)) = 1
    \<and> (\<forall>c \<in> set (email_String e). 33 \<le> byte c \<and> byte c < 128 \<and> \<not> (65 \<le> byte c \<and> byte c \<le> 90))"
proof -
  from assms obtain v where e: "e = Email v" and v: "length v \<le> 254" "regexp_MatchString emailRegex v"
    by (auto simp: NewEmail_Inr Let_def)
  from v(2) obtain l d t where s: "v = l @ ''@'' @ d @ ''.'' @ t" "l \<noteq> []" "d \<noteq> []" "2 \<le> length t"
      "list_all (in_class local_class) l" "list_all (in_class domain_class) d" "list_all (in_class tld_class) t"
    by (auto simp: matches_emailRegex)
  have "filter (\<lambda>c. c = CHR ''@'') xs = []" if "list_all (in_class local_class) xs" for xs
    using that email_class_no_at by (auto simp: filter_empty_conv list_all_iff)
  moreover have "list_all (in_class local_class) (d @ ''.'' @ t)"
    using s(6,7) domain_local tld_local dot_local by (auto simp: list_all_iff)
  ultimately have "length (filter (\<lambda>c. c = CHR ''@'') v) = 1"
    using s(5) unfolding s(1) by (simp del: append_Cons append_assoc add: append_assoc [symmetric])
  moreover have "\<forall>c \<in> set v. 33 \<le> byte c \<and> byte c < 128 \<and> \<not> (65 \<le> byte c \<and> byte c \<le> 90)"
    using email_chars(1) [OF v(2)] email_char_byte(1,4) email_char_no_upper by (simp add: list_all_iff)
  ultimately show ?thesis
    using e v s NewEmail_fixpoint by auto
qed

theorem email_normal_form_witness:
  "NewEmail ''  User@Example.COM '' = Inr (Email ''user@example.com'')
   \<and> NewEmail ''user@example.com'' = Inr (Email ''user@example.com'')"
proof -
  have "NewEmail ''  User@Example.COM '' = Inr (Email ''user@example.com'')"
    by code_simp
  then show ?thesis
    using email_normal_form by fastforce
qed

end
