(* ===== verification/Sha256.thy ===== *)
theory Sha256
  imports Go_Encoding
begin

text \<open>
  \<open>crypto/sha256.Sum256\<close>, the hash the program keys sessions by: FIPS 180-4 on 32-bit words. The
  lemmas the other theories use: the digest has 32 bytes.
\<close>

unbundle bit_operations_syntax

type_synonym w32 = "32 word"

text \<open>The 64 round constants, in decimal.\<close>

definition sha_K :: "w32 list" where
  "sha_K = [1116352408, 1899447441, 3049323471, 3921009573, 961987163, 1508970993, 2453635748, 2870763221,
    3624381080, 310598401, 607225278, 1426881987, 1925078388, 2162078206, 2614888103, 3248222580,
    3835390401, 4022224774, 264347078, 604807628, 770255983, 1249150122, 1555081692, 1996064986,
    2554220882, 2821834349, 2952996808, 3210313671, 3336571891, 3584528711, 113926993, 338241895,
    666307205, 773529912, 1294757372, 1396182291, 1695183700, 1986661051, 2177026350, 2456956037,
    2730485921, 2820302411, 3259730800, 3345764771, 3516065817, 3600352804, 4094571909, 275423344,
    430227734, 506948616, 659060556, 883997877, 958139571, 1322822218, 1537002063, 1747873779,
    1955562222, 2024104815, 2227730452, 2361852424, 2428436474, 2756734187, 3204031479, 3329325298]"

record sha_state =
  sha_a :: w32
  sha_b :: w32
  sha_c :: w32
  sha_d :: w32
  sha_e :: w32
  sha_f :: w32
  sha_g :: w32
  sha_h :: w32

definition sha_init :: sha_state where
  "sha_init = \<lparr>sha_a = 0x6a09e667, sha_b = 0xbb67ae85, sha_c = 0x3c6ef372, sha_d = 0xa54ff53a,
     sha_e = 0x510e527f, sha_f = 0x9b05688c, sha_g = 0x1f83d9ab, sha_h = 0x5be0cd19\<rparr>"

definition rotr :: "nat \<Rightarrow> w32 \<Rightarrow> w32" where
  "rotr n x = drop_bit n x OR push_bit (32 - n) x"

text \<open>Message schedule, newest word first.\<close>

fun sha_schedule :: "nat \<Rightarrow> w32 list \<Rightarrow> w32 list" where
  "sha_schedule 0 ws = ws"
| "sha_schedule (Suc n) ws =
    (let x = ws ! 14; y = ws ! 1;
         s0 = rotr 7 x XOR rotr 18 x XOR drop_bit 3 x;
         s1 = rotr 17 y XOR rotr 19 y XOR drop_bit 10 y
     in sha_schedule n ((ws ! 15 + s0 + ws ! 6 + s1) # ws))"

definition sha_round :: "w32 \<times> w32 \<Rightarrow> sha_state \<Rightarrow> sha_state" where
  "sha_round kw s =
    (let e = sha_e s; a = sha_a s;
         S1 = rotr 6 e XOR rotr 11 e XOR rotr 25 e;
         ch = (e AND sha_f s) XOR (NOT e AND sha_g s);
         t1 = sha_h s + S1 + ch + fst kw + snd kw;
         S0 = rotr 2 a XOR rotr 13 a XOR rotr 22 a;
         maj = (a AND sha_b s) XOR (a AND sha_c s) XOR (sha_b s AND sha_c s)
     in \<lparr>sha_a = t1 + (S0 + maj), sha_b = a, sha_c = sha_b s, sha_d = sha_c s,
         sha_e = sha_d s + t1, sha_f = e, sha_g = sha_f s, sha_h = sha_g s\<rparr>)"

definition sha_block :: "sha_state \<Rightarrow> w32 list \<Rightarrow> sha_state" where
  "sha_block s ws =
    (let r = fold sha_round (zip sha_K (rev (sha_schedule 48 (rev ws)))) s
     in \<lparr>sha_a = sha_a s + sha_a r, sha_b = sha_b s + sha_b r, sha_c = sha_c s + sha_c r,
         sha_d = sha_d s + sha_d r, sha_e = sha_e s + sha_e r, sha_f = sha_f s + sha_f r,
         sha_g = sha_g s + sha_g r, sha_h = sha_h s + sha_h r\<rparr>)"

fun be_words :: "string \<Rightarrow> w32 list" where
  "be_words (a # b # c # d # cs) =
    of_nat (byte a * 16777216 + byte b * 65536 + byte c * 256 + byte d) # be_words cs"
| "be_words _ = []"

fun be_bytes :: "nat \<Rightarrow> nat \<Rightarrow> string" where
  "be_bytes 0 n = []"
| "be_bytes (Suc k) n = be_bytes k (n div 256) @ [char_of (n mod 256)]"

definition sha_pad :: "string \<Rightarrow> string" where
  "sha_pad s =
    (let l = length s; z = (119 - l mod 64) mod 64
     in s @ [char_of (128::nat)] @ replicate z (char_of (0::nat)) @ be_bytes 8 (8 * l mod 2 ^ 64))"

function sha_blocks :: "sha_state \<Rightarrow> w32 list \<Rightarrow> sha_state" where
  "sha_blocks s ws = (if length ws < 16 then s else sha_blocks (sha_block s (take 16 ws)) (drop 16 ws))"
  by pat_completeness auto
termination
  by (relation "measure (length \<circ> snd)") auto

declare sha_blocks.simps [simp del]

definition sha_digest :: "sha_state \<Rightarrow> string" where
  "sha_digest s = concat (map (\<lambda>f. be_bytes 4 (unat (f s)))
     [sha_a, sha_b, sha_c, sha_d, sha_e, sha_f, sha_g, sha_h])"

definition sha256_Sum256 :: "string \<Rightarrow> string" where
  "sha256_Sum256 s = sha_digest (sha_blocks sha_init (be_words (sha_pad s)))"

lemma length_be_bytes [simp]: "length (be_bytes k n) = k"
  by (induction k arbitrary: n) auto

lemma length_sha256 [simp]: "length (sha256_Sum256 s) = 32"
  by (simp add: sha256_Sum256_def sha_digest_def)

end
