(* ===== verification/Session.thy ===== *)
theory Session
  imports Tenant Sha256
begin

text \<open>
  \<open>internal/domain/session\<close>: the opaque token with its length check and its SHA-256 hash, the session
  aggregate with \<open>IsActive\<close>, the payload the cache holds, and the package's sentinel errors. A
  session is usable exactly while it is not revoked and its expiry lies in the future.
\<close>

datatype session_error =
    session_ErrSessionNotFound
  | session_ErrSessionExpired
  | session_ErrSessionRevoked
  | session_ErrInvalidToken
  | session_ErrCacheMiss

subsection \<open>Tokens\<close>

datatype Token = Token (token_String: string)

definition session_NewToken :: "string \<Rightarrow> session_error + Token" where
  "session_NewToken s =
    (if length s < 32 \<or> length s > 128 then Inl session_ErrInvalidToken else Inr (Token s))"

definition token_Hash :: "Token \<Rightarrow> string" where
  "token_Hash t = sha256_Sum256 (token_String t)"

definition HashOf :: "string \<Rightarrow> string" where
  "HashOf raw = sha256_Sum256 raw"

lemma HashOf_token: "HashOf (token_String t) = token_Hash t"
  by (simp add: HashOf_def token_Hash_def)

lemma length_token_Hash [simp]: "length (token_Hash t) = 32"
  by (simp add: token_Hash_def)

lemma session_NewToken_Inr:
  "session_NewToken s = Inr t \<longleftrightarrow> t = Token s \<and> 32 \<le> length s \<and> length s \<le> 128"
  by (auto simp: session_NewToken_def)

subsection \<open>The aggregate\<close>

record Session =
  session_id :: uuid
  session_tenantID :: tenant_ID
  session_userID :: uuid
  session_tokenHash :: string
  session_createdAt :: time
  session_expiresAt :: time
  session_revokedAt :: "time option"

definition session_New :: "uuid \<Rightarrow> tenant_ID \<Rightarrow> uuid \<Rightarrow> string \<Rightarrow> time \<Rightarrow> time \<Rightarrow> Session" where
  "session_New sid t userID tokenHash now expiresAt =
    \<lparr>session_id = sid, session_tenantID = t, session_userID = userID, session_tokenHash = tokenHash,
     session_createdAt = now, session_expiresAt = expiresAt, session_revokedAt = None\<rparr>"

definition session_Hydrate ::
  "uuid \<Rightarrow> tenant_ID \<Rightarrow> uuid \<Rightarrow> string \<Rightarrow> time \<Rightarrow> time \<Rightarrow> time option \<Rightarrow> Session" where
  "session_Hydrate sid t userID tokenHash createdAt expiresAt revokedAt =
    \<lparr>session_id = sid, session_tenantID = t, session_userID = userID, session_tokenHash = tokenHash,
     session_createdAt = createdAt, session_expiresAt = expiresAt, session_revokedAt = revokedAt\<rparr>"

definition IsActive :: "Session \<Rightarrow> time \<Rightarrow> bool" where
  "IsActive s now = (if session_revokedAt s \<noteq> None then False else now < session_expiresAt s)"

lemma IsActive_iff: "IsActive s now \<longleftrightarrow> session_revokedAt s = None \<and> now < session_expiresAt s"
  by (simp add: IsActive_def)

subsection \<open>The cached payload\<close>

record CachedSession =
  cs_SessionID :: uuid
  cs_UserID :: uuid
  cs_TenantID :: tenant_ID
  cs_ExpiresAt :: time

definition cached_of :: "Session \<Rightarrow> CachedSession" where
  "cached_of s = \<lparr>cs_SessionID = session_id s, cs_UserID = session_userID s,
     cs_TenantID = session_tenantID s, cs_ExpiresAt = session_expiresAt s\<rparr>"

end
