(* ===== verification/Outbox.thy ===== *)
theory Outbox
  imports Tenant
begin

text \<open>\<open>internal/domain/outbox\<close>: the event row of the transactional outbox and its three topics.\<close>

definition TopicUserCreated :: string where
  "TopicUserCreated = ''identity.user.created.v1''"

definition TopicSessionCreated :: string where
  "TopicSessionCreated = ''identity.session.created.v1''"

definition TopicSessionRevoked :: string where
  "TopicSessionRevoked = ''identity.session.revoked.v1''"

record Event =
  event_id :: uuid
  event_tenantID :: tenant_ID
  event_aggregateType :: string
  event_aggregateID :: uuid
  event_eventType :: string
  event_payload :: string
  event_createdAt :: time

definition outbox_New ::
  "uuid \<Rightarrow> tenant_ID \<Rightarrow> string \<Rightarrow> uuid \<Rightarrow> string \<Rightarrow> string \<Rightarrow> time \<Rightarrow> Event" where
  "outbox_New eid t aggregateType aggregateID eventType payload now =
    \<lparr>event_id = eid, event_tenantID = t, event_aggregateType = aggregateType,
     event_aggregateID = aggregateID, event_eventType = eventType, event_payload = payload,
     event_createdAt = now\<rparr>"

end
