(* ===== verification/Go_Time.thy ===== *)
theory Go_Time
  imports Go_Num
begin

text \<open>
  Go's \<open>time\<close> package as the program uses it: the calendar (\<open>absDate\<close>), \<open>Format\<close> and \<open>Parse\<close>
  with the layout \<open>time.RFC3339Nano\<close> in UTC, and \<open>Time.MarshalJSON\<close>. A \<open>Time\<close> is a number of
  nanoseconds since the Unix epoch. The main lemma is the round trip: a formatted instant of the
  years 0 to 9999 parses back to itself.
\<close>

subsection \<open>The calendar\<close>

definition leap :: "int \<Rightarrow> bool" where
  "leap y = (y mod 4 = 0 \<and> (y mod 100 \<noteq> 0 \<or> y mod 400 = 0))"

text \<open>Days from 1 January of year 1 to 1 January of year \<open>y\<close>.\<close>

definition days_before_year :: "int \<Rightarrow> int" where
  "days_before_year y = 365 * (y - 1) + (y - 1) div 4 - (y - 1) div 100 + (y - 1) div 400"

text \<open>\<open>absDate\<close>: cut off 400-year, 100-year, 4-year and 1-year cycles.\<close>

definition year_of_days :: "int \<Rightarrow> int" where
  "year_of_days d =
    (let n400 = d div 146097; d = d - 146097 * n400;
         n100 = d div 36524; n100 = n100 - n100 div 4; d = d - 36524 * n100;
         n4 = d div 1461; d = d - 1461 * n4;
         n1 = d div 365; n1 = n1 - n1 div 4
     in 400 * n400 + 100 * n100 + 4 * n4 + n1 + 1)"

definition month_lengths :: "int \<Rightarrow> int list" where
  "month_lengths y = [31, if leap y then 29 else 28, 31, 30, 31, 30, 31, 31, 30, 31, 30, 31]"

text \<open>Month (from 1) and day of month (from 1) of a day of the year (from 0).\<close>

fun month_day :: "nat \<Rightarrow> int list \<Rightarrow> int \<Rightarrow> nat \<times> int" where
  "month_day m [] d = (m, d + 1)"
| "month_day m (l # ls) d = (if d < l then (m, d + 1) else month_day (Suc m) ls (d - l))"

definition unix_day_zero :: int where
  "unix_day_zero = 719162"

record civil =
  c_year :: int
  c_month :: nat
  c_day :: nat
  c_hour :: nat
  c_min :: nat
  c_sec :: nat
  c_nsec :: nat

definition civil_of :: "time \<Rightarrow> civil" where
  "civil_of t =
    (let secs = t div 1000000000; days = secs div 86400 + unix_day_zero; sod = secs mod 86400;
         y = year_of_days days; md = month_day 1 (month_lengths y) (days - days_before_year y)
     in \<lparr>c_year = y, c_month = fst md, c_day = nat (snd md), c_hour = nat (sod div 3600),
         c_min = nat (sod mod 3600 div 60), c_sec = nat (sod mod 60), c_nsec = nat (t mod 1000000000)\<rparr>)"

text \<open>\<open>time.Date\<close> in UTC for fields in range.\<close>

definition time_of :: "civil \<Rightarrow> time" where
  "time_of c =
    (let days = days_before_year (c_year c) + sum_list (take (c_month c - 1) (month_lengths (c_year c)))
                + int (c_day c) - 1 - unix_day_zero
     in ((days * 86400 + int (c_hour c) * 3600 + int (c_min c) * 60 + int (c_sec c)) * 1000000000)
        + int (c_nsec c))"

definition daysIn :: "nat \<Rightarrow> int \<Rightarrow> int" where
  "daysIn m y = month_lengths y ! (m - 1)"

subsection \<open>Format\<close>

definition year_string :: "int \<Rightarrow> string" where
  "year_string y =
    (let pad = (\<lambda>n. if n < 10000 then padn 4 n else itoa n)
     in if y < 0 then CHR ''-'' # pad (nat (- y)) else pad (nat y))"

definition trim_zeros :: "string \<Rightarrow> string" where
  "trim_zeros s = rev (dropWhile (\<lambda>c. c = CHR ''0'') (rev s))"

definition frac_string :: "nat \<Rightarrow> string" where
  "frac_string ns = (if ns = 0 then [] else CHR ''.'' # trim_zeros (padn 9 ns))"

definition format_RFC3339Nano :: "time \<Rightarrow> string" where
  "format_RFC3339Nano t =
    (let c = civil_of t in
     year_string (c_year c) @ ''-'' @ padn 2 (c_month c) @ ''-'' @ padn 2 (c_day c) @ ''T''
       @ padn 2 (c_hour c) @ '':'' @ padn 2 (c_min c) @ '':'' @ padn 2 (c_sec c)
       @ frac_string (c_nsec c) @ ''Z'')"

text \<open>\<open>Time.MarshalJSON\<close> refuses a year outside four digits.\<close>

definition time_MarshalJSON :: "time \<Rightarrow> string option" where
  "time_MarshalJSON t =
    (if 0 \<le> c_year (civil_of t) \<and> c_year (civil_of t) \<le> 9999
     then Some (CHR 0x22 # format_RFC3339Nano t @ [CHR 0x22]) else None)"

subsection \<open>Parse\<close>

definition getdigits :: "nat \<Rightarrow> string \<Rightarrow> (nat \<times> string) option" where
  "getdigits k s =
    (if k \<le> length s \<and> list_all digit (take k s) then Some (num_acc 0 (take k s), drop k s) else None)"

definition getnum :: "string \<Rightarrow> (nat \<times> string) option" where
  "getnum s = (case getdigits 2 s of Some r \<Rightarrow> Some r | None \<Rightarrow> getdigits 1 s)"

definition skip :: "char \<Rightarrow> string \<Rightarrow> string option" where
  "skip c s = (case s of x # xs \<Rightarrow> if x = c then Some xs else None | [] \<Rightarrow> None)"

definition in_range_nat :: "nat \<Rightarrow> nat \<Rightarrow> (nat \<times> string) option \<Rightarrow> (nat \<times> string) option" where
  "in_range_nat lo hi r = (case r of Some (n, s) \<Rightarrow> if lo \<le> n \<and> n \<le> hi then r else None | None \<Rightarrow> None)"

text \<open>Fraction of a second: at most nine digits count.\<close>

definition parse_frac :: "string \<Rightarrow> nat \<times> string" where
  "parse_frac s =
    (case s of c # d # _ \<Rightarrow>
       if (c = CHR ''.'' \<or> c = CHR '','') \<and> digit d
       then (let ds = takeWhile digit (tl s); k = take 9 ds
             in (num_acc 0 k * 10 ^ (9 - length k), dropWhile digit (tl s)))
       else (0, s)
     | _ \<Rightarrow> (0, s))"

text \<open>\<open>Z\<close> or a signed offset; the result is the offset in seconds.\<close>

definition parse_zone :: "string \<Rightarrow> (int \<times> string) option" where
  "parse_zone s =
    (case s of
       c # cs \<Rightarrow>
         if c = CHR ''Z'' then Some (0, cs)
         else if length s < 6 \<or> s ! 3 \<noteq> CHR '':'' then None
         else (case (getdigits 2 (take 2 cs), getdigits 2 (take 2 (drop 4 s))) of
                 (Some (hr, _), Some (mm, _)) \<Rightarrow>
                   if hr > 24 \<or> mm > 60 then None
                   else if c = CHR ''+'' then Some (int (hr * 60 + mm) * 60, drop 6 s)
                   else if c = CHR ''-'' then Some (- (int (hr * 60 + mm) * 60), drop 6 s)
                   else None
               | _ \<Rightarrow> None)
     | [] \<Rightarrow> None)"

definition obind :: "'a option \<Rightarrow> ('a \<Rightarrow> 'b option) \<Rightarrow> 'b option" where
  "obind r f = (case r of None \<Rightarrow> None | Some a \<Rightarrow> f a)"

definition parse_RFC3339Nano :: "string \<Rightarrow> time option" where
  "parse_RFC3339Nano s =
    obind (getdigits 4 s) (\<lambda>(y, s). obind (skip (CHR ''-'') s) (\<lambda>s.
    obind (in_range_nat 1 12 (getdigits 2 s)) (\<lambda>(mo, s). obind (skip (CHR ''-'') s) (\<lambda>s.
    obind (getdigits 2 s) (\<lambda>(d, s). obind (skip (CHR ''T'') s) (\<lambda>s.
    obind (in_range_nat 0 23 (getnum s)) (\<lambda>(h, s). obind (skip (CHR '':'') s) (\<lambda>s.
    obind (in_range_nat 0 59 (getdigits 2 s)) (\<lambda>(mi, s). obind (skip (CHR '':'') s) (\<lambda>s.
    obind (in_range_nat 0 59 (getdigits 2 s)) (\<lambda>(sc, s).
    (case parse_frac s of (ns, s) \<Rightarrow>
    obind (parse_zone s) (\<lambda>(off, s).
      if s \<noteq> [] \<or> d < 1 \<or> daysIn mo (int y) < int d then None
      else Some (time_of \<lparr>c_year = int y, c_month = mo, c_day = d, c_hour = h, c_min = mi, c_sec = sc,
                          c_nsec = ns\<rparr> - off * 1000000000))))))))))))))"

subsection \<open>The calendar is inverted by \<open>time_of\<close>\<close>

lemma div_bounds: "0 < (m::int) \<Longrightarrow> m * (d div m) \<le> d \<and> d < m * (d div m) + m"
  using pos_mod_bound [of m d] pos_mod_sign [of m d] by (simp add: minus_mult_div_eq_mod [symmetric])

lemma div_unique_bounds: "0 < (m::int) \<Longrightarrow> m * q \<le> d \<Longrightarrow> d < m * q + m \<Longrightarrow> d div m = q"
  by (rule int_div_pos_eq [of d m q "d - m * q"]) auto

text \<open>One step of the cycle arithmetic: \<open>k\<close> periods of \<open>m\<close> days, the last one a day longer.\<close>

lemma period_step:
  fixes d m q n :: int
  assumes d: "0 \<le> d" "d \<le> 4 * m" and m: "4 < m" and q: "q = d div m" and n: "n = q - q div 4"
  shows "0 \<le> n" "n \<le> 3" "0 \<le> d - m * n" "d - m * n \<le> m" "d - m * n = m \<Longrightarrow> n = 3 \<and> d = 4 * m"
proof -
  have b: "m * q \<le> d" "d < m * q + m" using div_bounds [of m d] m q by auto
  have q0: "0 \<le> q" using d m q by (simp add: pos_imp_zdiv_nonneg_iff)
  have "m * q \<le> m * 4" using b(1) d(2) by simp
  then have q4: "q \<le> 4" using m by simp
  consider "q = 0" | "q = 1" | "q = 2" | "q = 3" | "q = 4" using q0 q4 by linarith
  then have "0 \<le> n \<and> n \<le> 3 \<and> 0 \<le> d - m * n \<and> d - m * n \<le> m \<and> (d - m * n = m \<longrightarrow> n = 3 \<and> d = 4 * m)"
    by cases (use b d m n in auto)
  then show "0 \<le> n" "n \<le> 3" "0 \<le> d - m * n" "d - m * n \<le> m" "d - m * n = m \<Longrightarrow> n = 3 \<and> d = 4 * m"
    by auto
qed

lemma cycle_bounds:
  fixes d n100 d1 n4 d2 n1 d3 :: int
  assumes d: "0 \<le> d" "d < 146097"
    and n100: "n100 = d div 36524 - d div 36524 div 4" and d1: "d1 = d - 36524 * n100"
    and n4: "n4 = d1 div 1461" and d2: "d2 = d1 - 1461 * n4"
    and n1: "n1 = d2 div 365 - d2 div 365 div 4" and d3: "d3 = d2 - 365 * n1"
  shows "0 \<le> n100" "n100 \<le> 3" "0 \<le> n4" "n4 \<le> 24" "0 \<le> n1" "n1 \<le> 3" "0 \<le> d3" "d3 \<le> 365"
    "d3 = 365 \<Longrightarrow> n1 = 3 \<and> (n4 = 24 \<longrightarrow> n100 = 3)"
proof -
  have d4: "d \<le> 4 * 36524" using d by simp
  note a = period_step [OF d(1) d4 _ refl n100, folded d1, simplified]
  have b4: "1461 * n4 \<le> d1" "d1 < 1461 * n4 + 1461"
    using div_bounds [of 1461 d1] unfolding n4 by auto
  then have b: "0 \<le> n4" "n4 \<le> 24" "0 \<le> d2" "d2 \<le> 4 * 365"
    using a(3,4) unfolding d2 by linarith+
  note c = period_step [OF b(3,4) _ refl n1, folded d3, simplified]
  show "0 \<le> n100" "n100 \<le> 3" "0 \<le> n4" "n4 \<le> 24" "0 \<le> n1" "n1 \<le> 3" "0 \<le> d3" "d3 \<le> 365"
    using a(1,2) b(1,2) c(1-4) by simp_all
  show "n1 = 3 \<and> (n4 = 24 \<longrightarrow> n100 = 3)" if "d3 = 365"
    using c(5) [OF that] a(5) d2 by auto
qed

lemma year_value:
  fixes n400 n100 n4 n1 y :: int
  assumes b: "0 \<le> n100" "n100 \<le> 3" "0 \<le> n4" "n4 \<le> 24" "0 \<le> n1" "n1 \<le> 3"
  assumes y: "y = 400 * n400 + 100 * n100 + 4 * n4 + n1 + 1"
  shows "days_before_year y = 146097 * n400 + 36524 * n100 + 1461 * n4 + 365 * n1"
    "n1 = 3 \<Longrightarrow> (n4 = 24 \<Longrightarrow> n100 = 3) \<Longrightarrow> leap y"
proof -
  have q: "(y - 1) div 4 = 100 * n400 + 25 * n100 + n4" "(y - 1) div 100 = 4 * n400 + n100"
    "(y - 1) div 400 = n400"
    using b y by (intro div_unique_bounds; simp)+
  show "days_before_year y = 146097 * n400 + 36524 * n100 + 1461 * n4 + 365 * n1"
    unfolding days_before_year_def q by (simp add: y)
  assume n1: "n1 = 3" and n4: "n4 = 24 \<Longrightarrow> n100 = 3"
  have m4: "y mod 4 = 0" using y n1 by presburger
  show "leap y"
  proof (cases "n4 = 24")
    case True
    then have "y = 400 * (n400 + 1)" using y n1 n4 by simp
    then show ?thesis using m4 by (simp add: leap_def)
  next
    case False
    have "y div 100 = 4 * n400 + n100" using b y n1 False by (intro div_unique_bounds) auto
    then have "y mod 100 = 4 * n4 + 4" using y n1 by (simp add: minus_mult_div_eq_mod [symmetric])
    then show ?thesis using m4 b(3) by (simp add: leap_def)
  qed
qed

lemma year_of_days_bounds:
  "0 \<le> d - days_before_year (year_of_days d)"
  "d - days_before_year (year_of_days d) \<le> (if leap (year_of_days d) then 365 else 364)"
proof -
  let ?r = "d mod 146097"
  have r: "d - 146097 * (d div 146097) = ?r" "0 \<le> ?r" "?r < 146097"
    by (simp_all add: minus_mult_div_eq_mod)
  define n100 where "n100 = ?r div 36524 - ?r div 36524 div 4"
  define d1 where "d1 = ?r - 36524 * n100"
  define n4 where "n4 = d1 div 1461"
  define d2 where "d2 = d1 - 1461 * n4"
  define n1 where "n1 = d2 div 365 - d2 div 365 div 4"
  note defs = n100_def d1_def n4_def d2_def n1_def
  note cb' = cycle_bounds [OF r(2,3) defs refl]
  have y: "year_of_days d = 400 * (d div 146097) + 100 * n100 + 4 * n4 + n1 + 1"
    unfolding year_of_days_def Let_def r(1) by (simp add: defs)
  note yv = year_value [OF cb'(1-6) y]
  have eq: "d - days_before_year (year_of_days d) = d2 - 365 * n1"
    unfolding yv(1) d2_def d1_def using r(1) by simp
  show "0 \<le> d - days_before_year (year_of_days d)"
    unfolding eq by (rule cb'(7))
  show "d - days_before_year (year_of_days d) \<le> (if leap (year_of_days d) then 365 else 364)"
  proof (cases "d2 - 365 * n1 = 365")
    case True
    then have "leap (year_of_days d)" using cb'(9) yv(2) by auto
    then show ?thesis using cb'(8) unfolding eq by simp
  next
    case False
    then show ?thesis using cb'(8) unfolding eq by simp
  qed
qed

lemma month_day_spec:
  assumes "0 \<le> d" "d < sum_list ls"
  shows "m \<le> fst (month_day m ls d) \<and> fst (month_day m ls d) < m + length ls
    \<and> 1 \<le> snd (month_day m ls d) \<and> snd (month_day m ls d) \<le> ls ! (fst (month_day m ls d) - m)
    \<and> sum_list (take (fst (month_day m ls d) - m) ls) + snd (month_day m ls d) - 1 = d"
  using assms
proof (induction m ls d rule: month_day.induct)
  case (2 m l ls d)
  show ?case
  proof (cases "d < l")
    case True
    with 2 show ?thesis by simp
  next
    case False
    let ?md = "month_day (Suc m) ls (d - l)"
    from False 2 have IH: "Suc m \<le> fst ?md" "fst ?md < Suc m + length ls" "1 \<le> snd ?md"
      "snd ?md \<le> ls ! (fst ?md - Suc m)" "sum_list (take (fst ?md - Suc m) ls) + snd ?md - 1 = d - l"
      by auto
    have s: "fst ?md - m = Suc (fst ?md - Suc m)" using IH(1) by simp
    from False IH show ?thesis by (simp add: s)
  qed
qed simp

lemma sum_month_lengths: "sum_list (month_lengths y) = (if leap y then 366 else 365)"
  by (simp add: month_lengths_def)

lemma month_lengths_range: "l \<in> set (month_lengths y) \<Longrightarrow> 28 \<le> l \<and> l \<le> 31"
  by (auto simp: month_lengths_def split: if_splits)

lemma length_month_lengths [simp]: "length (month_lengths y) = 12"
  by (simp add: month_lengths_def)

lemma civil_of_ranges:
  "1 \<le> c_month (civil_of t)" "c_month (civil_of t) \<le> 12" "1 \<le> c_day (civil_of t)"
  "int (c_day (civil_of t)) \<le> daysIn (c_month (civil_of t)) (c_year (civil_of t))"
  "c_hour (civil_of t) \<le> 23" "c_min (civil_of t) \<le> 59" "c_sec (civil_of t) \<le> 59"
  "c_nsec (civil_of t) < 1000000000"
  and time_of_civil_of: "time_of (civil_of t) = t"
proof -
  define secs where "secs = t div 1000000000"
  define days where "days = secs div 86400 + unix_day_zero"
  define sod where "sod = secs mod 86400"
  define y where "y = year_of_days days"
  define md where "md = month_day 1 (month_lengths y) (days - days_before_year y)"
  have c: "civil_of t = \<lparr>c_year = y, c_month = fst md, c_day = nat (snd md), c_hour = nat (sod div 3600),
         c_min = nat (sod mod 3600 div 60), c_sec = nat (sod mod 60), c_nsec = nat (t mod 1000000000)\<rparr>"
    by (simp add: civil_of_def Let_def secs_def days_def sod_def y_def md_def)
  have "0 \<le> days - days_before_year y" "days - days_before_year y < sum_list (month_lengths y)"
    using year_of_days_bounds [of days] by (simp_all add: y_def sum_month_lengths split: if_splits)
  from month_day_spec [OF this, of 1, folded md_def]
  have m: "1 \<le> fst md" "fst md < 13" "1 \<le> snd md" "snd md \<le> month_lengths y ! (fst md - 1)"
    "sum_list (take (fst md - 1) (month_lengths y)) + snd md - 1 = days - days_before_year y"
    by simp_all
  have sod: "0 \<le> sod" "sod < 86400" by (simp_all add: sod_def)
  show "1 \<le> c_month (civil_of t)" "c_month (civil_of t) \<le> 12" "1 \<le> c_day (civil_of t)"
    "int (c_day (civil_of t)) \<le> daysIn (c_month (civil_of t)) (c_year (civil_of t))"
    "c_nsec (civil_of t) < 1000000000"
    using m by (simp_all add: c daysIn_def)
  have h: "sod div 3600 < 24" "sod mod 3600 div 60 < 60" "0 \<le> sod div 3600" "0 \<le> sod mod 3600 div 60"
    using sod by (simp_all add: pos_imp_zdiv_nonneg_iff int_div_less_self div_less_iff_less_mult)
  then show "c_hour (civil_of t) \<le> 23" "c_min (civil_of t) \<le> 59" by (simp_all add: c)
  show "c_sec (civil_of t) \<le> 59" using pos_mod_bound [of 60 sod] by (simp add: c)
  have hms: "sod div 3600 * 3600 + sod mod 3600 div 60 * 60 + sod mod 60 = sod"
  proof -
    have "sod mod 3600 mod 60 = sod mod 60" by (rule mod_mod_cancel) simp
    then have "sod mod 3600 div 60 * 60 + sod mod 60 = sod mod 3600"
      by (metis div_mult_mod_eq)
    then show ?thesis using div_mult_mod_eq [of sod 3600] by linarith
  qed
  have "time_of (civil_of t)
      = ((days - unix_day_zero) * 86400 + sod) * 1000000000 + t mod 1000000000"
    using m h sod hms by (simp add: c time_of_def Let_def)
  also have "\<dots> = t"
    by (simp add: days_def sod_def secs_def)
  finally show "time_of (civil_of t) = t" .
qed

subsection \<open>The text form is inverted by \<open>parse_RFC3339Nano\<close>\<close>

lemma getdigits_padn: "n < 10 ^ k \<Longrightarrow> getdigits k (padn k n @ s) = Some (n, s)"
  using padn_digits [of k n] by (simp add: getdigits_def num_acc_padn)

lemma getdigits_padn2: "n < 100 \<Longrightarrow> getdigits 2 (padn 2 n @ s) = Some (n, s)"
  using getdigits_padn [of n 2 s] by simp

lemma skip_Cons [simp]: "skip c (c # s) = Some s"
  by (simp add: skip_def)

lemma trim_zeros_decomp: "\<exists>k. s = trim_zeros s @ replicate k (CHR ''0'')"
proof -
  let ?P = "\<lambda>c. c = CHR ''0''"
  have "rev s = takeWhile ?P (rev s) @ dropWhile ?P (rev s)" by simp
  moreover have "takeWhile ?P (rev s) = replicate (length (takeWhile ?P (rev s))) (CHR ''0'')"
    by (rule replicate_eqI) (auto dest: set_takeWhileD)
  ultimately show ?thesis
    unfolding trim_zeros_def by (metis rev_append rev_replicate rev_rev_ident)
qed

lemma num_acc_zeros: "num_acc acc (replicate k (CHR ''0'')) = acc * 10 ^ k"
  by (induction k arbitrary: acc) (simp_all add: digit_val_def)

lemma trim_zeros_value:
  assumes "length s = 9"
  shows "num_acc 0 (trim_zeros s) * 10 ^ (9 - length (trim_zeros s)) = num_acc 0 s"
    "length (trim_zeros s) \<le> 9"
proof -
  obtain k where k: "s = trim_zeros s @ replicate k (CHR ''0'')" using trim_zeros_decomp by blast
  have l: "length s = length (trim_zeros s) + k" by (subst k) simp
  then show "length (trim_zeros s) \<le> 9" using assms by simp
  have "num_acc 0 s = num_acc 0 (trim_zeros s) * 10 ^ k"
    by (subst k) (simp add: num_acc_append num_acc_zeros)
  moreover have "k = 9 - length (trim_zeros s)" using l assms by simp
  ultimately show "num_acc 0 (trim_zeros s) * 10 ^ (9 - length (trim_zeros s)) = num_acc 0 s" by simp
qed

lemma trim_zeros_digits: "list_all digit s \<Longrightarrow> list_all digit (trim_zeros s)"
  by (auto simp: trim_zeros_def list_all_iff dest: set_dropWhileD)

lemma Z_not_digit: "\<not> digit (CHR ''Z'')"
  by (simp add: digit_def)

lemma parse_frac_string:
  assumes "ns < 1000000000"
  shows "parse_frac (frac_string ns @ ''Z'') = (ns, ''Z'')"
proof (cases "ns = 0")
  case True
  then show ?thesis by (simp add: parse_frac_def frac_string_def)
next
  case False
  let ?t = "trim_zeros (padn 9 ns)"
  have v: "num_acc 0 ?t * 10 ^ (9 - length ?t) = ns" "length ?t \<le> 9"
    using trim_zeros_value [of "padn 9 ns"] assms by (simp_all add: num_acc_padn)
  have ds: "list_all digit ?t" by (simp add: trim_zeros_digits padn_digits)
  have ne: "?t \<noteq> []" using v(1) False by auto
  then obtain d r where t: "?t = d # r" by (cases ?t) auto
  have tw: "takeWhile digit (?t @ ''Z'') = ?t" "dropWhile digit (?t @ ''Z'') = ''Z''"
    using takeWhile_digits [OF ds, of "''Z''"] Z_not_digit by simp_all
  from False ds v tw show ?thesis
    by (simp add: parse_frac_def frac_string_def t Let_def)
qed

lemma year_string_4: "n < 10000 \<Longrightarrow> year_string (int n) = padn 4 n"
  by (simp add: year_string_def Let_def)

lemma obind_Some [simp]: "obind (Some a) f = f a"
  by (simp add: obind_def)

lemma in_range_nat_Some: "lo \<le> n \<Longrightarrow> n \<le> hi \<Longrightarrow> in_range_nat lo hi (Some (n, s)) = Some (n, s)"
  by (simp add: in_range_nat_def)

lemma daysIn_le_31: "1 \<le> m \<Longrightarrow> m \<le> 12 \<Longrightarrow> daysIn m y \<le> 31"
  using month_lengths_range [of "month_lengths y ! (m - 1)" y] by (simp add: daysIn_def)

lemma parse_format_RFC3339Nano:
  assumes y: "0 \<le> c_year (civil_of t)" "c_year (civil_of t) \<le> 9999"
  shows "parse_RFC3339Nano (format_RFC3339Nano t) = Some t"
proof -
  define c where "c = civil_of t"
  note r = civil_of_ranges [of t, folded c_def]
  have d31: "c_day c \<le> 31" using r(4) daysIn_le_31 [OF r(1,2), of "c_year c"] by linarith
  obtain n where n: "c_year c = int n" "n < 10000"
    using y nonneg_int_cases [of "c_year c"] by (auto simp: c_def)
  have gn: "getnum (padn 2 (c_hour c) @ s) = Some (c_hour c, s)" for s
    using r(5) by (simp add: getnum_def getdigits_padn2)
  have g2: "getdigits 2 (padn 2 (c_month c) @ s) = Some (c_month c, s)"
    "getdigits 2 (padn 2 (c_day c) @ s) = Some (c_day c, s)"
    "getdigits 2 (padn 2 (c_min c) @ s) = Some (c_min c, s)"
    "getdigits 2 (padn 2 (c_sec c) @ s) = Some (c_sec c, s)" for s
    using r d31 by (simp_all add: getdigits_padn2)
  have g4: "getdigits 4 (padn 4 n @ s) = Some (n, s)" for s
    using n(2) by (simp add: getdigits_padn)
  have f: "format_RFC3339Nano t = padn 4 n @ CHR ''-'' # padn 2 (c_month c) @ CHR ''-'' # padn 2 (c_day c)
      @ CHR ''T'' # padn 2 (c_hour c) @ CHR '':'' # padn 2 (c_min c) @ CHR '':'' # padn 2 (c_sec c)
      @ frac_string (c_nsec c) @ ''Z''"
    by (simp add: format_RFC3339Nano_def Let_def c_def [symmetric] n year_string_4)
  have cc: "c = \<lparr>c_year = int n, c_month = c_month c, c_day = c_day c, c_hour = c_hour c,
      c_min = c_min c, c_sec = c_sec c, c_nsec = c_nsec c\<rparr>"
    using n(1) by simp
  have d0: "0 < c_day c" using r(3) by simp
  have z: "parse_zone ''Z'' = Some (0, [])" by (simp add: parse_zone_def)
  have "parse_RFC3339Nano (format_RFC3339Nano t) = Some (time_of c)"
    using r(3,4) n
    by (simp add: f parse_RFC3339Nano_def g4 g2 gn in_range_nat_Some r r [unfolded One_nat_def]
        parse_frac_string z cc [symmetric] d0)
  then show ?thesis by (simp add: c_def time_of_civil_of)
qed

text \<open>A year outside four digits is printed, but not read back.\<close>

lemma length_itoa: "10 ^ k \<le> n \<Longrightarrow> k < length (itoa n)"
proof (induction k arbitrary: n)
  case (Suc k)
  then have "10 ^ k \<le> n div 10" by (simp add: less_eq_div_iff_mult_less_eq mult.commute)
  moreover have "\<not> n < 10"
  proof -
    have "10 * 1 \<le> n"
      by (rule le_trans [OF mult_le_mono2 [of 1 "10 ^ k" 10]]) (use Suc.prems in simp_all)
    then show ?thesis by simp
  qed
  ultimately have "k < length (itoa (n div 10))" "\<not> n < 10" using Suc.IH by blast+
  then show ?case using \<open>\<not> n < 10\<close> by (subst itoa.simps) simp
qed simp

lemma parse_format_None:
  assumes "\<not> (0 \<le> c_year (civil_of t) \<and> c_year (civil_of t) \<le> 9999)"
  shows "parse_RFC3339Nano (format_RFC3339Nano t) = None"
proof -
  obtain rest where f: "format_RFC3339Nano t = year_string (c_year (civil_of t)) @ rest"
    unfolding format_RFC3339Nano_def Let_def by blast
  show ?thesis
  proof (cases "c_year (civil_of t) < 0")
    case True
    then obtain r where "format_RFC3339Nano t = CHR ''-'' # r" unfolding f by (auto simp: year_string_def Let_def)
    then have "getdigits 4 (format_RFC3339Nano t) = None" by (simp add: getdigits_def digit_def)
    then show ?thesis by (simp add: parse_RFC3339Nano_def obind_def)
  next
    case False
    define n where "n = nat (c_year (civil_of t))"
    from False assms have n: "10 ^ 4 \<le> n" and y: "year_string (c_year (civil_of t)) = itoa n"
      by (auto simp: n_def year_string_def Let_def)
    have len: "4 < length (itoa n)" using length_itoa [OF n] .
    then have "digit (itoa n ! 4)" using itoa_digits [of n] by (simp add: list_all_length)
    then have "skip (CHR ''-'') (drop 4 (format_RFC3339Nano t)) = None"
      using len by (auto simp: skip_def f y digit_def nth_append split: list.split dest!: arg_cong [where f = hd] simp: hd_drop_conv_nth hd_append)
    then show ?thesis by (auto simp: parse_RFC3339Nano_def obind_def getdigits_def)
  qed
qed

end
