(* ===== verification/Go_Json.thy ===== *)
theory Go_Json
  imports Go_Strings Go_Encoding
begin

text \<open>
  The part of Go's \<open>encoding/json\<close> the program uses: \<open>json.Marshal\<close> of structs whose fields are
  strings and already encoded values, and \<open>json.Unmarshal\<close> into a struct of string fields. The
  decoder accepts exactly the JSON grammar (with Go's nesting limit), decodes escapes and replaces
  invalid UTF-8, matches keys exactly or by case folding, lets a later duplicate win, ignores unknown
  keys and \<open>null\<close>, and fails on a value of another type. The main lemma is the round trip for structs
  whose strings need no escape.
\<close>

subsection \<open>Marshal\<close>

definition json_safe :: "char \<Rightarrow> bool" where
  "json_safe c = (32 \<le> byte c \<and> byte c < 128 \<and> c \<noteq> CHR 0x22 \<and> byte c \<noteq> 92
     \<and> c \<noteq> CHR ''<'' \<and> c \<noteq> CHR ''>'' \<and> c \<noteq> CHR ''&'')"

definition hex4 :: "nat \<Rightarrow> string" where
  "hex4 n = CHR 0x5C # CHR ''u'' # hexn 4 n"

function json_escape :: "string \<Rightarrow> string" where
  "json_escape s =
    (case s of [] \<Rightarrow> []
     | c # cs \<Rightarrow>
       if byte c < 128 then
         (if json_safe c then [c]
          else if c = CHR 0x22 \<or> byte c = 92 then [CHR 0x5C, c]
          else if byte c = 8 then [CHR 0x5C, CHR ''b'']
          else if byte c = 12 then [CHR 0x5C, CHR ''f'']
          else if byte c = 10 then [CHR 0x5C, CHR ''n'']
          else if byte c = 13 then [CHR 0x5C, CHR ''r'']
          else if byte c = 9 then [CHR 0x5C, CHR ''t'']
          else hex4 (byte c)) @ json_escape cs
       else (case decode_rune s of (r, n) \<Rightarrow>
         (if r = RuneError \<and> n = 1 then hex4 65533
          else if r = 8232 \<or> r = 8233 then hex4 r
          else take n s) @ json_escape (drop (max 1 n) s)))"
  by pat_completeness auto
termination
  by (relation "measure length") auto

declare json_escape.simps [simp del]

definition json_quote :: "string \<Rightarrow> string" where
  "json_quote s = CHR 0x22 # json_escape s @ [CHR 0x22]"

text \<open>A struct or map: the keys with their encoded values, in the order they are written.\<close>

fun json_members :: "(string \<times> string) list \<Rightarrow> string" where
  "json_members [] = []"
| "json_members [(k, v)] = json_quote k @ CHR '':'' # v"
| "json_members ((k, v) # ms) = json_quote k @ CHR '':'' # v @ CHR '','' # json_members ms"

definition json_object :: "(string \<times> string) list \<Rightarrow> string" where
  "json_object ms = CHR ''{'' # json_members ms @ ''}''"

definition json_strings :: "(string \<times> string) list \<Rightarrow> string" where
  "json_strings ms = json_object (map (\<lambda>(k, v). (k, json_quote v)) ms)"

subsection \<open>The grammar\<close>

datatype json =
    JNull
  | JBool bool
  | JNum string
  | JStr string
  | JArr "json list"
  | JObj "(string \<times> json) list"

definition json_space :: "char \<Rightarrow> bool" where
  "json_space c = (byte c = 32 \<or> byte c = 9 \<or> byte c = 10 \<or> byte c = 13)"

definition ws :: "string \<Rightarrow> string" where
  "ws s = dropWhile json_space s"

definition hexval :: "char \<Rightarrow> nat option" where
  "hexval c = (let b = byte c in
     if 48 \<le> b \<and> b \<le> 57 then Some (b - 48)
     else if 97 \<le> b \<and> b \<le> 102 then Some (b - 87)
     else if 65 \<le> b \<and> b \<le> 70 then Some (b - 55) else None)"

fun getu4 :: "string \<Rightarrow> (nat \<times> string) option" where
  "getu4 (a # b # c # d # r) =
    (case (hexval a, hexval b, hexval c, hexval d) of
       (Some w, Some x, Some y, Some z) \<Rightarrow> Some (w * 4096 + x * 256 + y * 16 + z, r)
     | _ \<Rightarrow> None)"
| "getu4 _ = None"

lemma getu4_length: "getu4 s = Some (n, r) \<Longrightarrow> length r < length s"
  by (induction s rule: getu4.induct) (auto split: option.splits)

text \<open>A low surrogate escape right after a high one.\<close>

definition low_surrogate :: "string \<Rightarrow> (nat \<times> string) option" where
  "low_surrogate s =
    (case s of c # u # r \<Rightarrow>
       if byte c = 92 \<and> u = CHR ''u'' then
         (case getu4 r of Some (n, r') \<Rightarrow> if 56320 \<le> n \<and> n < 57344 then Some (n, r') else None | None \<Rightarrow> None)
       else None
     | _ \<Rightarrow> None)"

lemma low_surrogate_length: "low_surrogate s = Some (n, r) \<Longrightarrow> length r < length s"
  by (auto simp: low_surrogate_def split: list.splits option.splits if_splits dest!: getu4_length)

definition simple_escape :: "char \<Rightarrow> string option" where
  "simple_escape e =
    (if e = CHR 0x22 \<or> byte e = 92 \<or> e = CHR ''/'' then Some [e]
     else if e = CHR ''b'' then Some [char_of (8::nat)]
     else if e = CHR ''f'' then Some [char_of (12::nat)]
     else if e = CHR ''n'' then Some [char_of (10::nat)]
     else if e = CHR ''r'' then Some [char_of (13::nat)]
     else if e = CHR ''t'' then Some [char_of (9::nat)] else None)"

definition emit :: "string \<Rightarrow> (string \<times> string) option \<Rightarrow> (string \<times> string) option" where
  "emit x r = map_option (\<lambda>(a, b). (x @ a, b)) r"

text \<open>The rest of a string literal after its opening quote: the decoded bytes and what follows the
  closing quote.\<close>

function unquote :: "string \<Rightarrow> (string \<times> string) option" where
  "unquote s =
    (case s of [] \<Rightarrow> None
     | c # cs \<Rightarrow>
       if c = CHR 0x22 then Some ([], cs)
       else if byte c = 92 then
         (case cs of [] \<Rightarrow> None
          | e # r \<Rightarrow>
            (case simple_escape e of Some x \<Rightarrow> emit x (unquote r)
             | None \<Rightarrow>
               if e = CHR ''u'' then
                 (case getu4 r of None \<Rightarrow> None
                  | Some (n, r') \<Rightarrow>
                    if 55296 \<le> n \<and> n < 57344 then
                      (case (if n < 56320 then low_surrogate r' else None) of
                         Some (l, r2) \<Rightarrow>
                           emit (encode_rune (65536 + (n - 55296) * 1024 + (l - 56320))) (unquote r2)
                       | None \<Rightarrow> emit (encode_rune RuneError) (unquote r'))
                    else emit (encode_rune n) (unquote r'))
               else None))
       else if byte c < 32 then None
       else if byte c < 128 then emit [c] (unquote cs)
       else emit (encode_rune (fst (decode_rune s))) (unquote (drop (max 1 (snd (decode_rune s))) s)))"
  by pat_completeness auto
termination
  by (relation "measure length")
    (auto dest!: getu4_length low_surrogate_length split: if_splits)

declare unquote.simps [simp del]

definition jdigit :: "char \<Rightarrow> bool" where
  "jdigit c = (48 \<le> byte c \<and> byte c \<le> 57)"

definition num_int :: "string \<Rightarrow> (string \<times> string) option" where
  "num_int s =
    (let ds = takeWhile jdigit s in
     if ds = [] then None else if hd ds = CHR ''0'' then Some (''0'', tl s) else Some (ds, dropWhile jdigit s))"

definition num_frac :: "string \<Rightarrow> (string \<times> string) option" where
  "num_frac s =
    (case s of c # r \<Rightarrow>
       if c = CHR ''.'' then
         (let ds = takeWhile jdigit r in if ds = [] then None else Some (c # ds, dropWhile jdigit r))
       else Some ([], s)
     | [] \<Rightarrow> Some ([], s))"

definition num_exp :: "string \<Rightarrow> (string \<times> string) option" where
  "num_exp s =
    (case s of c # r \<Rightarrow>
       if c = CHR ''e'' \<or> c = CHR ''E'' then
         (let sg = (case r of x # _ \<Rightarrow> if x = CHR ''+'' \<or> x = CHR ''-'' then [x] else [] | [] \<Rightarrow> []);
              r' = drop (length sg) r; ds = takeWhile jdigit r'
          in if ds = [] then None else Some (c # sg @ ds, dropWhile jdigit r'))
       else Some ([], s)
     | [] \<Rightarrow> Some ([], s))"

definition number :: "string \<Rightarrow> (json \<times> string) option" where
  "number s =
    (let neg = (case s of c # _ \<Rightarrow> if c = CHR ''-'' then [c] else [] | [] \<Rightarrow> []) in
     case num_int (drop (length neg) s) of None \<Rightarrow> None
     | Some (i, r) \<Rightarrow> (case num_frac r of None \<Rightarrow> None
       | Some (f, r) \<Rightarrow> (case num_exp r of None \<Rightarrow> None
         | Some (e, r) \<Rightarrow> Some (JNum (neg @ i @ f @ e), r))))"

fun literal :: "string \<Rightarrow> json \<Rightarrow> string \<Rightarrow> (json \<times> string) option" where
  "literal [] v s = Some (v, s)"
| "literal (x # xs) v (y # ys) = (if x = y then literal xs v ys else None)"
| "literal (x # xs) v [] = None"

text \<open>Values, array elements and object members. The first argument is fuel; the length of the text
  is enough (each call consumes a character). The second is what is left of Go's nesting limit.\<close>

fun jvalue :: "nat \<Rightarrow> nat \<Rightarrow> string \<Rightarrow> (json \<times> string) option"
and jelems :: "nat \<Rightarrow> nat \<Rightarrow> string \<Rightarrow> (json list \<times> string) option"
and jmembers :: "nat \<Rightarrow> nat \<Rightarrow> string \<Rightarrow> ((string \<times> json) list \<times> string) option"
where
  "jvalue 0 d s = None"
| "jvalue (Suc f) d s =
    (case ws s of [] \<Rightarrow> None
     | c # r \<Rightarrow>
       if c = CHR 0x22 then map_option (\<lambda>(x, r). (JStr x, r)) (unquote r)
       else if c = CHR ''{'' then
         (if d = 0 then None
          else (case ws r of y # r' \<Rightarrow>
                  if y = CHR ''}'' then Some (JObj [], r')
                  else map_option (\<lambda>(ms, r). (JObj ms, r)) (jmembers f (d - 1) (ws r))
                | [] \<Rightarrow> None))
       else if c = CHR ''['' then
         (if d = 0 then None
          else (case ws r of y # r' \<Rightarrow>
                  if y = CHR '']'' then Some (JArr [], r')
                  else map_option (\<lambda>(vs, r). (JArr vs, r)) (jelems f (d - 1) (ws r))
                | [] \<Rightarrow> None))
       else if c = CHR ''t'' then literal ''rue'' (JBool True) r
       else if c = CHR ''f'' then literal ''alse'' (JBool False) r
       else if c = CHR ''n'' then literal ''ull'' JNull r
       else number (c # r))"
| "jelems 0 d s = None"
| "jelems (Suc f) d s =
    (case jvalue f d s of None \<Rightarrow> None
     | Some (v, r) \<Rightarrow>
       (case ws r of c # r' \<Rightarrow>
          if c = CHR '','' then map_option (\<lambda>(vs, r). (v # vs, r)) (jelems f d r')
          else if c = CHR '']'' then Some ([v], r') else None
        | [] \<Rightarrow> None))"
| "jmembers 0 d s = None"
| "jmembers (Suc f) d s =
    (case ws s of q # r \<Rightarrow>
       if q \<noteq> CHR 0x22 then None
       else (case unquote r of None \<Rightarrow> None
             | Some (k, r) \<Rightarrow>
               (case ws r of c # r \<Rightarrow>
                  if c \<noteq> CHR '':'' then None
                  else (case jvalue f d r of None \<Rightarrow> None
                        | Some (v, r) \<Rightarrow>
                          (case ws r of c # r' \<Rightarrow>
                             if c = CHR '','' then map_option (\<lambda>(ms, r). ((k, v) # ms, r)) (jmembers f d r')
                             else if c = CHR ''}'' then Some ([(k, v)], r') else None
                           | [] \<Rightarrow> None))
                | [] \<Rightarrow> None))
     | [] \<Rightarrow> None)"

definition maxNestingDepth :: nat where
  "maxNestingDepth = 10000"

definition json_parse_with :: "nat \<Rightarrow> string \<Rightarrow> json option" where
  "json_parse_with fuel s =
    (case jvalue fuel maxNestingDepth s of
       Some (v, r) \<Rightarrow> if ws r = [] then Some v else None
     | None \<Rightarrow> None)"

definition json_parse :: "string \<Rightarrow> json option" where
  "json_parse s = json_parse_with (Suc (2 * length s)) s"

subsection \<open>Unmarshal into a struct of string fields\<close>

definition fold_rune :: "nat \<Rightarrow> nat" where
  "fold_rune r = (if 97 \<le> r \<and> r \<le> 122 then r - 32 else if r = 383 then 83 else if r = 8490 then 75 else r)"

definition fold_name :: "string \<Rightarrow> nat list" where
  "fold_name s = map fold_rune (runes s)"

definition field_of :: "string list \<Rightarrow> string \<Rightarrow> string option" where
  "field_of names key =
    (if key \<in> set names then Some key else find (\<lambda>n. fold_name n = fold_name key) names)"

text \<open>Fields not mentioned keep the zero value \<open>""\<close>; a value that is neither a string nor \<open>null\<close>
  makes the whole call fail.\<close>

fun assign_members :: "string list \<Rightarrow> (string \<times> json) list \<Rightarrow> (string \<Rightarrow> string) \<Rightarrow> (string \<Rightarrow> string) option" where
  "assign_members names [] m = Some m"
| "assign_members names ((k, v) # ms) m =
    (case field_of names k of None \<Rightarrow> assign_members names ms m
     | Some n \<Rightarrow> (case v of JStr x \<Rightarrow> assign_members names ms (m(n := x))
                  | JNull \<Rightarrow> assign_members names ms m
                  | _ \<Rightarrow> None))"

definition decode_struct :: "string list \<Rightarrow> json option \<Rightarrow> (string \<Rightarrow> string) option" where
  "decode_struct names j =
    (case j of
       Some (JObj ms) \<Rightarrow> assign_members names ms (\<lambda>_. '''')
     | Some JNull \<Rightarrow> Some (\<lambda>_. '''')
     | _ \<Rightarrow> None)"

definition json_Unmarshal :: "string list \<Rightarrow> string \<Rightarrow> (string \<Rightarrow> string) option" where
  "json_Unmarshal names s = decode_struct names (json_parse s)"

subsection \<open>Round trip\<close>

lemma hexval_hexdigit: "d < 16 \<Longrightarrow> hexval (hexdigit d) = Some d"
  by (cases d rule: nat.exhaust) (auto simp: hexdigit_def hextable_def hexval_def Let_def nth_Cons' numeral_eq_Suc less_Suc_eq)


lemma getu4_hexn:
  assumes "n < 65536"
  shows "getu4 (hexn 4 n @ t) = Some (n, t)"
proof -
  have four: "(4::nat) = Suc (Suc (Suc (Suc 0)))" by simp
  have s: "hexn 4 n = [hexdigit (n div 16 div 16 div 16 mod 16), hexdigit (n div 16 div 16 mod 16), hexdigit (n div 16 mod 16),
      hexdigit (n mod 16)]"
    unfolding four hexn.simps by simp
  have v: "hexval (hexdigit (m mod 16)) = Some (m mod 16)" for m by (rule hexval_hexdigit) simp
  have q: "m = m div 16 * 16 + m mod 16" for m :: nat by simp
  have "n div 16 div 16 div 16 < 16" using assms by (intro less_mult_imp_div_less) simp
  then have "n div 16 div 16 div 16 mod 16 = n div 16 div 16 div 16" by simp
  then have "n div 16 div 16 div 16 mod 16 * 4096 + n div 16 div 16 mod 16 * 256 + n div 16 mod 16 * 16 + n mod 16 = n"
    using q [of n] q [of "n div 16"] q [of "n div 16 div 16"] by linarith
  then show ?thesis unfolding s append_Cons append_Nil getu4.simps v prod.case option.case by (simp only:)
qed

lemma char_of_quote: "char_of (34 :: nat) = CHR 0x22"
  by code_simp

text \<open>The escape of one rune.\<close>

definition escape_rune :: "nat \<Rightarrow> string" where
  "escape_rune r =
    (if r < 128 then
       (if json_safe (char_of r) then [char_of r]
        else if r = 34 \<or> r = 92 then [CHR 0x5C, char_of r]
        else if r = 8 then [CHR 0x5C, CHR ''b'']
        else if r = 12 then [CHR 0x5C, CHR ''f'']
        else if r = 10 then [CHR 0x5C, CHR ''n'']
        else if r = 13 then [CHR 0x5C, CHR ''r'']
        else if r = 9 then [CHR 0x5C, CHR ''t'']
        else hex4 r)
     else if r = 8232 \<or> r = 8233 then hex4 r else encode_rune r)"

lemma encode_rune_cases:
  "128 \<le> r \<Longrightarrow> \<exists>c cs. encode_rune r = c # cs \<and> \<not> byte c < 128 \<and> (scalar r \<longrightarrow> cs \<noteq> [])"
  by (auto simp: encode_rune_def of_char_of scalar_def)

lemma byte_eq: "byte c = n \<Longrightarrow> n < 256 \<Longrightarrow> c = char_of n"
  by auto

lemma json_escape_rune:
  assumes "scalar r"
  shows "json_escape (encode_rune r @ s) = escape_rune r @ json_escape s"
proof (cases "r < 128")
  case True
  then have b: "byte (char_of r) = r" by (simp add: of_char_byte)
  have "char_of r = CHR 0x22 \<longleftrightarrow> r = 34" using b True by (auto simp: char_of_quote dest: arg_cong [where f = byte])
  then show ?thesis using True b by (subst json_escape.simps) (simp add: escape_rune_def)
next
  case False
  then obtain c cs where e: "encode_rune r = c # cs" "\<not> byte c < 128" "cs \<noteq> []" using encode_rune_cases [of r] assms by auto
  note d = decode_encode_rune [OF assms, of s, unfolded e(1)]
  show ?thesis
    using d e False by (subst json_escape.simps) (simp add: escape_rune_def)
qed

lemma unquote_hex4:
  assumes "r < 65536" "scalar r"
  shows "unquote (hex4 r @ s) = emit (encode_rune r) (unquote s)"
  using assms by (subst unquote.simps) (auto simp: hex4_def simple_escape_def getu4_hexn scalar_def)

lemma unquote_escape_rune:
  assumes "scalar r"
  shows "unquote (escape_rune r @ s) = emit (encode_rune r) (unquote s)"
proof (cases "r < 128")
  case True
  then have b: "byte (char_of r) = r" by (simp add: of_char_byte)
  show ?thesis
  proof (cases "json_safe (char_of r)")
    case True
    then show ?thesis using \<open>r < 128\<close> b by (subst unquote.simps) (auto simp: escape_rune_def json_safe_def)
  next
    case False
    show ?thesis
    proof (cases "r \<in> {34, 92, 8, 12, 10, 13, 9}")
      case True
      then show ?thesis using False
        by (subst unquote.simps) (auto simp: escape_rune_def simple_escape_def char_of_quote)
    next
      case n: False
      with False \<open>r < 128\<close> have "escape_rune r = hex4 r" by (simp add: escape_rune_def)
      then show ?thesis using unquote_hex4 [OF _ assms, of s] \<open>r < 128\<close> by simp
    qed
  qed
next
  case False
  then obtain c cs where e: "encode_rune r = c # cs" "\<not> byte c < 128" "cs \<noteq> []" using encode_rune_cases [of r] assms by auto
  note d = decode_encode_rune [OF assms, of s, unfolded e(1)]
  show ?thesis
  proof (cases "r = 8232 \<or> r = 8233")
    case True
    then show ?thesis using unquote_hex4 [OF _ assms, of s] by (auto simp: escape_rune_def)
  next
    case n: False
    then have x: "escape_rune r = c # cs" using False e(1) by (simp add: escape_rune_def)
    have c: "c \<noteq> CHR 0x22" "byte c \<noteq> 92" "\<not> byte c < 32" using e(2) by auto
    have "max 1 (length (c # cs)) = length (c # cs)" by simp
    then show ?thesis unfolding x
      using d e c by (subst unquote.simps) simp
  qed
qed

lemma unquote_escape_runes:
  assumes "list_all scalar rs"
  shows "unquote (json_escape (concat (map encode_rune rs)) @ CHR 0x22 # t) = Some (concat (map encode_rune rs), t)"
  using assms
proof (induction rs)
  case Nil
  show ?case by (subst json_escape.simps, subst unquote.simps) simp
next
  case (Cons r rs)
  then show ?case by (simp add: json_escape_rune unquote_escape_rune emit_def)
qed

lemma unquote_escape: "valid_utf8 s \<Longrightarrow> unquote (json_escape s @ CHR 0x22 # t) = Some (s, t)"
  using unquote_escape_runes by (auto simp: valid_utf8_def)

lemma ws_nonspace [simp]: "\<not> json_space c \<Longrightarrow> ws (c # s) = c # s"
  by (simp add: ws_def)

lemma space_chars [simp]:
  "\<not> json_space (CHR 0x22)" "\<not> json_space (CHR '':'')" "\<not> json_space (CHR '','')"
  "\<not> json_space (CHR ''}'')" "\<not> json_space (CHR ''{'')"
  by (simp_all add: json_space_def)

definition utf8_members :: "(string \<times> string) list \<Rightarrow> bool" where
  "utf8_members ms = list_all (\<lambda>(k, v). valid_utf8 k \<and> valid_utf8 v) ms"

definition safe_members :: "(string \<times> string) list \<Rightarrow> bool" where
  "safe_members ms = list_all (\<lambda>(k, v). list_all json_safe k \<and> list_all json_safe v) ms"

lemma safe_members_utf8: "safe_members ms \<Longrightarrow> utf8_members ms"
  unfolding safe_members_def utf8_members_def
  by (rule list.pred_mono_strong, assumption) (auto intro!: valid_utf8_ascii simp: json_safe_def elim!: list.pred_mono_strong)

lemma jmembers_strings:
  assumes "utf8_members ms" "ms \<noteq> []" "2 * length ms \<le> f"
  shows "jmembers f d (json_members (map (\<lambda>(k, v). (k, json_quote v)) ms) @ CHR ''}'' # r)
    = Some (map (\<lambda>(k, v). (k, JStr v)) ms, r)"
  using assms
proof (induction ms arbitrary: f)
  case (Cons m ms)
  obtain k v where m: "m = (k, v)" by (cases m)
  from Cons.prems(1) m have kv: "valid_utf8 k" "valid_utf8 v" and ms: "utf8_members ms"
    by (simp_all add: utf8_members_def)
  from Cons.prems(3) obtain f' where f: "f = Suc (Suc f')" "2 * length ms \<le> f'"
    by (cases f; cases "f - 1") auto
  show ?case
  proof (cases ms)
    case Nil
    then show ?thesis
      using kv by (simp add: m f json_quote_def unquote_escape)
  next
    case (Cons m' ms')
    obtain k' v' where m': "m' = (k', v')" by (cases m')
    have IH: "jmembers (Suc f') d (json_members (map (\<lambda>(k, v). (k, json_quote v)) ms) @ CHR ''}'' # r)
        = Some (map (\<lambda>(k, v). (k, JStr v)) ms, r)"
      using Cons.IH [of "Suc f'"] ms f Cons by simp
    then show ?thesis
      using kv by (simp add: m f Cons m' json_quote_def unquote_escape del: jmembers.simps(2))
        (simp add: kv unquote_escape)
  qed
qed simp

lemma length_json_members: "length ms \<le> length (json_members ms)"
  by (induction ms rule: json_members.induct) auto

lemma json_parse_strings:
  assumes "utf8_members ms" "ms \<noteq> []"
  shows "json_parse (json_strings ms) = Some (JObj (map (\<lambda>(k, v). (k, JStr v)) ms))"
proof -
  let ?qs = "map (\<lambda>(k, v). (k, json_quote v)) ms"
  let ?s = "json_strings ms"
  have s: "?s = CHR ''{'' # json_members ?qs @ [CHR ''}'']"
    by (simp add: json_strings_def json_object_def)
  have len: "2 * length ms \<le> 2 * length ?s"
    using length_json_members [of ?qs] by (simp add: s)
  obtain k v ms' where ms: "ms = (k, v) # ms'" using assms(2) by (cases ms) auto
  have m: "json_members ?qs = CHR 0x22 # tl (json_members ?qs)"
    by (cases "map (\<lambda>(k, v). (k, json_quote v)) ms'") (auto simp: ms json_quote_def)
  then obtain t where t: "json_members ?qs = CHR 0x22 # t" by blast
  have "jmembers (2 * length ?s) (maxNestingDepth - 1) (json_members ?qs @ [CHR ''}''])
      = Some (map (\<lambda>(k, v). (k, JStr v)) ms, [])"
    using jmembers_strings [OF assms len] by simp
  then have "jvalue (Suc (2 * length ?s)) maxNestingDepth ?s
      = Some (JObj (map (\<lambda>(k, v). (k, JStr v)) ms), [])"
    by (simp add: s t maxNestingDepth_def del: jmembers.simps)
  then show ?thesis by (simp add: json_parse_def json_parse_with_def ws_def)
qed

lemma assign_members_exact:
  assumes "list_all (\<lambda>(k, v). k \<in> set names) ms"
  shows "assign_members names (map (\<lambda>(k, v). (k, JStr v)) ms) m
    = Some (fold (\<lambda>(k, v) m. m(k := v)) ms m)"
  using assms by (induction ms arbitrary: m) (auto simp: field_of_def)

text \<open>What a field gets: the last text among the members whose key is its name up to case. A \<open>null\<close> is passed over; any
  other value for a field is an error.\<close>

definition text_or_null :: "json \<Rightarrow> bool" where
  "text_or_null v = (case v of JStr _ \<Rightarrow> True | JNull \<Rightarrow> True | _ \<Rightarrow> False)"

definition fields_fit :: "string list \<Rightarrow> (string \<times> json) list \<Rightarrow> bool" where
  "fields_fit names ms = list_all (\<lambda>(k, v). fold_name k \<in> fold_name ` set names \<longrightarrow> text_or_null v) ms"

definition text_members :: "string \<Rightarrow> (string \<times> json) list \<Rightarrow> string list" where
  "text_members n ms = concat (map (\<lambda>(k, v). case v of JStr x \<Rightarrow> if fold_name k = fold_name n then [x] else [] | _ \<Rightarrow> []) ms)"

definition last_member :: "string \<Rightarrow> (string \<times> string) list \<Rightarrow> string" where
  "last_member n ms = last ('''' # map snd (filter (\<lambda>(k, _). fold_name k = fold_name n) ms))"

lemma text_members_strings: "last ('''' # text_members n (map (\<lambda>(k, v). (k, JStr v)) ms)) = last_member n ms"
proof -
  have "text_members n (map (\<lambda>(k, v). (k, JStr v)) ms) = map snd (filter (\<lambda>(k, _). fold_name k = fold_name n) ms)"
    by (induction ms) (auto simp: text_members_def)
  then show ?thesis by (simp add: last_member_def)
qed

lemma find_field:
  assumes "distinct (map fold_name names)" "n \<in> set names" "fold_name n = fold_name k"
  shows "field_of names k = Some n"
proof (cases "k \<in> set names")
  case True
  with assms show ?thesis by (auto simp: field_of_def distinct_map dest: inj_onD)
next
  case False
  obtain x where x: "find (\<lambda>n. fold_name n = fold_name k) names = Some x"
    using assms(2,3) by (cases "find (\<lambda>n. fold_name n = fold_name k) names") (auto simp: find_None_iff)
  then have "x \<in> set names" "fold_name x = fold_name k" by (auto simp: find_Some_iff)
  with assms have "x = n" by (simp add: distinct_map) (metis inj_onD)
  with False x show ?thesis by (simp add: field_of_def)
qed

lemma no_field: "\<forall>n \<in> set names. fold_name n \<noteq> fold_name k \<Longrightarrow> field_of names k = None"
  by (auto simp: field_of_def find_None_iff)

lemma assign_members_texts:
  assumes "distinct (map fold_name names)"
  shows "if fields_fit names ms
    then \<exists>m'. assign_members names ms m = Some m' \<and> (\<forall>n \<in> set names. m' n = last (m n # text_members n ms))
    else assign_members names ms m = None"
proof (induction ms arbitrary: m)
  case (Cons kv ms)
  obtain k v where kv: "kv = (k, v)" by (cases kv)
  have fit: "fields_fit names ((k, v) # ms) \<longleftrightarrow> (fold_name k \<in> fold_name ` set names \<longrightarrow> text_or_null v) \<and> fields_fit names ms" for v
    by (simp add: fields_fit_def)
  have skip: ?case if "assign_members names (kv # ms) m = assign_members names ms m0"
    and "fields_fit names (kv # ms) = fields_fit names ms"
    and "\<And>n. n \<in> set names \<Longrightarrow> last (m n # text_members n (kv # ms)) = last (m0 n # text_members n ms)" for m0
    using Cons.IH [of m0] unfolding that(1,2) by (simp only: that(3) cong: ball_cong)
  show ?case
  proof (cases "fold_name k \<in> fold_name ` set names")
    case True
    then obtain n where n: "n \<in> set names" "fold_name n = fold_name k" by (metis imageE)
    have f: "field_of names k = Some n" by (rule find_field [OF assms n])
    have other: "fold_name k = fold_name n' \<longleftrightarrow> n' = n" if "n' \<in> set names" for n'
      using assms n that by (simp add: distinct_map) (metis inj_onD)
    show ?thesis
    proof (cases v)
      case (JStr x)
      show ?thesis
        by (rule skip [of "m(n := x)"]) (simp_all add: kv f JStr fit text_or_null_def text_members_def other)
    next
      case JNull
      show ?thesis
        by (rule skip [of m]) (simp_all add: kv f JNull fit text_or_null_def text_members_def)
    qed (use True in \<open>simp_all add: kv f fit text_or_null_def\<close>)
  next
    case False
    then have f: "field_of names k = None" by (intro no_field) (metis imageI)
    show ?thesis
    proof (rule skip [of m])
      fix n assume "n \<in> set names"
      with False have "fold_name k \<noteq> fold_name n" by (metis imageI)
      then show "last (m n # text_members n (kv # ms)) = last (m n # text_members n ms)"
        by (simp add: text_members_def kv split: json.split)
    qed (use False f in \<open>simp_all add: kv fit\<close>)
  qed
qed (simp add: text_members_def fields_fit_def)

lemma json_parse_empty: "json_parse (json_strings []) = Some (JObj [])"
proof -
  have "jvalue (Suc 4) 10000 ''{}'' = Some (JObj [], '''')" unfolding jvalue.simps by (simp add: ws_def json_space_def)
  then show ?thesis
    by (simp add: json_parse_def json_parse_with_def json_strings_def json_object_def maxNestingDepth_def ws_def)
qed

lemma json_parse_members:
  "utf8_members ms \<Longrightarrow> json_parse (json_strings ms) = Some (JObj (map (\<lambda>(k, v). (k, JStr v)) ms))"
  using json_parse_strings json_parse_empty by (cases "ms = []") simp_all

lemma json_Unmarshal_strings:
  assumes "safe_members ms" "ms \<noteq> []" "list_all (\<lambda>(k, v). k \<in> set names) ms"
  shows "json_Unmarshal names (json_strings ms) = Some (fold (\<lambda>(k, v) m. m(k := v)) ms (\<lambda>_. ''''))"
  by (simp add: json_Unmarshal_def decode_struct_def json_parse_strings [OF safe_members_utf8 [OF assms(1)] assms(2)] assign_members_exact [OF assms(3)])

subsection \<open>The fuel is enough\<close>

lemma unquote_length_bound: "length s < n \<Longrightarrow> unquote s = Some (x, r) \<Longrightarrow> length r < length s"
proof (induction n arbitrary: s x)
  case (Suc n)
  have step: "unquote s' = Some (a, r) \<Longrightarrow> length s' < n \<Longrightarrow> length r < length s'" for s' a
    using Suc.IH by blast
  from Suc.prems show ?case
    by (subst (asm) unquote.simps)
      (fastforce simp: emit_def split: list.splits if_splits option.splits
        dest!: getu4_length low_surrogate_length dest: step)
qed simp

lemma unquote_length: "unquote s = Some (x, r) \<Longrightarrow> length r < length s"
  using unquote_length_bound [of s "Suc (length s)"] by simp

lemma ws_length: "length (ws s) \<le> length s"
  by (simp add: ws_def length_dropWhile_le)

lemma ws_Cons_length: "ws s = c # r \<Longrightarrow> length r < length s"
  using ws_length [of s] by simp

lemma num_int_length: "num_int s = Some (i, r) \<Longrightarrow> length r < length s"
proof -
  have "takeWhile jdigit s \<noteq> [] \<Longrightarrow> length (dropWhile jdigit s) < length s"
    by (metis add_less_cancel_right append_Nil length_append length_greater_0_conv
        length_0_conv takeWhile_dropWhile_id add_0)
  then show "num_int s = Some (i, r) \<Longrightarrow> length r < length s"
    by (cases s) (auto simp: num_int_def Let_def split: if_splits)
qed

lemma num_frac_length: "num_frac s = Some (f, r) \<Longrightarrow> length r \<le> length s"
  by (auto simp: num_frac_def Let_def length_dropWhile_le le_SucI split: list.splits if_splits)

lemma num_exp_length: "num_exp s = Some (f, r) \<Longrightarrow> length r \<le> length s"
  by (auto simp: num_exp_def Let_def split: list.splits if_splits
      intro: le_SucI order_trans [OF length_dropWhile_le])

lemma number_length: "number s = Some (v, r) \<Longrightarrow> length r < length s"
  by (fastforce simp: number_def Let_def split: option.splits list.splits if_splits
      dest!: num_int_length num_frac_length num_exp_length)

lemma literal_length: "literal xs v s = Some (w, r) \<Longrightarrow> length r \<le> length s"
  by (induction xs v s rule: literal.induct) (auto split: if_splits)

lemma jvalue_length:
  "jvalue f d s = Some (v, r) \<Longrightarrow> length r < length s"
  "jelems f d s = Some (vs, r) \<Longrightarrow> length r < length s"
  "jmembers f d s = Some (ms, r) \<Longrightarrow> length r < length s"
proof (induction f d s and f d s and f d s arbitrary: v r and vs r and ms r rule: jvalue_jelems_jmembers.induct)
  case (2 f d s)
  show ?case
  proof (cases "ws s")
    case (Cons c r')
    have c: "length r' < length s" and w: "length (ws r') \<le> length r'"
      using ws_Cons_length [OF Cons] ws_length by auto
    note l = literal_length [of _ _ r'] unquote_length [of r'] number_length [of "c # r'"]
    from 2 Cons c w show ?thesis
      by (fastforce split: if_splits list.splits dest: l ws_Cons_length)
  qed (use 2 in simp)
next
  case (4 f d s)
  then show ?case
    by (fastforce split: if_splits list.splits option.splits prod.splits dest: ws_Cons_length)
next
  case (6 f d s)
  then show ?case
    by (fastforce split: if_splits list.splits option.splits prod.splits dest: ws_Cons_length unquote_length)
qed simp_all

text \<open>The key of a member and its colon.\<close>

definition json_key :: "string \<Rightarrow> (string \<times> string) option" where
  "json_key s =
    (case ws s of q # r \<Rightarrow>
       if q \<noteq> CHR 0x22 then None
       else (case unquote r of None \<Rightarrow> None
             | Some (k, r) \<Rightarrow> (case ws r of c # r \<Rightarrow> if c \<noteq> CHR '':'' then None else Some (k, r) | [] \<Rightarrow> None))
     | [] \<Rightarrow> None)"

lemma json_key_length: "json_key s = Some (k, r) \<Longrightarrow> length r < length s"
  by (fastforce simp: json_key_def split: list.splits if_splits option.splits dest: ws_Cons_length unquote_length)

lemma jmembers_key:
  "jmembers (Suc f) d s =
    (case json_key s of None \<Rightarrow> None
     | Some (k, r) \<Rightarrow> (case jvalue f d r of None \<Rightarrow> None
       | Some (v, r) \<Rightarrow> (case ws r of c # r' \<Rightarrow>
            if c = CHR '','' then map_option (\<lambda>(ms, r). ((k, v) # ms, r)) (jmembers f d r')
            else if c = CHR ''}'' then Some ([(k, v)], r') else None
          | [] \<Rightarrow> None)))"
  by (simp add: json_key_def split: list.split option.split)

lemma json_fuel_step:
  "(\<forall>d s. 2 * length s < f \<longrightarrow> jvalue (Suc f) d s = jvalue f d s)
   \<and> (\<forall>d s. Suc (2 * length s) < f \<longrightarrow> jelems (Suc f) d s = jelems f d s)
   \<and> (\<forall>d s. 2 * length s < f \<longrightarrow> jmembers (Suc f) d s = jmembers f d s)"
proof (induction f)
  case (Suc f)
  have v: "2 * length s < f \<Longrightarrow> jvalue (Suc f) d s = jvalue f d s"
    and e: "Suc (2 * length s) < f \<Longrightarrow> jelems (Suc f) d s = jelems f d s"
    and m: "2 * length s < f \<Longrightarrow> jmembers (Suc f) d s = jmembers f d s" for d s
    using Suc.IH by blast+
  have "jvalue (Suc (Suc f)) d s = jvalue (Suc f) d s" if "2 * length s < Suc f" for d s
  proof (cases "ws s")
    case (Cons c r)
    then have "Suc (length (ws r)) \<le> length s"
      using ws_Cons_length [OF Cons] ws_length [of r] by simp
    with that have "jelems (Suc f) (d - 1) (ws r) = jelems f (d - 1) (ws r)"
      "jmembers (Suc f) (d - 1) (ws r) = jmembers f (d - 1) (ws r)"
      using e [of "ws r"] m [of "ws r"] by simp_all
    then show ?thesis
      by (simp only: jvalue.simps(2) Cons list.case)
  qed simp
  moreover have "jelems (Suc (Suc f)) d s = jelems (Suc f) d s" if "Suc (2 * length s) < Suc f" for d s
  proof -
    have "jelems (Suc f) d r' = jelems f d r'" if "jvalue f d s = Some (x, r)" "ws r = c # r'" for x r c r'
      using \<open>Suc (2 * length s) < Suc f\<close> jvalue_length(1) [OF that(1)] ws_Cons_length [OF that(2)] by (intro e) simp
    moreover have "jvalue (Suc f) d s = jvalue f d s"
      using that by (intro v) simp
    ultimately show ?thesis
      by (simp only: jelems.simps(2)) (auto split: option.splits list.splits)
  qed
  moreover have "jmembers (Suc (Suc f)) d s = jmembers (Suc f) d s" if "2 * length s < Suc f" for d s
  proof -
    have a: "jvalue (Suc f) d r = jvalue f d r" if "json_key s = Some (k, r)" for k r
      using \<open>2 * length s < Suc f\<close> json_key_length [OF that] by (intro v) simp
    have b: "jmembers (Suc f) d r' = jmembers f d r'"
      if "json_key s = Some (k, r)" "jvalue f d r = Some (x, r3)" "ws r3 = c # r'" for k r x r3 c r'
      using \<open>2 * length s < Suc f\<close> json_key_length [OF that(1)] jvalue_length(1) [OF that(2)] ws_Cons_length [OF that(3)]
      by (intro m) simp
    show ?thesis
      by (rule trans [OF jmembers_key trans [OF _ jmembers_key [symmetric]]])
        (use a b in \<open>simp del: jvalue.simps jelems.simps jmembers.simps split: option.split list.split\<close>)
  qed
  ultimately show ?case
    by blast
qed simp

lemma jvalue_fuel: "2 * length s < n \<Longrightarrow> jvalue n d s = jvalue (Suc (2 * length s)) d s"
proof (induction n)
  case (Suc n)
  then show ?case
    using json_fuel_step [of n] by (cases "n = 2 * length s") auto
qed simp

text \<open>So the parser never gives up for want of fuel: any larger amount gives the same tree.\<close>

lemma json_parse_fuel: "2 * length s < n \<Longrightarrow> json_parse s = json_parse_with n s"
  by (drule jvalue_fuel [where d = maxNestingDepth]) (simp only: json_parse_def json_parse_with_def)

end
