(* ===== verification/Ports.thy ===== *)
theory Ports
  imports User Session Outbox Go_Time Go_Json
begin

text \<open>
  What every component of the program shares.

  \<^item> \<open>error\<close>: a Go \<open>error\<close> value that is not \<open>nil\<close>. The sentinel errors of the domain packages keep
    their identity, because the code compares them with \<open>errors.Is\<close>; any other error is
    its message.
  \<^item> \<open>rt\<close>: the part of the world that the Go runtime and its standard library supply: the readings
    of \<open>time.Now\<close>, the bytes of \<open>crypto/rand\<close>, the identifiers of \<open>uuid.New\<close> (all of them sequences
    that the environment chooses and the program consumes in order), the lines written by \<open>log/slog\<close>,
    and the calls of the key-derivation function, which are recorded because their number is what an
    observer of response times sees. The record is extensible: the production world and the world
    of the test kit both extend it.
  \<^item> The ports of \<open>internal/domain\<close> (\<open>UnitOfWork\<close>, the three repositories, \<open>Cache\<close>, \<open>PasswordHasher\<close>,
    \<open>TokenGenerator\<close>, \<open>Clock\<close>): one record of functions per Go interface. What matters of a
    \<open>context.Context\<close> is the time it leaves to the outside call that gets it, \<open>ctx_timeout\<close>: \<open>None\<close> for the context of a
    request, \<open>Some d\<close> under a \<open>WithTimeout\<close>. A deadline that passes is one of the errors the call may return.
\<close>

subsection \<open>Errors\<close>

datatype error =
    ErrUser user_error
  | ErrSession session_error
  | ErrTenant tenant_error
  | ErrOther string

definition error_Error :: "error \<Rightarrow> string" where
  "error_Error e = (case e of
     ErrUser user_ErrUserNotFound \<Rightarrow> ''user: not found''
   | ErrUser user_ErrEmailTaken \<Rightarrow> ''user: email already taken''
   | ErrUser user_ErrInvalidEmail \<Rightarrow> ''user: invalid email''
   | ErrUser user_ErrWeakPassword \<Rightarrow> ''user: weak password''
   | ErrSession session_ErrSessionNotFound \<Rightarrow> ''session: not found''
   | ErrSession session_ErrSessionExpired \<Rightarrow> ''session: expired''
   | ErrSession session_ErrSessionRevoked \<Rightarrow> ''session: revoked''
   | ErrSession session_ErrInvalidToken \<Rightarrow> ''session: invalid token''
   | ErrSession session_ErrCacheMiss \<Rightarrow> ''session: cache miss''
   | ErrTenant tenant_ErrInvalidTenantID \<Rightarrow> ''tenant: invalid id''
   | ErrOther s \<Rightarrow> s)"

subsection \<open>Contexts\<close>

text \<open>The earlier deadline of a context and of its parent holds.\<close>

type_synonym ctx_timeout = "duration option"

definition WithTimeout :: "ctx_timeout \<Rightarrow> duration \<Rightarrow> ctx_timeout" where
  "WithTimeout ctx d = (case ctx of None \<Rightarrow> Some d | Some e \<Rightarrow> Some (min e d))"

subsection \<open>The runtime\<close>

datatype level = Debug | Info | Warn | Error

record log_line =
  log_level :: level
  log_msg :: string
  log_attrs :: "(string \<times> string) list"

text \<open>One call of the key-derivation function: passes, memory, lanes, output length.\<close>

type_synonym kdf_call = "nat \<times> nat \<times> nat \<times> nat"

record rt =
  rt_clock :: "nat \<Rightarrow> time"
  rt_clock_i :: nat
  rt_rand :: "nat \<Rightarrow> (nat \<Rightarrow> char) option"
  rt_rand_i :: nat
  rt_uuids :: "nat \<Rightarrow> uuid option"
  rt_uuids_i :: nat
  rt_logs :: "log_line list"
  rt_kdf :: "kdf_call list"

text \<open>\<open>time.Now().UTC()\<close>, and \<open>time.Until(t)\<close>, which reads the clock and subtracts.\<close>

definition time_Now :: "('a rt_scheme, time) go" where
  "time_Now w = (Ret (rt_clock w (rt_clock_i w)), w\<lparr>rt_clock_i := Suc (rt_clock_i w)\<rparr>)"

definition time_Until :: "time \<Rightarrow> ('a rt_scheme, duration) go" where
  "time_Until t = bindg time_Now (\<lambda>now. ret (time_Sub t now))"

text \<open>\<open>rand.Read(b)\<close> with \<open>len(b) = n\<close>.\<close>

definition rand_Read :: "nat \<Rightarrow> ('a rt_scheme, error + string) go" where
  "rand_Read n w =
    (Ret (case rt_rand w (rt_rand_i w) of None \<Rightarrow> Inl (ErrOther ''crypto/rand'') | Some f \<Rightarrow> Inr (map f [0..<n])),
     w\<lparr>rt_rand_i := Suc (rt_rand_i w)\<rparr>)"

text \<open>\<open>uuid.New()\<close> panics when the random source fails.\<close>

definition uuid_New :: "('a rt_scheme, uuid) go" where
  "uuid_New w =
    (case rt_uuids w (rt_uuids_i w) of None \<Rightarrow> Panic ''uuid.New'' | Some u \<Rightarrow> Ret u,
     w\<lparr>rt_uuids_i := Suc (rt_uuids_i w)\<rparr>)"

definition slog :: "level \<Rightarrow> string \<Rightarrow> (string \<times> string) list \<Rightarrow> ('a rt_scheme, unit) go" where
  "slog l msg attrs =
    modifies (\<lambda>w. w\<lparr>rt_logs := rt_logs w @ [\<lparr>log_level = l, log_msg = msg, log_attrs = attrs\<rparr>]\<rparr>)"

lemma wp_time_Now [wp_simps]:
  "wp time_Now Q w = Q (Ret (rt_clock w (rt_clock_i w))) (w\<lparr>rt_clock_i := Suc (rt_clock_i w)\<rparr>)"
  by (simp add: wp_def time_Now_def)

lemma wp_time_Until [wp_simps]:
  "wp (time_Until t) Q w =
     Q (Ret (time_Sub t (rt_clock w (rt_clock_i w)))) (w\<lparr>rt_clock_i := Suc (rt_clock_i w)\<rparr>)"
  by (simp add: time_Until_def wp_simps)

lemma wp_rand_Read [wp_simps]:
  "wp (rand_Read n) Q w =
     Q (Ret (case rt_rand w (rt_rand_i w) of None \<Rightarrow> Inl (ErrOther ''crypto/rand'') | Some f \<Rightarrow> Inr (map f [0..<n])))
       (w\<lparr>rt_rand_i := Suc (rt_rand_i w)\<rparr>)"
  by (simp add: wp_def rand_Read_def)

lemma wp_uuid_New [wp_simps]:
  "wp uuid_New Q w =
     Q (case rt_uuids w (rt_uuids_i w) of None \<Rightarrow> Panic ''uuid.New'' | Some u \<Rightarrow> Ret u)
       (w\<lparr>rt_uuids_i := Suc (rt_uuids_i w)\<rparr>)"
  by (simp add: wp_def uuid_New_def)

lemma wp_slog [wp_simps]:
  "wp (slog l msg attrs) Q w =
     Q (Ret ()) (w\<lparr>rt_logs := rt_logs w @ [\<lparr>log_level = l, log_msg = msg, log_attrs = attrs\<rparr>]\<rparr>)"
  by (simp add: slog_def wp_simps)

text \<open>\<open>later w w'\<close>: the run has gone on from \<open>w\<close> to \<open>w'\<close>. The sequences of the environment do not change and the
  clock is not read backwards. \<open>quiet w w'\<close>: besides that, nothing outside the runtime has changed.\<close>

definition later :: "'a rt_scheme \<Rightarrow> 'a rt_scheme \<Rightarrow> bool" where
  "later w w' = (rt_clock w' = rt_clock w \<and> rt_uuids w' = rt_uuids w \<and> rt_rand w' = rt_rand w \<and> rt_clock_i w \<le> rt_clock_i w')"

definition quiet :: "'a rt_scheme \<Rightarrow> 'a rt_scheme \<Rightarrow> bool" where
  "quiet w w' = (rt.more w' = rt.more w \<and> later w w')"

lemma later_refl [simp]: "later w w"
  by (simp add: later_def)

lemma later_trans: "later w w' \<Longrightarrow> later w' w'' \<Longrightarrow> later w w''"
  by (auto simp: later_def)

lemma later_truncate: "rt.truncate w' = rt.truncate w \<Longrightarrow> later w w'"
  by (simp add: later_def rt.truncate_def)

lemma quiet_updates [simp]:
  "quiet w w" "quiet w (w\<lparr>rt_logs := l\<rparr>)" "quiet w (w\<lparr>rt_uuids_i := Suc (rt_uuids_i w)\<rparr>)" "quiet w (w\<lparr>rt_clock_i := Suc (rt_clock_i w)\<rparr>)"
  "quiet w (w\<lparr>rt_rand_i := n\<rparr>)" "quiet w (w\<lparr>rt_kdf := k\<rparr>)" "quiet w (w\<lparr>rt_rand_i := n, rt_kdf := k\<rparr>)"
  by (simp_all add: quiet_def later_def)

lemma quiet_more: "quiet w w' \<Longrightarrow> rt.more w' = rt.more w" and quiet_later: "quiet w w' \<Longrightarrow> later w w'"
  by (simp_all add: quiet_def)

lemma quiet_trans: "quiet w w' \<Longrightarrow> quiet w' w'' \<Longrightarrow> quiet w w''"
  by (auto simp: quiet_def intro: later_trans)

subsection \<open>The ports of the domain\<close>

record 'w UnitOfWork =
  uow_Begin :: "('w, error + Tx) go"
  uow_Commit :: "Tx \<Rightarrow> ('w, error + unit) go"
  uow_Rollback :: "Tx \<Rightarrow> ('w, error + unit) go"

record 'w UserRepository =
  users_SaveTx :: "Tx \<Rightarrow> User \<Rightarrow> ('w, error + unit) go"
  users_FindByEmail :: "tenant_ID \<Rightarrow> Email \<Rightarrow> ('w, error + User) go"
  users_FindByID :: "tenant_ID \<Rightarrow> uuid \<Rightarrow> ('w, error + User) go"

record 'w SessionRepository =
  sessions_SaveTx :: "Tx \<Rightarrow> Session \<Rightarrow> ('w, error + unit) go"
  sessions_FindByTokenHash :: "string \<Rightarrow> ('w, error + Session) go"
  sessions_RevokeTx :: "Tx \<Rightarrow> tenant_ID \<Rightarrow> uuid \<Rightarrow> ('w, error + unit) go"

record 'w OutboxRepository =
  outbox_WriteTx :: "Tx \<Rightarrow> Event \<Rightarrow> ('w, error + unit) go"

record 'w Cache =
  cache_Set :: "string \<Rightarrow> CachedSession \<Rightarrow> duration \<Rightarrow> ('w, error + unit) go"
  cache_Get :: "string \<Rightarrow> ('w, error + CachedSession) go"
  cache_Delete :: "string \<Rightarrow> ('w, error + unit) go"

record 'w PasswordHasher =
  hasher_Hash :: "string \<Rightarrow> ('w, error + PasswordHash) go"
  hasher_Verify :: "PasswordHash \<Rightarrow> string \<Rightarrow> ('w, error + bool) go"

record 'w TokenGenerator =
  tokens_NewToken :: "('w, error + Token) go"

record 'w Clock =
  clock_Now :: "('w, time) go"

definition clock_Real :: "('a rt_scheme) Clock" where
  "clock_Real = \<lparr>clock_Now = time_Now\<rparr>"

text \<open>The transaction idiom of the use cases. \<open>Begin\<close>; then a deferred \<open>Rollback\<close> whose error is
  dropped and which does nothing once \<open>committed\<close> is set. \<open>body\<close> ends with \<open>Commit\<close>, so \<open>committed\<close>
  is set exactly when it returns \<open>Inr\<close>; on an early return and on a panic the deferred function rolls
  back.\<close>

definition in_tx ::
  "'w UnitOfWork \<Rightarrow> 'e \<Rightarrow> (Tx \<Rightarrow> ('w, 'e + 'a) go) \<Rightarrow> ('w, 'e + 'a) go" where
  "in_tx uow errInternal body =
    tryg (uow_Begin uow) (\<lambda>_. ret (Inl errInternal)) (\<lambda>tx.
      deferg (\<lambda>r. case r of
                Ret (Inr _) \<Rightarrow> ret ()
              | _ \<Rightarrow> bindg (uow_Rollback uow tx) (\<lambda>_. ret ()))
        (body tx))"

end
