(* ===== verification/Store.thy ===== *)
theory Store
  imports Ports
begin

text \<open>
  The abstract specification of the persistence ports: a store is a list of users, a list of sessions
  and a list of outbox events, with the operations the repositories promise and the invariant
  \<open>consistent\<close> that the uniqueness and reference constraints of the migrations express.

  The locales state what the use cases may rely on. \<open>db w s\<close> says that the committed data of the
  world \<open>w\<close> are the store \<open>s\<close>, \<open>view w tx v\<close> that the open transaction \<open>tx\<close> sees the store \<open>v\<close>, and
  \<open>healthy w\<close> that the server answers every request it can answer. No law but those for a
  healthy server excludes an error: every operation may fail at any time, and a failed \<open>Commit\<close> may
  have taken effect or not. Times are stored with the resolution of the server (\<open>rnd\<close>).
\<close>

subsection \<open>The store and its operations\<close>

record store =
  st_users :: "User list"
  st_sessions :: "Session list"
  st_events :: "Event list"

definition empty_store :: store where
  "empty_store = \<lparr>st_users = [], st_sessions = [], st_events = []\<rparr>"

definition round_user :: "(time \<Rightarrow> time) \<Rightarrow> User \<Rightarrow> User" where
  "round_user rnd u = u\<lparr>user_createdAt := rnd (user_createdAt u), user_updatedAt := rnd (user_updatedAt u)\<rparr>"

definition round_session :: "(time \<Rightarrow> time) \<Rightarrow> Session \<Rightarrow> Session" where
  "round_session rnd x =
    x\<lparr>session_createdAt := rnd (session_createdAt x), session_expiresAt := rnd (session_expiresAt x)\<rparr>"

definition round_event :: "(time \<Rightarrow> time) \<Rightarrow> Event \<Rightarrow> Event" where
  "round_event rnd e = e\<lparr>event_createdAt := rnd (event_createdAt e)\<rparr>"

lemma round_user_keys [simp]:
  "user_id (round_user rnd u) = user_id u" "user_tenantID (round_user rnd u) = user_tenantID u"
  "user_email (round_user rnd u) = user_email u" "user_passwordHash (round_user rnd u) = user_passwordHash u"
  "user_status (round_user rnd u) = user_status u"
  by (simp_all add: round_user_def)

lemma round_session_keys [simp]:
  "session_id (round_session rnd x) = session_id x" "session_tenantID (round_session rnd x) = session_tenantID x"
  "session_userID (round_session rnd x) = session_userID x" "session_tokenHash (round_session rnd x) = session_tokenHash x"
  "session_revokedAt (round_session rnd x) = session_revokedAt x"
  by (simp_all add: round_session_def)

lemma round_event_keys [simp]:
  "event_id (round_event rnd e) = event_id e" "event_tenantID (round_event rnd e) = event_tenantID e"
  "event_eventType (round_event rnd e) = event_eventType e" "event_payload (round_event rnd e) = event_payload e"
  "event_aggregateID (round_event rnd e) = event_aggregateID e"
  "event_aggregateType (round_event rnd e) = event_aggregateType e"
  by (simp_all add: round_event_def)

definition user_key :: "User \<Rightarrow> tenant_ID \<times> Email" where
  "user_key u = (user_tenantID u, user_email u)"

lemma user_key_round [simp]: "user_key (round_user rnd u) = user_key u"
  by (simp add: user_key_def)

definition user_conflict :: "User \<Rightarrow> store \<Rightarrow> bool" where
  "user_conflict u s = (user_id u \<in> user_id ` set (st_users s) \<or> user_key u \<in> user_key ` set (st_users s))"

definition save_user :: "(time \<Rightarrow> time) \<Rightarrow> User \<Rightarrow> store \<Rightarrow> store option" where
  "save_user rnd u s =
    (if user_conflict u s then None else Some (s\<lparr>st_users := st_users s @ [round_user rnd u]\<rparr>))"

definition session_conflict :: "Session \<Rightarrow> store \<Rightarrow> bool" where
  "session_conflict x s =
    (session_id x \<in> session_id ` set (st_sessions s) \<or> session_tokenHash x \<in> session_tokenHash ` set (st_sessions s)
     \<or> session_userID x \<notin> user_id ` set (st_users s))"

definition save_session :: "(time \<Rightarrow> time) \<Rightarrow> Session \<Rightarrow> store \<Rightarrow> store option" where
  "save_session rnd x s =
    (if session_conflict x s then None
     else Some (s\<lparr>st_sessions := st_sessions s @ [round_session rnd (x\<lparr>session_revokedAt := None\<rparr>)]\<rparr>))"

definition write_event :: "(time \<Rightarrow> time) \<Rightarrow> Event \<Rightarrow> store \<Rightarrow> store option" where
  "write_event rnd e s =
    (if event_id e \<in> event_id ` set (st_events s) then None
     else Some (s\<lparr>st_events := st_events s @ [round_event rnd e]\<rparr>))"

text \<open>\<open>COALESCE(revoked_at, now())\<close>: the first revocation is kept.\<close>

definition revoke_at :: "time \<Rightarrow> Session \<Rightarrow> Session" where
  "revoke_at now x =
    (if session_revokedAt x = None then x\<lparr>session_revokedAt := Some now\<rparr> else x)"

definition is_session :: "tenant_ID \<Rightarrow> uuid \<Rightarrow> Session \<Rightarrow> bool" where
  "is_session t sid x = (session_tenantID x = t \<and> session_id x = sid)"

definition revoke_session :: "tenant_ID \<Rightarrow> uuid \<Rightarrow> time \<Rightarrow> store \<Rightarrow> store option" where
  "revoke_session t sid now s =
    (if \<exists>x \<in> set (st_sessions s). is_session t sid x
     then Some (s\<lparr>st_sessions := map (\<lambda>x. if is_session t sid x then revoke_at now x else x) (st_sessions s)\<rparr>)
     else None)"

definition find_user_by_email :: "store \<Rightarrow> tenant_ID \<Rightarrow> Email \<Rightarrow> User option" where
  "find_user_by_email s t e = find (\<lambda>u. user_tenantID u = t \<and> user_email u = e) (st_users s)"

definition find_user_by_id :: "store \<Rightarrow> tenant_ID \<Rightarrow> uuid \<Rightarrow> User option" where
  "find_user_by_id s t uid = find (\<lambda>u. user_tenantID u = t \<and> user_id u = uid) (st_users s)"

definition find_session :: "store \<Rightarrow> string \<Rightarrow> Session option" where
  "find_session s h = find (\<lambda>x. session_tokenHash x = h) (st_sessions s)"

definition valid_user :: "User \<Rightarrow> bool" where
  "valid_user u = (NewEmail (email_String (user_email u)) = Inr (user_email u))"

subsection \<open>The invariant\<close>

definition consistent :: "store \<Rightarrow> bool" where
  "consistent s =
    (distinct (map user_id (st_users s)) \<and> distinct (map user_key (st_users s))
     \<and> list_all valid_user (st_users s)
     \<and> distinct (map session_id (st_sessions s)) \<and> distinct (map session_tokenHash (st_sessions s))
     \<and> (\<forall>x \<in> set (st_sessions s). session_userID x \<in> user_id ` set (st_users s))
     \<and> distinct (map event_id (st_events s)))"

lemma consistent_empty: "consistent empty_store"
  by (simp add: consistent_def empty_store_def)

lemma consistent_save_user:
  "consistent s \<Longrightarrow> valid_user u \<Longrightarrow> save_user rnd u s = Some s' \<Longrightarrow> consistent s'"
  by (auto simp: consistent_def save_user_def user_conflict_def valid_user_def split: if_splits)

lemma consistent_save_session: "consistent s \<Longrightarrow> save_session rnd x s = Some s' \<Longrightarrow> consistent s'"
  by (auto simp: consistent_def save_session_def session_conflict_def split: if_splits)

lemma consistent_write_event: "consistent s \<Longrightarrow> write_event rnd e s = Some s' \<Longrightarrow> consistent s'"
  by (auto simp: consistent_def write_event_def split: if_splits)

lemma revoke_at_keys [simp]:
  "session_id (revoke_at now x) = session_id x" "session_tokenHash (revoke_at now x) = session_tokenHash x"
  "session_userID (revoke_at now x) = session_userID x" "session_tenantID (revoke_at now x) = session_tenantID x"
  "session_expiresAt (revoke_at now x) = session_expiresAt x" "session_revokedAt (revoke_at now x) \<noteq> None"
  by (simp_all add: revoke_at_def)

lemma map_revoke_keys:
  "map session_id (map (\<lambda>x. if P x then revoke_at now x else x) xs) = map session_id xs"
  "map session_tokenHash (map (\<lambda>x. if P x then revoke_at now x else x) xs) = map session_tokenHash xs"
  by (simp_all add: if_distrib cong: if_cong)

lemma consistent_revoke:
  assumes "consistent s" "revoke_session t sid now s = Some s'"
  shows "consistent s'"
proof -
  from assms(2) have s': "s' = s\<lparr>st_sessions := map (\<lambda>x. if is_session t sid x then revoke_at now x else x) (st_sessions s)\<rparr>"
    by (simp add: revoke_session_def split: if_splits)
  have "map session_id (st_sessions s') = map session_id (st_sessions s)"
    "map session_tokenHash (st_sessions s') = map session_tokenHash (st_sessions s)"
    using map_revoke_keys [of "is_session t sid" now "st_sessions s"] by (simp_all add: s')
  moreover have "\<forall>x \<in> set (st_sessions s'). session_userID x \<in> user_id ` set (st_users s)"
    using assms(1) by (auto simp: s' consistent_def)
  moreover have "st_users s' = st_users s" "st_events s' = st_events s"
    by (simp_all add: s')
  ultimately show ?thesis
    using assms(1) by (simp add: consistent_def)
qed

lemmas consistent_ops = consistent_save_user consistent_save_session consistent_write_event consistent_revoke

subsection \<open>Lookups\<close>

lemma find_distinct:
  assumes "distinct (map f xs)" "x \<in> set xs" "\<And>y. y \<in> set xs \<Longrightarrow> P y \<Longrightarrow> f y = f x" "P x"
  shows "find P xs = Some x"
proof -
  obtain y where y: "find P xs = Some y"
    using assms(2,4) by (metis find_None_all option.exhaust)
  then have "P y" "y \<in> set xs" using find_Some_iff_filter by fast+
  with assms(3) have "f y = f x" by blast
  with assms(1,2) \<open>y \<in> set xs\<close> have "y = x" by (auto simp: distinct_map inj_on_def)
  with y show ?thesis by simp
qed

lemma find_session_unique:
  "consistent s \<Longrightarrow> x \<in> set (st_sessions s) \<Longrightarrow> session_tokenHash x = h \<Longrightarrow> find_session s h = Some x"
  unfolding find_session_def consistent_def by (intro find_distinct [where f = session_tokenHash]) auto

lemma find_user_by_email_unique:
  "consistent s \<Longrightarrow> u \<in> set (st_users s) \<Longrightarrow>
    find_user_by_email s (user_tenantID u) (user_email u) = Some u"
  unfolding find_user_by_email_def consistent_def
  by (intro find_distinct [where f = user_key]) (auto simp: user_key_def)

lemma find_user_by_id_unique:
  "consistent s \<Longrightarrow> u \<in> set (st_users s) \<Longrightarrow> find_user_by_id s (user_tenantID u) (user_id u) = Some u"
  unfolding find_user_by_id_def consistent_def by (intro find_distinct [where f = user_id]) auto

lemma find_session_Some: "find_session s h = Some x \<Longrightarrow> x \<in> set (st_sessions s) \<and> session_tokenHash x = h"
  unfolding find_session_def by (drule find_Some_iff_filter) simp

lemma find_user_by_email_Some:
  "find_user_by_email s t e = Some u \<Longrightarrow> u \<in> set (st_users s) \<and> user_tenantID u = t \<and> user_email u = e"
  unfolding find_user_by_email_def by (drule find_Some_iff_filter) simp

lemma find_user_by_id_Some:
  "find_user_by_id s t i = Some u \<Longrightarrow> u \<in> set (st_users s) \<and> user_tenantID u = t \<and> user_id u = i"
  unfolding find_user_by_id_def by (drule find_Some_iff_filter) simp


subsection \<open>Interfaces\<close>

text \<open>A lookup of one row: what it returns is what the store holds, it changes neither the data nor the
  runtime, and a healthy server answers.\<close>

definition lookup_ok ::
  "('a rt_scheme \<Rightarrow> store \<Rightarrow> bool) \<Rightarrow> ('a rt_scheme \<Rightarrow> bool) \<Rightarrow> ('a rt_scheme, error + 'x) go \<Rightarrow> error \<Rightarrow>
    (store \<Rightarrow> 'x option) \<Rightarrow> bool" where
  "lookup_ok db healthy m notfound f =
    (\<forall>w s. db w s \<longrightarrow> wp m (\<lambda>r w'. db w' s \<and> rt.truncate w' = rt.truncate w \<and> (healthy w \<longrightarrow> healthy w')
       \<and> (case r of Ret (Inr x) \<Rightarrow> f s = Some x
          | Ret (Inl e) \<Rightarrow> (e = notfound \<longrightarrow> f s = None) \<and> (healthy w \<longrightarrow> e = notfound)
          | Panic _ \<Rightarrow> False)) w)"

text \<open>A write inside a transaction: the committed data and the runtime stay as they are, success means that the view of
  the transaction made one of the steps of \<open>R\<close>, and a healthy server succeeds when there is one and
  reports an error of \<open>refused\<close> when there is none.\<close>

definition write_ok ::
  "('a rt_scheme \<Rightarrow> store \<Rightarrow> bool) \<Rightarrow> ('a rt_scheme \<Rightarrow> Tx \<Rightarrow> store \<Rightarrow> bool) \<Rightarrow> ('a rt_scheme \<Rightarrow> bool) \<Rightarrow> Tx \<Rightarrow>
    ('a rt_scheme, error + unit) go \<Rightarrow>
    error set \<Rightarrow> (store \<Rightarrow> store \<Rightarrow> bool) \<Rightarrow> bool" where
  "write_ok db view healthy tx m refused R =
    (\<forall>w s v. db w s \<longrightarrow> view w tx v \<longrightarrow> wp m (\<lambda>r w'. db w' s \<and> rt.truncate w' = rt.truncate w \<and> (healthy w \<longrightarrow> healthy w') \<and> (\<exists>x. r = Ret x)
       \<and> (r = Ret (Inr ()) \<longrightarrow> (\<exists>v'. R v v' \<and> view w' tx v'))
       \<and> (\<forall>e \<in> refused. r = Ret (Inl e) \<longrightarrow> (\<nexists>v'. R v v'))
       \<and> (healthy w \<longrightarrow> (\<exists>v'. R v v') \<longrightarrow> r = Ret (Inr ()))
       \<and> (healthy w \<longrightarrow> refused \<noteq> {} \<longrightarrow> (\<nexists>v'. R v v') \<longrightarrow> (\<exists>e \<in> refused. r = Ret (Inl e)))) w)"

locale user_lookup =
  fixes users :: "('a rt_scheme) UserRepository"
    and db :: "'a rt_scheme \<Rightarrow> store \<Rightarrow> bool"
    and healthy :: "'a rt_scheme \<Rightarrow> bool"
  assumes find_by_email:
      "lookup_ok db healthy (users_FindByEmail users t e) (ErrUser user_ErrUserNotFound)
        (\<lambda>s. find_user_by_email s t e)"
    and find_by_id:
      "lookup_ok db healthy (users_FindByID users t i) (ErrUser user_ErrUserNotFound)
        (\<lambda>s. find_user_by_id s t i)"

locale session_lookup =
  fixes sessions :: "('a rt_scheme) SessionRepository"
    and db :: "'a rt_scheme \<Rightarrow> store \<Rightarrow> bool"
    and healthy :: "'a rt_scheme \<Rightarrow> bool"
  assumes find_by_token_hash:
      "lookup_ok db healthy (sessions_FindByTokenHash sessions h) (ErrSession session_ErrSessionNotFound)
        (\<lambda>s. find_session s h)"

text \<open>The whole persistence layer. \<open>frame\<close> says that the data do not depend on the
  clock, the random sources and the log. The errors in \<open>refused\<close> are the sentinel errors the ports
  document: they say that the write is impossible.\<close>

locale identity_store =
  user_lookup users db healthy + session_lookup sessions db healthy
  for users :: "('a rt_scheme) UserRepository" and sessions :: "('a rt_scheme) SessionRepository"
    and db :: "'a rt_scheme \<Rightarrow> store \<Rightarrow> bool" and healthy :: "'a rt_scheme \<Rightarrow> bool" +
  fixes uow :: "('a rt_scheme) UnitOfWork"
    and outbox :: "('a rt_scheme) OutboxRepository"
    and view :: "'a rt_scheme \<Rightarrow> Tx \<Rightarrow> store \<Rightarrow> bool"
    and rnd :: "time \<Rightarrow> time"
  assumes db_consistent: "db w s \<Longrightarrow> consistent s"
    and db_frame: "rt.more w' = rt.more w \<Longrightarrow> db w' s = db w s"
    and view_frame: "rt.more w' = rt.more w \<Longrightarrow> view w' tx s = view w tx s"
    and healthy_frame: "rt.more w' = rt.more w \<Longrightarrow> healthy w' = healthy w"
    and begin_law:
      "db w s \<Longrightarrow> wp (uow_Begin uow) (\<lambda>r w'. db w' s \<and> later w w' \<and> (\<exists>x. r = Ret x)
         \<and> (\<forall>tx. r = Ret (Inr tx) \<longrightarrow> view w' tx s)
         \<and> (healthy w \<longrightarrow> healthy w' \<and> (\<exists>tx. r = Ret (Inr tx)))) w"
    and commit_law:
      "db w s \<Longrightarrow> view w tx v \<Longrightarrow> wp (uow_Commit uow tx) (\<lambda>r w'. later w w' \<and> (\<exists>x. r = Ret x)
         \<and> (db w' s \<or> db w' v) \<and> (r = Ret (Inr ()) \<longrightarrow> db w' v)
         \<and> (healthy w \<longrightarrow> healthy w' \<and> r = Ret (Inr ()))) w"
    and rollback_law:
      "db w s \<Longrightarrow> wp (uow_Rollback uow tx) (\<lambda>r w'. db w' s \<and> later w w' \<and> (\<exists>x. r = Ret x)
         \<and> (healthy w \<longrightarrow> healthy w')) w"
    and save_user_law:
      "valid_user u \<Longrightarrow> write_ok db view healthy tx (users_SaveTx users tx u) {ErrUser user_ErrEmailTaken}
         (\<lambda>v v'. save_user rnd u v = Some v')"
    and save_session_law:
      "write_ok db view healthy tx (sessions_SaveTx sessions tx x) {}
         (\<lambda>v v'. save_session rnd x v = Some v')"
    and revoke_law:
      "write_ok db view healthy tx (sessions_RevokeTx sessions tx t i) {ErrSession session_ErrSessionNotFound}
         (\<lambda>v v'. \<exists>now. revoke_session t i now v = Some v')"
    and write_event_law:
      "write_ok db view healthy tx (outbox_WriteTx outbox tx e) {}
         (\<lambda>v v'. write_event rnd e v = Some v')"

end
