(* ===== verification/Argon2id.thy ===== *)
theory Argon2id
  imports Store
begin

text \<open>
  \<open>internal/infrastructure/argon2id\<close> and \<open>internal/infrastructure/tokens\<close>: password hashes in PHC string
  format and opaque session tokens. \<open>argon2.IDKey\<close> (golang.org/x/crypto) is a parameter \<open>kdf\<close>;
  \<open>None\<close> is a panic, and \<open>kdf_laws\<close> is what the code relies on: a key of the wanted length, when the numbers
  of passes and lanes and the length are not zero (nothing is assumed of a zero, on which it may panic).
  Every call is recorded in \<open>rt_kdf\<close>. The locales \<open>password_hasher\<close> and \<open>token_generator\<close> are the contracts
  of the ports \<open>user.PasswordHasher\<close> and \<open>session.TokenGenerator\<close>. Lemmas: a hash verifies against the
  password it was made from and against no password that the KDF maps to another key, \<open>Verify\<close> never
  fails on a hash that \<open>Hash\<close> produced, and tokens have 43 characters.
\<close>

subsection \<open>The key-derivation function\<close>

type_synonym argon2_kdf = "string \<Rightarrow> string \<Rightarrow> u32 \<Rightarrow> u32 \<Rightarrow> u8 \<Rightarrow> u32 \<Rightarrow> string option"

definition kdf_laws :: "argon2_kdf \<Rightarrow> bool" where
  "kdf_laws kdf = (\<forall>pw salt t m p n. t \<noteq> 0 \<and> p \<noteq> 0 \<and> n \<noteq> 0 \<longrightarrow>
     (\<exists>k. kdf pw salt t m p n = Some k \<and> length k = unat n))"

definition argon2_Version :: int where
  "argon2_Version = 19"

definition argon2_IDKey :: "argon2_kdf \<Rightarrow> string \<Rightarrow> string \<Rightarrow> u32 \<Rightarrow> u32 \<Rightarrow> u8 \<Rightarrow> u32 \<Rightarrow> ('a rt_scheme, string) go" where
  "argon2_IDKey kdf pw salt t m p n w =
    (case kdf pw salt t m p n of None \<Rightarrow> Panic ''argon2'' | Some k \<Rightarrow> Ret k,
     w\<lparr>rt_kdf := rt_kdf w @ [(unat t, unat m, unat p, unat n)]\<rparr>)"

lemma wp_argon2_IDKey [wp_simps]:
  "wp (argon2_IDKey kdf pw salt t m p n) Q w =
    Q (case kdf pw salt t m p n of None \<Rightarrow> Panic ''argon2'' | Some k \<Rightarrow> Ret k)
      (w\<lparr>rt_kdf := rt_kdf w @ [(unat t, unat m, unat p, unat n)]\<rparr>)"
  by (simp add: wp_def argon2_IDKey_def)

subsection \<open>The hasher\<close>

record Params =
  MemoryKiB :: u32
  Time :: u32
  Parallelism :: u8
  SaltLen :: u32
  KeyLen :: u32

definition argon2_Default :: Params where
  "argon2_Default = \<lparr>MemoryKiB = 64 * 1024, Time = 3, Parallelism = 1, SaltLen = 16, KeyLen = 32\<rparr>"

definition phc_string :: "Params \<Rightarrow> string \<Rightarrow> string \<Rightarrow> string" where
  "phc_string ps salt key =
    ''$argon2id$v='' @ itoa (nat argon2_Version) @ ''$m='' @ itoa (unat (MemoryKiB ps))
      @ '',t='' @ itoa (unat (Time ps)) @ '',p='' @ itoa (unat (Parallelism ps))
      @ ''$'' @ base64_EncodeToString std_alphabet salt @ ''$'' @ base64_EncodeToString std_alphabet key"

definition argon2_Hash :: "argon2_kdf \<Rightarrow> Params \<Rightarrow> string \<Rightarrow> ('a rt_scheme, error + PasswordHash) go" where
  "argon2_Hash kdf ps raw =
    (if length raw > PasswordMaxLen then ret (Inl (ErrOther ''argon2id: password exceeds max length''))
     else tryg (rand_Read (unat (SaltLen ps))) (\<lambda>e. ret (Inl e)) (\<lambda>salt.
       bindg (argon2_IDKey kdf raw salt (Time ps) (MemoryKiB ps) (Parallelism ps) (KeyLen ps)) (\<lambda>key.
         ret (Inr (NewPasswordHash (phc_string ps salt key))))))"

text \<open>\<open>Sscanf(s, "v=%d", &version)\<close> and \<open>Sscanf(s, "m=%d,t=%d,p=%d", &memory, &time, &parallelism)\<close>.\<close>

definition scan_version :: "string \<Rightarrow> int option" where
  "scan_version s = (case scan_lit ''v='' s of None \<Rightarrow> None | Some r \<Rightarrow> map_option fst (scan_int r))"

definition scan_params :: "string \<Rightarrow> (u32 \<times> u32 \<times> u8) option" where
  "scan_params s =
    (case scan_lit ''m='' s of None \<Rightarrow> None | Some r \<Rightarrow>
    (case scan_uint 32 r of None \<Rightarrow> None | Some (m, r) \<Rightarrow>
    (case scan_lit '',t='' r of None \<Rightarrow> None | Some r \<Rightarrow>
    (case scan_uint 32 r of None \<Rightarrow> None | Some (t, r) \<Rightarrow>
    (case scan_lit '',p='' r of None \<Rightarrow> None | Some r \<Rightarrow>
    (case scan_uint 8 r of None \<Rightarrow> None | Some (p, r) \<Rightarrow>
       Some (of_nat m, of_nat t, of_nat p)))))))"

record phc =
  phc_memory :: u32
  phc_time :: u32
  phc_parallelism :: u8
  phc_salt :: string
  phc_want :: string

text \<open>The checks of \<open>Verify\<close> before the KDF runs.\<close>

definition parse_phc :: "string \<Rightarrow> string + phc" where
  "parse_phc s =
    (let parts = strings_Split (CHR ''$'') s in
     if length parts \<noteq> 6 \<or> parts ! 1 \<noteq> ''argon2id'' then Inl ''argon2id: malformed hash''
     else if scan_version (parts ! 2) \<noteq> Some argon2_Version then Inl ''argon2id: unsupported version''
     else (case scan_params (parts ! 3) of None \<Rightarrow> Inl ''argon2id: malformed params'' | Some (m, t, p) \<Rightarrow>
          (case base64_DecodeString std_alphabet (parts ! 4) of None \<Rightarrow> Inl ''argon2id: malformed salt'' | Some salt \<Rightarrow>
          (case base64_DecodeString std_alphabet (parts ! 5) of None \<Rightarrow> Inl ''argon2id: malformed key'' | Some want \<Rightarrow>
             Inr \<lparr>phc_memory = m, phc_time = t, phc_parallelism = p, phc_salt = salt, phc_want = want\<rparr>))))"

text \<open>\<open>subtle.ConstantTimeCompare(got, want) == 1\<close> is equality.\<close>

definition argon2_Verify :: "argon2_kdf \<Rightarrow> PasswordHash \<Rightarrow> string \<Rightarrow> ('a rt_scheme, error + bool) go" where
  "argon2_Verify kdf h raw =
    (if length raw > PasswordMaxLen then ret (Inr False)
     else (case parse_phc (ph_String h) of
       Inl msg \<Rightarrow> ret (Inl (ErrOther msg))
     | Inr c \<Rightarrow> bindg (argon2_IDKey kdf raw (phc_salt c) (phc_time c) (phc_memory c) (phc_parallelism c)
                        (of_nat (length (phc_want c)))) (\<lambda>got. ret (Inr (got = phc_want c)))))"

definition argon2_Hasher :: "argon2_kdf \<Rightarrow> Params \<Rightarrow> ('a rt_scheme) PasswordHasher" where
  "argon2_Hasher kdf ps = \<lparr>hasher_Hash = argon2_Hash kdf ps, hasher_Verify = argon2_Verify kdf\<rparr>"

subsection \<open>Tokens\<close>

definition opaque_NewToken :: "('a rt_scheme, error + Token) go" where
  "opaque_NewToken =
    tryg (rand_Read 32) (\<lambda>e. ret (Inl e)) (\<lambda>b.
      ret (case session_NewToken (base64_EncodeToString url_alphabet b) of
             Inl e \<Rightarrow> Inl (ErrSession e) | Inr t \<Rightarrow> Inr t))"

definition opaque_Generator :: "('a rt_scheme) TokenGenerator" where
  "opaque_Generator = \<lparr>tokens_NewToken = opaque_NewToken\<rparr>"

subsection \<open>The strings that \<open>Hash\<close> produces are the strings that \<open>Verify\<close> reads\<close>

lemma no_dollar: "CHR ''$'' \<notin> set (itoa n)" "CHR ''$'' \<notin> set (base64_EncodeToString std_alphabet s)"
proof -
  show "CHR ''$'' \<notin> set (itoa n)"
    using itoa_digits [of n] by (auto simp: list_all_iff digit_def)
  show "CHR ''$'' \<notin> set (base64_EncodeToString std_alphabet s)"
    using base64_set [OF good_std, of s] by (auto simp: std_alphabet_def)
qed

lemma split_phc:
  "strings_Split (CHR ''$'') (phc_string ps salt key) =
    [[], ''argon2id'', ''v='' @ itoa (nat argon2_Version),
     ''m='' @ itoa (unat (MemoryKiB ps)) @ '',t='' @ itoa (unat (Time ps)) @ '',p='' @ itoa (unat (Parallelism ps)),
     base64_EncodeToString std_alphabet salt, base64_EncodeToString std_alphabet key]"
proof -
  have s: "strings_Split (CHR ''$'') (a @ CHR ''$'' # b) = a # strings_Split (CHR ''$'') b"
    if "CHR ''$'' \<notin> set a" for a b using that by (rule strings_Split_append)
  let ?m = "''m='' @ itoa (unat (MemoryKiB ps)) @ '',t='' @ itoa (unat (Time ps)) @ '',p='' @ itoa (unat (Parallelism ps))"
  have e: "phc_string ps salt key = [] @ CHR ''$'' # ''argon2id'' @ CHR ''$'' # (''v='' @ itoa (nat argon2_Version))
     @ CHR ''$'' # ?m @ CHR ''$'' # base64_EncodeToString std_alphabet salt @ CHR ''$''
     # base64_EncodeToString std_alphabet key"
    by (simp add: phc_string_def)
  have d: "CHR ''$'' \<notin> set []" "CHR ''$'' \<notin> set ''argon2id''"
    "CHR ''$'' \<notin> set (''v='' @ itoa (nat argon2_Version))" "CHR ''$'' \<notin> set ?m"
    by (simp_all add: no_dollar)
  show ?thesis
    by (simp only: e s [OF d(1)] s [OF d(2)] s [OF d(3)] s [OF d(4)] s [OF no_dollar(2)]
        strings_Split_single [OF no_dollar(2)])
qed

lemma scan_phc_version: "scan_version (''v='' @ itoa (nat argon2_Version)) = Some argon2_Version"
proof -
  have "scan_int (itoa (nat argon2_Version) @ []) = Some (int (nat argon2_Version), [])"
    by (rule scan_int_itoa) (simp_all add: argon2_Version_def)
  then show ?thesis unfolding scan_version_def by (simp only: scan_lit_append) (simp add: argon2_Version_def)
qed

lemma scan_phc_params:
  "scan_params (''m='' @ itoa (unat m) @ '',t='' @ itoa (unat t) @ '',p='' @ itoa (unat p)) = Some (m, t, p)"
proof -
  have "scan_uint 32 (itoa (unat (x :: u32)) @ CHR '','' # r) = Some (unat x, CHR '','' # r)" for x r
    using unsigned_less [of x, where 'a = nat] by (intro scan_uint_itoa) (simp_all add: digit_def)
  moreover have "scan_uint 8 (itoa (unat p)) = Some (unat p, [])"
    using scan_uint_itoa [of "unat p" 8 "[]"] unsigned_less [of p, where 'a = nat] by simp
  moreover have "scan_lit ''m='' (''m='' @ r) = Some r" "scan_lit '',t='' (CHR '','' # ''t='' @ r) = Some r"
    "scan_lit '',p='' (CHR '','' # ''p='' @ r) = Some r" for r
    by simp_all
  ultimately show ?thesis
    by (simp add: scan_params_def)
qed

lemma parse_phc_string:
  "parse_phc (phc_string ps salt key) =
    Inr \<lparr>phc_memory = MemoryKiB ps, phc_time = Time ps, phc_parallelism = Parallelism ps, phc_salt = salt, phc_want = key\<rparr>"
  unfolding parse_phc_def split_phc Let_def
  using scan_phc_version scan_phc_params [of "MemoryKiB ps" "Time ps" "Parallelism ps"]
  by (simp add: base64_roundtrip [OF good_std] numeral_eq_Suc)

subsection \<open>The contracts\<close>

text \<open>\<open>verifies h raw\<close> is the answer of \<open>Verify\<close>, \<open>cost h raw\<close> the calls of the KDF it makes, and \<open>usable h\<close>
  says that \<open>h\<close> is a hash \<open>Verify\<close> can read.\<close>

locale password_hasher =
  fixes hasher :: "('a rt_scheme) PasswordHasher"
    and verifies :: "PasswordHash \<Rightarrow> string \<Rightarrow> bool"
    and cost :: "PasswordHash \<Rightarrow> string \<Rightarrow> kdf_call list"
    and usable :: "PasswordHash \<Rightarrow> bool"
  assumes hash_law: "wp (hasher_Hash hasher raw) (\<lambda>r w'. quiet w w' \<and> (\<exists>x. r = Ret x)
        \<and> (\<forall>h. r = Ret (Inr h) \<longrightarrow> usable h \<and> verifies h raw)) w"
    and verify_law: "usable h \<Longrightarrow> wp (hasher_Verify hasher h raw) (\<lambda>r w'. quiet w w'
        \<and> r = Ret (Inr (verifies h raw)) \<and> rt_kdf w' = rt_kdf w @ cost h raw) w"
    and verify_quiet: "wp (hasher_Verify hasher h raw) (\<lambda>r w'. quiet w w'
        \<and> (r = Ret (Inr True) \<longrightarrow> verifies h raw)) w"

locale token_generator =
  fixes tokens :: "('a rt_scheme) TokenGenerator"
    and keeps :: "'a rt_scheme \<Rightarrow> 'a rt_scheme \<Rightarrow> bool"
  assumes token_law: "wp (tokens_NewToken tokens) (\<lambda>r w'. keeps w w' \<and> (\<exists>x. r = Ret x)
        \<and> (\<forall>t. r = Ret (Inr t) \<longrightarrow> 32 \<le> length (token_String t) \<and> length (token_String t) \<le> 128)) w"

subsection \<open>Argon2id is a password hasher\<close>

definition argon2_verifies :: "argon2_kdf \<Rightarrow> PasswordHash \<Rightarrow> string \<Rightarrow> bool" where
  "argon2_verifies kdf h raw = (length raw \<le> PasswordMaxLen \<and>
    (case parse_phc (ph_String h) of Inl _ \<Rightarrow> False
     | Inr c \<Rightarrow> kdf raw (phc_salt c) (phc_time c) (phc_memory c) (phc_parallelism c)
                  (of_nat (length (phc_want c))) = Some (phc_want c)))"

definition argon2_cost :: "PasswordHash \<Rightarrow> string \<Rightarrow> kdf_call list" where
  "argon2_cost h raw = (if length raw > PasswordMaxLen then [] else
    (case parse_phc (ph_String h) of Inl _ \<Rightarrow> []
     | Inr c \<Rightarrow> [(unat (phc_time c), unat (phc_memory c), unat (phc_parallelism c),
                   unat (of_nat (length (phc_want c)) :: u32))]))"

definition argon2_usable :: "PasswordHash \<Rightarrow> bool" where
  "argon2_usable h = (case parse_phc (ph_String h) of Inl _ \<Rightarrow> False
     | Inr c \<Rightarrow> phc_time c \<noteq> 0 \<and> phc_parallelism c \<noteq> 0 \<and> of_nat (length (phc_want c)) \<noteq> (0 :: u32))"

locale argon2id =
  fixes kdf :: argon2_kdf and ps :: Params
  assumes laws: "kdf_laws kdf"
    and params: "Time ps \<noteq> 0" "Parallelism ps \<noteq> 0" "KeyLen ps \<noteq> 0"

sublocale argon2id \<subseteq> hasher: password_hasher "argon2_Hasher kdf ps" "argon2_verifies kdf" argon2_cost argon2_usable
proof
  fix raw h and w :: "'a rt_scheme"
  show "wp (hasher_Hash (argon2_Hasher kdf ps) raw) (\<lambda>r w'. quiet w w' \<and> (\<exists>x. r = Ret x)
        \<and> (\<forall>h. r = Ret (Inr h) \<longrightarrow> argon2_usable h \<and> argon2_verifies kdf h raw)) w"
  proof (cases "rt_rand w (rt_rand_i w)")
    case None
    then show ?thesis by (simp add: argon2_Hasher_def argon2_Hash_def wp_simps)
  next
    case (Some f)
    let ?salt = "map f [0..<unat (SaltLen ps)]"
    obtain k where k: "kdf raw ?salt (Time ps) (MemoryKiB ps) (Parallelism ps) (KeyLen ps) = Some k"
      "length k = unat (KeyLen ps)"
      using laws params unfolding kdf_laws_def by blast
    then show ?thesis
      using params Some
      by (simp add: argon2_Hasher_def argon2_Hash_def wp_simps argon2_usable_def argon2_verifies_def
          NewPasswordHash_def parse_phc_string)
  qed
  show "wp (hasher_Verify (argon2_Hasher kdf ps) h raw) (\<lambda>r w'. quiet w w'
        \<and> (r = Ret (Inr True) \<longrightarrow> argon2_verifies kdf h raw)) w"
    by (auto simp: argon2_Hasher_def argon2_Verify_def argon2_verifies_def wp_simps split: sum.splits option.splits)
  assume u: "argon2_usable h"
  then obtain c where c: "parse_phc (ph_String h) = Inr c" "phc_time c \<noteq> 0" "phc_parallelism c \<noteq> 0"
    "of_nat (length (phc_want c)) \<noteq> (0 :: u32)"
    by (auto simp: argon2_usable_def split: sum.splits)
  obtain k where "kdf raw (phc_salt c) (phc_time c) (phc_memory c) (phc_parallelism c)
      (of_nat (length (phc_want c))) = Some k"
    using laws c unfolding kdf_laws_def by blast
  with c show "wp (hasher_Verify (argon2_Hasher kdf ps) h raw) (\<lambda>r w'. quiet w w'
        \<and> r = Ret (Inr (argon2_verifies kdf h raw)) \<and> rt_kdf w' = rt_kdf w @ argon2_cost h raw) w"
    by (simp add: argon2_Hasher_def argon2_Verify_def argon2_verifies_def argon2_cost_def wp_simps)
qed

text \<open>A function with the interface of the KDF, for examples.\<close>

definition sample_kdf :: argon2_kdf where
  "sample_kdf pw salt t m p n =
    (if t = 0 \<or> p = 0 \<or> n = 0 then None
     else Some (take (unat n) (salt @ pw @ replicate (unat n) (CHR 0x00))))"

lemma sample_kdf_laws: "kdf_laws sample_kdf"
  by (auto simp: kdf_laws_def sample_kdf_def min_def)

interpretation sample_argon2id: argon2id sample_kdf argon2_Default
  by unfold_locales (simp_all add: sample_kdf_laws argon2_Default_def)

interpretation opaque: token_generator opaque_Generator "\<lambda>w w'. quiet w w'"
  by unfold_locales
     (auto simp: opaque_Generator_def opaque_NewToken_def wp_simps session_NewToken_def split: option.splits sum.splits)


subsection \<open>Properties\<close>

text \<open>The world in which examples start: the clock advances by a second per reading, the random source
  yields the same bytes at every reading but the first of them counts the readings, and identifiers
  count from one.\<close>

definition sample_rt :: rt where
  "sample_rt = \<lparr>rt_clock = (\<lambda>i. 1780000000000000000 + int i * 1000000000), rt_clock_i = 0,
     rt_rand = (\<lambda>i. Some (\<lambda>j. if j = 0 then char_of i else char_of (j + 7))), rt_rand_i = 0,
     rt_uuids = (\<lambda>i. Some (of_nat (i + 1))), rt_uuids_i = 0, rt_logs = [], rt_kdf = []\<rparr>"

text \<open>C23: what \<open>Hash\<close> returns is a PHC string that \<open>Verify\<close> accepts for the same password, and for another
  password exactly when the KDF maps it to the same key under the same salt and parameters; a password
  of more than 256 bytes is never accepted. \<open>Verify\<close> neither fails nor panics on such a string, in
  whatever state it is called.\<close>

theorem argon2_hash_verify:
  fixes w w' :: "'a rt_scheme" and v :: "'b rt_scheme"
  assumes "kdf_laws kdf" "Time ps \<noteq> 0" "Parallelism ps \<noteq> 0" "KeyLen ps \<noteq> 0" "argon2_Hash kdf ps raw w = (Ret (Inr h), w')"
  shows "\<exists>salt key. h = PasswordHash (phc_string ps salt key) \<and> length salt = unat (SaltLen ps)
    \<and> kdf raw salt (Time ps) (MemoryKiB ps) (Parallelism ps) (KeyLen ps) = Some key
    \<and> (\<exists>v'. argon2_Verify kdf h raw v = (Ret (Inr True), v'))
    \<and> (\<forall>raw'. \<exists>v'. argon2_Verify kdf h raw' v =
         (Ret (Inr (length raw' \<le> 256 \<and> kdf raw' salt (Time ps) (MemoryKiB ps) (Parallelism ps) (KeyLen ps) = Some key)), v'))"
proof -
  from assms(5) obtain f where len: "length raw \<le> 256" and f: "rt_rand w (rt_rand_i w) = Some f"
    by (auto simp: argon2_Hash_def ret_def tryg_def bindg_def rand_Read_def PasswordMaxLen_def
        split: if_splits option.splits)
  define salt where "salt = map f [0..<unat (SaltLen ps)]"
  obtain key where key: "kdf raw salt (Time ps) (MemoryKiB ps) (Parallelism ps) (KeyLen ps) = Some key"
    "length key = unat (KeyLen ps)"
    using assms(1-4) unfolding kdf_laws_def by blast
  from assms(5) len f key(1) have h: "h = PasswordHash (phc_string ps salt key)"
    by (simp add: argon2_Hash_def ret_def tryg_def bindg_def rand_Read_def argon2_IDKey_def PasswordMaxLen_def
        NewPasswordHash_def flip: salt_def)
  have verify: "\<exists>v'. argon2_Verify kdf h raw' v =
      (Ret (Inr (length raw' \<le> 256 \<and> kdf raw' salt (Time ps) (MemoryKiB ps) (Parallelism ps) (KeyLen ps) = Some key)), v')"
    for raw'
  proof -
    obtain k where "kdf raw' salt (Time ps) (MemoryKiB ps) (Parallelism ps) (KeyLen ps) = Some k"
      using assms(1-4) unfolding kdf_laws_def by blast
    with key(2) show ?thesis
      by (simp add: argon2_Verify_def h parse_phc_string ret_def bindg_def argon2_IDKey_def PasswordMaxLen_def)
  qed
  from verify [of raw] len key(1) have "\<exists>v'. argon2_Verify kdf h raw v = (Ret (Inr True), v')" by simp
  moreover have "length salt = unat (SaltLen ps)" by (simp add: salt_def)
  ultimately show ?thesis
    using h key(1) verify by (intro exI [where x = salt] exI [where x = key] conjI allI)
qed

theorem argon2_hash_verify_witness:
  "\<exists>h. fst (argon2_Hash sample_kdf argon2_Default ''correct horse battery'' sample_rt) = Ret (Inr h)
    \<and> fst (argon2_Verify sample_kdf h ''correct horse battery'' sample_rt) = Ret (Inr True)"
proof -
  obtain h w' where h: "argon2_Hash sample_kdf argon2_Default ''correct horse battery'' sample_rt = (Ret (Inr h), w')"
    by (simp add: argon2_Hash_def PasswordMaxLen_def tryg_def bindg_def ret_def rand_Read_def argon2_IDKey_def
        sample_rt_def sample_kdf_def argon2_Default_def)
  then show ?thesis
    using argon2_hash_verify [OF sample_kdf_laws _ _ _ h, of sample_rt]
    by (fastforce simp: argon2_Default_def)
qed

text \<open>C25: a token of the generator is the base64url form of 32 random bytes: 43 characters, all of them
  letters, digits, \<open>-\<close> or \<open>_\<close>, from which the bytes can be read back (so distinct bytes give distinct
  tokens). It is accepted by \<open>session.NewToken\<close>, and the call fails only when the random source does.\<close>

theorem opaque_token_shape:
  fixes w :: "'a rt_scheme"
  shows "\<exists>w'. opaque_NewToken w =
    (Ret (case rt_rand w (rt_rand_i w) of
       None \<Rightarrow> Inl (ErrOther ''crypto/rand'')
     | Some f \<Rightarrow> Inr (Token (base64_EncodeToString url_alphabet (map f [0..<32])))), w')
    \<and> quiet w w'
    \<and> length (base64_EncodeToString url_alphabet (map g [0..<32])) = 43
    \<and> set (base64_EncodeToString url_alphabet (map g [0..<32])) \<subseteq> set url_alphabet
    \<and> base64_DecodeString url_alphabet (base64_EncodeToString url_alphabet (map g [0..<32])) = Some (map g [0..<32])"
  using base64_set [OF good_url] base64_roundtrip [OF good_url]
  by (simp add: opaque_NewToken_def tryg_def bindg_def ret_def rand_Read_def session_NewToken_def split: option.split)

end
