(* ===== verification/Postgres.thy ===== *)
theory Postgres
  imports Store
begin

text \<open>
  \<open>internal/infrastructure/postgres\<close>: the unit of work and the three repositories, over a PostgreSQL
  server that is reached through pgx. Neither is part of the repository, so they are a parameter: the
  record \<open>pgx\<close> holds the five calls the adapters make, over an opaque server state. The
  adapters build statements as data (\<open>sql\<close>, \<open>query\<close>), the way the code builds them with squirrel.

  \<open>exec_sql\<close> and \<open>run_query\<close> say what these statements mean on the tables of the migrations; they are
  used only in the laws of the locale \<open>pgx_driver\<close>, the documented behaviour of the server
  (atomic transactions, unique and foreign keys, errors at any time). \<open>sublocale\<close> shows that the
  adapters then implement the abstract store, and \<open>ref_pgx\<close> is a concrete server with a fault
  schedule that satisfies the laws.
\<close>

subsection \<open>Statements\<close>

datatype sqlval = VUuid uuid | VText string | VBytea string | VTime time | VNull

datatype expr = CoalesceNow string

datatype sql =
    SqlInsert string "(string \<times> sqlval) list"
  | SqlUpdate string string expr "(string \<times> sqlval) list"

datatype query = SqlSelect "string list" string "(string \<times> sqlval) list"

datatype pgerr = ErrNoRows | ErrTxClosed | PgError string | PgOther string

definition pg_error :: "pgerr \<Rightarrow> error" where
  "pg_error e = ErrOther (case e of
     ErrNoRows \<Rightarrow> ''no rows in result set'' | ErrTxClosed \<Rightarrow> ''tx is closed''
   | PgError c \<Rightarrow> ''SQLSTATE '' @ c | PgOther m \<Rightarrow> m)"

record 'p pgx =
  pool_Begin :: "'p \<Rightarrow> (pgerr + nat) \<times> 'p"
  tx_Commit :: "nat \<Rightarrow> 'p \<Rightarrow> (pgerr + unit) \<times> 'p"
  tx_Rollback :: "nat \<Rightarrow> 'p \<Rightarrow> (pgerr + unit) \<times> 'p"
  tx_Exec :: "nat \<Rightarrow> sql \<Rightarrow> 'p \<Rightarrow> (pgerr + nat) \<times> 'p"
  pool_QueryRow :: "query \<Rightarrow> 'p \<Rightarrow> (pgerr + sqlval list) \<times> 'p"

text \<open>The production world: the runtime, the database server and the cache server.\<close>

record ('p, 'k) world = rt +
  w_pg :: 'p
  w_kv :: 'k

definition pg_call :: "('p \<Rightarrow> 'x \<times> 'p) \<Rightarrow> (('p, 'k) world, 'x) go" where
  "pg_call f w = (case f (w_pg w) of (x, p) \<Rightarrow> (Ret x, w\<lparr>w_pg := p\<rparr>))"

lemma wp_pg_call [wp_simps]:
  "wp (pg_call f) Q w = (case f (w_pg w) of (x, p) \<Rightarrow> Q (Ret x) (w\<lparr>w_pg := p\<rparr>))"
  by (simp add: wp_def pg_call_def split: prod.splits)

subsection \<open>The unit of work\<close>

definition txOf :: "Tx \<Rightarrow> error + nat" where
  "txOf t = (case InnerTx t of
     TxNil \<Rightarrow> Inl (ErrOther ''postgres: empty tx token'')
   | TxPgx h \<Rightarrow> Inr h
   | TxStruct \<Rightarrow> Inl (ErrOther ''postgres: foreign tx token''))"

definition pg_Begin :: "'p pgx \<Rightarrow> (('p, 'k) world, error + Tx) go" where
  "pg_Begin drv = tryg (pg_call (pool_Begin drv)) (\<lambda>e. ret (Inl (pg_error e))) (\<lambda>t. ret (Inr (NewTx (TxPgx t))))"

definition pg_Commit :: "'p pgx \<Rightarrow> Tx \<Rightarrow> (('p, 'k) world, error + unit) go" where
  "pg_Commit drv t = tryg (ret (txOf t)) (\<lambda>e. ret (Inl e)) (\<lambda>pgxT.
     tryg (pg_call (tx_Commit drv pgxT)) (\<lambda>e. ret (Inl (pg_error e))) (\<lambda>_. ret (Inr ())))"

definition pg_Rollback :: "'p pgx \<Rightarrow> Tx \<Rightarrow> (('p, 'k) world, error + unit) go" where
  "pg_Rollback drv t = tryg (ret (txOf t)) (\<lambda>e. ret (Inl e)) (\<lambda>pgxT.
     tryg (pg_call (tx_Rollback drv pgxT))
       (\<lambda>e. if e \<noteq> ErrTxClosed then ret (Inl (pg_error e)) else ret (Inr ()))
       (\<lambda>_. ret (Inr ())))"

definition pg_UnitOfWork :: "'p pgx \<Rightarrow> (('p, 'k) world) UnitOfWork" where
  "pg_UnitOfWork drv = \<lparr>uow_Begin = pg_Begin drv, uow_Commit = pg_Commit drv, uow_Rollback = pg_Rollback drv\<rparr>"

subsection \<open>Users\<close>

definition uniqueViolationCode :: string where
  "uniqueViolationCode = ''23505''"

definition insert_user :: "User \<Rightarrow> sql" where
  "insert_user u = SqlInsert ''identity.users''
    [(''id'', VUuid (user_id u)), (''tenant_id'', VUuid (tenant_UUID (user_tenantID u))),
     (''email'', VText (email_String (user_email u))), (''password_hash'', VText (ph_String (user_passwordHash u))),
     (''status'', VText (user_status u)), (''created_at'', VTime (user_createdAt u)),
     (''updated_at'', VTime (user_updatedAt u))]"

definition pg_users_SaveTx :: "'p pgx \<Rightarrow> Tx \<Rightarrow> User \<Rightarrow> (('p, 'k) world, error + unit) go" where
  "pg_users_SaveTx drv t u = tryg (ret (txOf t)) (\<lambda>e. ret (Inl e)) (\<lambda>tx.
     tryg (pg_call (tx_Exec drv tx (insert_user u)))
       (\<lambda>e. if e = PgError uniqueViolationCode then ret (Inl (ErrUser user_ErrEmailTaken))
            else ret (Inl (pg_error e)))
       (\<lambda>_. ret (Inr ())))"

definition user_columns :: "string list" where
  "user_columns = [''id'', ''tenant_id'', ''email'', ''password_hash'', ''status'', ''created_at'', ''updated_at'']"

definition hydrate_user :: "sqlval list \<Rightarrow> error + User" where
  "hydrate_user vals = (case vals of
     [VUuid uid, VUuid tid, VText emailStr, VText hashStr, VText statusStr, VTime createdAt, VTime updatedAt] \<Rightarrow>
       (case NewEmail emailStr of
          Inl e \<Rightarrow> Inl (ErrUser e)
        | Inr em \<Rightarrow> Inr (user_Hydrate uid (tenant_NewID tid) em (NewPasswordHash hashStr) statusStr createdAt updatedAt))
   | _ \<Rightarrow> Inl (ErrOther ''scan''))"

definition pg_scanOne :: "'p pgx \<Rightarrow> query \<Rightarrow> (('p, 'k) world, error + User) go" where
  "pg_scanOne drv q = tryg (pg_call (pool_QueryRow drv q))
     (\<lambda>e. if e = ErrNoRows then ret (Inl (ErrUser user_ErrUserNotFound)) else ret (Inl (pg_error e)))
     (\<lambda>vals. ret (hydrate_user vals))"

definition pg_users_FindByEmail :: "'p pgx \<Rightarrow> tenant_ID \<Rightarrow> Email \<Rightarrow> (('p, 'k) world, error + User) go" where
  "pg_users_FindByEmail drv t email = pg_scanOne drv (SqlSelect user_columns ''identity.users''
     [(''tenant_id'', VUuid (tenant_UUID t)), (''email'', VText (email_String email))])"

definition pg_users_FindByID :: "'p pgx \<Rightarrow> tenant_ID \<Rightarrow> uuid \<Rightarrow> (('p, 'k) world, error + User) go" where
  "pg_users_FindByID drv t i = pg_scanOne drv (SqlSelect user_columns ''identity.users''
     [(''tenant_id'', VUuid (tenant_UUID t)), (''id'', VUuid i)])"

definition pg_UserRepository :: "'p pgx \<Rightarrow> (('p, 'k) world) UserRepository" where
  "pg_UserRepository drv = \<lparr>users_SaveTx = pg_users_SaveTx drv, users_FindByEmail = pg_users_FindByEmail drv,
     users_FindByID = pg_users_FindByID drv\<rparr>"

subsection \<open>Sessions\<close>

definition insert_session :: "Session \<Rightarrow> sql" where
  "insert_session s = SqlInsert ''identity.sessions''
    [(''id'', VUuid (session_id s)), (''tenant_id'', VUuid (tenant_UUID (session_tenantID s))),
     (''user_id'', VUuid (session_userID s)), (''token_hash'', VBytea (session_tokenHash s)),
     (''created_at'', VTime (session_createdAt s)), (''expires_at'', VTime (session_expiresAt s))]"

definition pg_sessions_SaveTx :: "'p pgx \<Rightarrow> Tx \<Rightarrow> Session \<Rightarrow> (('p, 'k) world, error + unit) go" where
  "pg_sessions_SaveTx drv t s = tryg (ret (txOf t)) (\<lambda>e. ret (Inl e)) (\<lambda>tx.
     tryg (pg_call (tx_Exec drv tx (insert_session s))) (\<lambda>e. ret (Inl (pg_error e))) (\<lambda>_. ret (Inr ())))"

definition scan_time_opt :: "sqlval \<Rightarrow> (time option) option" where
  "scan_time_opt v = (case v of VNull \<Rightarrow> Some None | VTime t \<Rightarrow> Some (Some t) | _ \<Rightarrow> None)"

definition hydrate_session :: "sqlval list \<Rightarrow> error + Session" where
  "hydrate_session vals = (case vals of
     [VUuid sid, VUuid tid, VUuid uid, VBytea h, VTime createdAt, VTime expiresAt, rv] \<Rightarrow>
       (case scan_time_opt rv of
          None \<Rightarrow> Inl (ErrOther ''scan'')
        | Some revokedAt \<Rightarrow> Inr (session_Hydrate sid (tenant_NewID tid) uid h createdAt expiresAt revokedAt))
   | _ \<Rightarrow> Inl (ErrOther ''scan''))"

definition pg_sessions_FindByTokenHash :: "'p pgx \<Rightarrow> string \<Rightarrow> (('p, 'k) world, error + Session) go" where
  "pg_sessions_FindByTokenHash drv tokenHash =
    tryg (pg_call (pool_QueryRow drv (SqlSelect
        [''id'', ''tenant_id'', ''user_id'', ''token_hash'', ''created_at'', ''expires_at'', ''revoked_at'']
        ''identity.sessions'' [(''token_hash'', VBytea tokenHash)])))
     (\<lambda>e. if e = ErrNoRows then ret (Inl (ErrSession session_ErrSessionNotFound)) else ret (Inl (pg_error e)))
     (\<lambda>vals. ret (hydrate_session vals))"

definition pg_sessions_RevokeTx :: "'p pgx \<Rightarrow> Tx \<Rightarrow> tenant_ID \<Rightarrow> uuid \<Rightarrow> (('p, 'k) world, error + unit) go" where
  "pg_sessions_RevokeTx drv t ten i = tryg (ret (txOf t)) (\<lambda>e. ret (Inl e)) (\<lambda>tx.
     tryg (pg_call (tx_Exec drv tx (SqlUpdate ''identity.sessions'' ''revoked_at'' (CoalesceNow ''revoked_at'')
             [(''tenant_id'', VUuid (tenant_UUID ten)), (''id'', VUuid i)])))
       (\<lambda>e. ret (Inl (pg_error e)))
       (\<lambda>rowsAffected. if rowsAffected = 0 then ret (Inl (ErrSession session_ErrSessionNotFound))
                       else ret (Inr ())))"

definition pg_SessionRepository :: "'p pgx \<Rightarrow> (('p, 'k) world) SessionRepository" where
  "pg_SessionRepository drv = \<lparr>sessions_SaveTx = pg_sessions_SaveTx drv,
     sessions_FindByTokenHash = pg_sessions_FindByTokenHash drv, sessions_RevokeTx = pg_sessions_RevokeTx drv\<rparr>"

subsection \<open>The outbox\<close>

text \<open>The payload column is \<open>JSONB\<close>, whose text Postgres normalises when it is read; the model keeps the bytes that are sent, and
  no statement of the program reads them back.\<close>

definition insert_event :: "Event \<Rightarrow> sql" where
  "insert_event ev = SqlInsert ''identity.outbox_events''
    [(''id'', VUuid (event_id ev)), (''tenant_id'', VUuid (tenant_UUID (event_tenantID ev))),
     (''aggregate_type'', VText (event_aggregateType ev)), (''aggregate_id'', VUuid (event_aggregateID ev)),
     (''event_type'', VText (event_eventType ev)), (''payload'', VBytea (event_payload ev)),
     (''created_at'', VTime (event_createdAt ev))]"

definition pg_outbox_WriteTx :: "'p pgx \<Rightarrow> Tx \<Rightarrow> Event \<Rightarrow> (('p, 'k) world, error + unit) go" where
  "pg_outbox_WriteTx drv t ev = tryg (ret (txOf t)) (\<lambda>e. ret (Inl e)) (\<lambda>tx.
     tryg (pg_call (tx_Exec drv tx (insert_event ev))) (\<lambda>e. ret (Inl (pg_error e))) (\<lambda>_. ret (Inr ())))"

definition pg_OutboxRepository :: "'p pgx \<Rightarrow> (('p, 'k) world) OutboxRepository" where
  "pg_OutboxRepository drv = \<lparr>outbox_WriteTx = pg_outbox_WriteTx drv\<rparr>"


subsection \<open>What the statements mean on the tables of the migrations\<close>

type_synonym row = "(string \<times> sqlval) list"
type_synonym tables = "string \<Rightarrow> row list"

definition table_columns :: "string \<Rightarrow> string list" where
  "table_columns t =
    (if t = ''identity.users'' then user_columns
     else if t = ''identity.sessions'' then
       [''id'', ''tenant_id'', ''user_id'', ''token_hash'', ''created_at'', ''expires_at'', ''revoked_at'']
     else if t = ''identity.outbox_events'' then
       [''id'', ''tenant_id'', ''aggregate_type'', ''aggregate_id'', ''event_type'', ''payload'', ''created_at'',
        ''published_at'']
     else [])"

definition unique_keys :: "string \<Rightarrow> string list list" where
  "unique_keys t =
    (if t = ''identity.users'' then [[''id''], [''tenant_id'', ''email'']]
     else if t = ''identity.sessions'' then [[''id''], [''token_hash'']]
     else if t = ''identity.outbox_events'' then [[''id'']]
     else [])"

text \<open>\<open>(column, referenced table, referenced column)\<close>\<close>

definition foreign_keys :: "string \<Rightarrow> (string \<times> string \<times> string) list" where
  "foreign_keys t = (if t = ''identity.sessions'' then [(''user_id'', ''identity.users'', ''id'')] else [])"

definition col :: "row \<Rightarrow> string \<Rightarrow> sqlval" where
  "col r c = (case map_of r c of None \<Rightarrow> VNull | Some v \<Rightarrow> v)"

definition stored :: "(time \<Rightarrow> time) \<Rightarrow> sqlval \<Rightarrow> sqlval" where
  "stored rnd v = (case v of VTime t \<Rightarrow> VTime (rnd t) | _ \<Rightarrow> v)"

definition new_row :: "(time \<Rightarrow> time) \<Rightarrow> string \<Rightarrow> (string \<times> sqlval) list \<Rightarrow> row" where
  "new_row rnd t cvs = map (\<lambda>c. (c, stored rnd (col cvs c))) (table_columns t)"

definition violates_unique :: "tables \<Rightarrow> string \<Rightarrow> row \<Rightarrow> bool" where
  "violates_unique db t r =
    list_ex (\<lambda>key. list_ex (\<lambda>r'. map (col r') key = map (col r) key) (db t)) (unique_keys t)"

definition violates_foreign :: "tables \<Rightarrow> string \<Rightarrow> row \<Rightarrow> bool" where
  "violates_foreign db t r =
    list_ex (\<lambda>(c, t', c'). \<not> list_ex (\<lambda>r'. col r' c' = col r c) (db t')) (foreign_keys t)"

definition row_matches :: "(string \<times> sqlval) list \<Rightarrow> row \<Rightarrow> bool" where
  "row_matches conds r = list_all (\<lambda>(c, v). col r c = v) conds"

fun eval_expr :: "time \<Rightarrow> expr \<Rightarrow> row \<Rightarrow> sqlval" where
  "eval_expr now (CoalesceNow c) r = (if col r c = VNull then VTime now else col r c)"

definition set_col :: "string \<Rightarrow> sqlval \<Rightarrow> row \<Rightarrow> row" where
  "set_col c v r = map (\<lambda>(c', v'). if c' = c then (c', v) else (c', v')) r"

fun exec_sql :: "(time \<Rightarrow> time) \<Rightarrow> time \<Rightarrow> sql \<Rightarrow> tables \<Rightarrow> pgerr + nat \<times> tables" where
  "exec_sql rnd now (SqlInsert t cvs) db =
    (let r = new_row rnd t cvs in
     if violates_unique db t r then Inl (PgError ''23505'')
     else if violates_foreign db t r then Inl (PgError ''23503'')
     else Inr (1, db(t := db t @ [r])))"
| "exec_sql rnd now (SqlUpdate t c e conds) db =
     Inr (length (filter (row_matches conds) (db t)),
          db(t := map (\<lambda>r. if row_matches conds r then set_col c (eval_expr now e r) r else r) (db t)))"

fun run_query :: "query \<Rightarrow> tables \<Rightarrow> pgerr + sqlval list" where
  "run_query (SqlSelect cols t conds) db =
    (case find (row_matches conds) (db t) of None \<Rightarrow> Inl ErrNoRows | Some r \<Rightarrow> Inr (map (col r) cols))"

subsection \<open>Tables that represent a store\<close>

definition user_row :: "User \<Rightarrow> row" where
  "user_row u =
    [(''id'', VUuid (user_id u)), (''tenant_id'', VUuid (tenant_UUID (user_tenantID u))),
     (''email'', VText (email_String (user_email u))), (''password_hash'', VText (ph_String (user_passwordHash u))),
     (''status'', VText (user_status u)), (''created_at'', VTime (user_createdAt u)),
     (''updated_at'', VTime (user_updatedAt u))]"

definition session_row :: "Session \<Rightarrow> row" where
  "session_row s =
    [(''id'', VUuid (session_id s)), (''tenant_id'', VUuid (tenant_UUID (session_tenantID s))),
     (''user_id'', VUuid (session_userID s)), (''token_hash'', VBytea (session_tokenHash s)),
     (''created_at'', VTime (session_createdAt s)), (''expires_at'', VTime (session_expiresAt s)),
     (''revoked_at'', case session_revokedAt s of None \<Rightarrow> VNull | Some t \<Rightarrow> VTime t)]"

definition event_row :: "Event \<Rightarrow> row" where
  "event_row ev =
    [(''id'', VUuid (event_id ev)), (''tenant_id'', VUuid (tenant_UUID (event_tenantID ev))),
     (''aggregate_type'', VText (event_aggregateType ev)), (''aggregate_id'', VUuid (event_aggregateID ev)),
     (''event_type'', VText (event_eventType ev)), (''payload'', VBytea (event_payload ev)),
     (''created_at'', VTime (event_createdAt ev)), (''published_at'', VNull)]"

definition tables_of :: "store \<Rightarrow> tables" where
  "tables_of s = (\<lambda>t. if t = ''identity.users'' then map user_row (st_users s)
     else if t = ''identity.sessions'' then map session_row (st_sessions s)
     else if t = ''identity.outbox_events'' then map event_row (st_events s)
     else [])"

lemma tables_of_simps [simp]:
  "tables_of s ''identity.users'' = map user_row (st_users s)"
  "tables_of s ''identity.sessions'' = map session_row (st_sessions s)"
  "tables_of s ''identity.outbox_events'' = map event_row (st_events s)"
  by (simp_all add: tables_of_def)

lemma tables_of_update:
  "(tables_of s)(''identity.users'' := map user_row us) = tables_of (s\<lparr>st_users := us\<rparr>)"
  "(tables_of s)(''identity.sessions'' := map session_row xs) = tables_of (s\<lparr>st_sessions := xs\<rparr>)"
  "(tables_of s)(''identity.outbox_events'' := map event_row es) = tables_of (s\<lparr>st_events := es\<rparr>)"
  by (auto simp: tables_of_def)

lemma col_user_row [simp]:
  "col (user_row u) ''id'' = VUuid (user_id u)"
  "col (user_row u) ''tenant_id'' = VUuid (tenant_UUID (user_tenantID u))"
  "col (user_row u) ''email'' = VText (email_String (user_email u))"
  "col (user_row u) ''password_hash'' = VText (ph_String (user_passwordHash u))"
  "col (user_row u) ''status'' = VText (user_status u)"
  "col (user_row u) ''created_at'' = VTime (user_createdAt u)"
  "col (user_row u) ''updated_at'' = VTime (user_updatedAt u)"
  by (simp_all add: col_def user_row_def)

lemma col_session_row [simp]:
  "col (session_row x) ''id'' = VUuid (session_id x)"
  "col (session_row x) ''tenant_id'' = VUuid (tenant_UUID (session_tenantID x))"
  "col (session_row x) ''user_id'' = VUuid (session_userID x)"
  "col (session_row x) ''token_hash'' = VBytea (session_tokenHash x)"
  "col (session_row x) ''created_at'' = VTime (session_createdAt x)"
  "col (session_row x) ''expires_at'' = VTime (session_expiresAt x)"
  "col (session_row x) ''revoked_at'' = (case session_revokedAt x of None \<Rightarrow> VNull | Some t \<Rightarrow> VTime t)"
  by (simp_all add: col_def session_row_def)

lemma col_event_row [simp]: "col (event_row e) ''id'' = VUuid (event_id e)"
  by (simp add: col_def event_row_def)

text \<open>The rows that the three inserts add.\<close>

lemmas new_row_eval = new_row_def table_columns_def user_columns_def col_def stored_def

lemma new_row_user:
  "insert_user u = SqlInsert t cvs \<Longrightarrow> t = ''identity.users'' \<and> new_row rnd t cvs = user_row (round_user rnd u)"
  by (clarsimp simp: insert_user_def) (simp add: new_row_eval user_row_def round_user_def)

lemma new_row_session:
  "insert_session x = SqlInsert t cvs \<Longrightarrow> t = ''identity.sessions''
    \<and> new_row rnd t cvs = session_row (round_session rnd (x\<lparr>session_revokedAt := None\<rparr>))"
  by (clarsimp simp: insert_session_def) (simp add: new_row_eval session_row_def round_session_def)

lemma new_row_event:
  "insert_event e = SqlInsert t cvs \<Longrightarrow> t = ''identity.outbox_events'' \<and> new_row rnd t cvs = event_row (round_event rnd e)"
  by (clarsimp simp: insert_event_def) (simp add: new_row_eval event_row_def round_event_def)

lemma tenant_UUID_inject [simp]: "tenant_UUID a = tenant_UUID b \<longleftrightarrow> a = b"
  by (cases a, cases b) simp

lemma email_String_inject [simp]: "email_String a = email_String b \<longleftrightarrow> a = b"
  by (cases a, cases b) simp

lemma unique_users:
  "violates_unique (tables_of s) ''identity.users'' (user_row u) \<longleftrightarrow> user_conflict u s"
  by (simp add: violates_unique_def unique_keys_def user_conflict_def user_key_def list_ex_iff image_iff) metis

lemma unique_sessions:
  "violates_unique (tables_of s) ''identity.sessions'' (session_row x) \<longleftrightarrow>
    session_id x \<in> session_id ` set (st_sessions s) \<or> session_tokenHash x \<in> session_tokenHash ` set (st_sessions s)"
  by (simp add: violates_unique_def unique_keys_def list_ex_iff image_iff) metis

lemma foreign_sessions:
  "violates_foreign (tables_of s) ''identity.sessions'' (session_row x) \<longleftrightarrow> session_userID x \<notin> user_id ` set (st_users s)"
  by (auto simp: violates_foreign_def foreign_keys_def list_ex_iff image_iff)

lemma unique_events:
  "violates_unique (tables_of s) ''identity.outbox_events'' (event_row e) \<longleftrightarrow> event_id e \<in> event_id ` set (st_events s)"
  by (simp add: violates_unique_def unique_keys_def list_ex_iff image_iff) metis

lemma no_foreign: "t \<noteq> ''identity.sessions'' \<Longrightarrow> \<not> violates_foreign db t r"
  by (simp add: violates_foreign_def foreign_keys_def)


subsection \<open>The statements of the adapters implement the operations of the store\<close>

lemma tables_of_append:
  "(tables_of s)(''identity.users'' := map user_row us @ [user_row u]) = tables_of (s\<lparr>st_users := us @ [u]\<rparr>)"
  "(tables_of s)(''identity.sessions'' := map session_row xs @ [session_row x]) = tables_of (s\<lparr>st_sessions := xs @ [x]\<rparr>)"
  "(tables_of s)(''identity.outbox_events'' := map event_row es @ [event_row e]) = tables_of (s\<lparr>st_events := es @ [e]\<rparr>)"
  by (auto simp: tables_of_def)

lemma user_conflict_round [simp]: "user_conflict (round_user rnd u) s = user_conflict u s"
  by (simp add: user_conflict_def)

lemma exec_insert_user:
  "exec_sql rnd now (insert_user u) (tables_of s) =
    (case save_user rnd u s of None \<Rightarrow> Inl (PgError ''23505'') | Some s' \<Rightarrow> Inr (1, tables_of s'))"
proof -
  obtain t cvs where i: "insert_user u = SqlInsert t cvs" by (auto simp: insert_user_def)
  from new_row_user [OF i] have t: "t = ''identity.users''" by blast
  from new_row_user [OF i, of rnd] show ?thesis unfolding i t
    by (simp add: Let_def unique_users no_foreign save_user_def tables_of_append)
qed

lemma exec_insert_session:
  "exec_sql rnd now (insert_session x) (tables_of s) =
    (case save_session rnd x s of
       None \<Rightarrow> Inl (PgError (if session_id x \<in> session_id ` set (st_sessions s)
                    \<or> session_tokenHash x \<in> session_tokenHash ` set (st_sessions s) then ''23505'' else ''23503''))
     | Some s' \<Rightarrow> Inr (1, tables_of s'))"
proof -
  obtain t cvs where i: "insert_session x = SqlInsert t cvs" by (auto simp: insert_session_def)
  from new_row_session [OF i] have t: "t = ''identity.sessions''" by blast
  from new_row_session [OF i, of rnd] show ?thesis unfolding i t
    by (simp add: Let_def unique_sessions foreign_sessions save_session_def session_conflict_def tables_of_append)
qed

lemma exec_insert_event:
  "exec_sql rnd now (insert_event e) (tables_of s) =
    (case write_event rnd e s of None \<Rightarrow> Inl (PgError ''23505'') | Some s' \<Rightarrow> Inr (1, tables_of s'))"
proof -
  obtain t cvs where i: "insert_event e = SqlInsert t cvs" by (auto simp: insert_event_def)
  from new_row_event [OF i] have t: "t = ''identity.outbox_events''" by blast
  from new_row_event [OF i, of rnd] show ?thesis unfolding i t
    by (simp add: Let_def unique_events no_foreign write_event_def tables_of_append)
qed

definition revoke_stmt :: "tenant_ID \<Rightarrow> uuid \<Rightarrow> sql" where
  "revoke_stmt t i = SqlUpdate ''identity.sessions'' ''revoked_at'' (CoalesceNow ''revoked_at'')
     [(''tenant_id'', VUuid (tenant_UUID t)), (''id'', VUuid i)]"

lemma matches_session_row:
  "row_matches [(''tenant_id'', VUuid (tenant_UUID t)), (''id'', VUuid i)] (session_row x) = is_session t i x"
  by (simp add: row_matches_def is_session_def)

lemma revoke_row:
  "set_col ''revoked_at'' (eval_expr now (CoalesceNow ''revoked_at'') (session_row x)) (session_row x)
    = session_row (revoke_at now x)"
  by (simp add: revoke_at_def split: option.split) (simp add: set_col_def session_row_def)

lemma exec_revoke:
  "exec_sql rnd now (revoke_stmt t i) (tables_of s) =
    Inr (length (filter (is_session t i) (st_sessions s)),
         tables_of (s\<lparr>st_sessions := map (\<lambda>x. if is_session t i x then revoke_at now x else x) (st_sessions s)\<rparr>))"
proof -
  have "map (\<lambda>r. if row_matches [(''tenant_id'', VUuid (tenant_UUID t)), (''id'', VUuid i)] r
      then set_col ''revoked_at'' (eval_expr now (CoalesceNow ''revoked_at'') r) r else r) (map session_row xs)
    = map session_row (map (\<lambda>x. if is_session t i x then revoke_at now x else x) xs)" for xs
    by (induction xs) (simp_all add: matches_session_row revoke_row del: eval_expr.simps)
  moreover have "length (filter (row_matches [(''tenant_id'', VUuid (tenant_UUID t)), (''id'', VUuid i)]) (map session_row xs))
    = length (filter (is_session t i) xs)" for xs
    by (induction xs) (simp_all add: matches_session_row)
  ultimately show ?thesis
    by (simp only: revoke_stmt_def exec_sql.simps tables_of_simps tables_of_update)
qed

lemma revoke_session_iff:
  "revoke_session t i now s = Some s' \<longleftrightarrow>
    0 < length (filter (is_session t i) (st_sessions s)) \<and>
    s' = s\<lparr>st_sessions := map (\<lambda>x. if is_session t i x then revoke_at now x else x) (st_sessions s)\<rparr>"
  by (auto simp: revoke_session_def filter_empty_conv)

lemma find_map: "find P (map f xs) = map_option f (find (\<lambda>x. P (f x)) xs)"
  by (induction xs) auto

lemma query_user_by_email:
  "run_query (SqlSelect cols ''identity.users''
      [(''tenant_id'', VUuid (tenant_UUID t)), (''email'', VText (email_String e))]) (tables_of s) =
    (case find_user_by_email s t e of None \<Rightarrow> Inl ErrNoRows | Some u \<Rightarrow> Inr (map (col (user_row u)) cols))"
  by (simp add: find_map find_user_by_email_def row_matches_def split: option.split)

lemma query_user_by_id:
  "run_query (SqlSelect cols ''identity.users''
      [(''tenant_id'', VUuid (tenant_UUID t)), (''id'', VUuid i)]) (tables_of s) =
    (case find_user_by_id s t i of None \<Rightarrow> Inl ErrNoRows | Some u \<Rightarrow> Inr (map (col (user_row u)) cols))"
  by (simp add: find_map find_user_by_id_def row_matches_def split: option.split)

lemma query_session:
  "run_query (SqlSelect cols ''identity.sessions'' [(''token_hash'', VBytea h)]) (tables_of s) =
    (case find_session s h of None \<Rightarrow> Inl ErrNoRows | Some x \<Rightarrow> Inr (map (col (session_row x)) cols))"
  by (simp add: find_map find_session_def row_matches_def split: option.split)

lemma hydrate_user_row: "valid_user u \<Longrightarrow> hydrate_user (map (col (user_row u)) user_columns) = Inr u"
  by (simp add: user_columns_def hydrate_user_def valid_user_def user_Hydrate_def tenant_NewID_def NewPasswordHash_def)

lemma hydrate_session_row:
  "hydrate_session (map (col (session_row x))
    [''id'', ''tenant_id'', ''user_id'', ''token_hash'', ''created_at'', ''expires_at'', ''revoked_at'']) = Inr x"
  by (cases "session_revokedAt x")
     (simp_all add: hydrate_session_def scan_time_opt_def session_Hydrate_def tenant_NewID_def)


subsection \<open>The server, and the store it implements\<close>

locale pgx_driver =
  fixes drv :: "'p pgx"
    and committed :: "'p \<Rightarrow> tables"
    and txview :: "'p \<Rightarrow> nat \<Rightarrow> tables option"
    and up :: "'p \<Rightarrow> bool"
    and rnd :: "time \<Rightarrow> time"
  assumes begin_sql: "pool_Begin drv p = (r, p') \<Longrightarrow>
      committed p' = committed p \<and> (\<forall>h. r = Inr h \<longrightarrow> txview p' h = Some (committed p))
      \<and> (up p \<longrightarrow> up p' \<and> (\<exists>h. r = Inr h))"
    and exec_sql: "tx_Exec drv h q p = (rn, p') \<Longrightarrow>
      committed p' = committed p \<and> (up p \<longrightarrow> up p') \<and> (\<forall>v. txview p h = Some v \<longrightarrow> (\<exists>now.
        (\<forall>n. rn = Inr n \<longrightarrow> (\<exists>v'. exec_sql rnd now q v = Inr (n, v') \<and> txview p' h = Some v'))
        \<and> (rn = Inl (PgError ''23505'') \<longrightarrow> exec_sql rnd now q v = Inl (PgError ''23505''))
        \<and> (up p \<longrightarrow> rn = map_sum id fst (exec_sql rnd now q v))))"
    and commit_sql: "tx_Commit drv h p = (ru, p') \<Longrightarrow> txview p h = Some v \<Longrightarrow>
      (committed p' = committed p \<or> committed p' = v) \<and> (ru = Inr () \<longrightarrow> committed p' = v)
      \<and> (up p \<longrightarrow> up p' \<and> ru = Inr ())"
    and rollback_sql: "tx_Rollback drv h p = (ru, p') \<Longrightarrow> committed p' = committed p \<and> (up p \<longrightarrow> up p')"
    and query_sql: "pool_QueryRow drv sel p = (rv, p') \<Longrightarrow>
      committed p' = committed p \<and> (up p \<longrightarrow> up p')
      \<and> (\<forall>vals. rv = Inr vals \<longrightarrow> run_query sel (committed p) = Inr vals)
      \<and> (rv = Inl ErrNoRows \<longrightarrow> run_query sel (committed p) = Inl ErrNoRows)
      \<and> (up p \<longrightarrow> rv = run_query sel (committed p))"

definition pg_db :: "('p \<Rightarrow> tables) \<Rightarrow> ('p, 'k) world \<Rightarrow> store \<Rightarrow> bool" where
  "pg_db committed w s = (committed (w_pg w) = tables_of s \<and> consistent s)"

definition pg_view :: "('p \<Rightarrow> nat \<Rightarrow> tables option) \<Rightarrow> ('p, 'k) world \<Rightarrow> Tx \<Rightarrow> store \<Rightarrow> bool" where
  "pg_view txview w tx v = (\<exists>h. tx = Tx (TxPgx h) \<and> txview (w_pg w) h = Some (tables_of v) \<and> consistent v)"

lemma w_pg_more: "rt.more w' = rt.more w \<Longrightarrow> w_pg (w' :: ('p, 'k) world) = w_pg w"
  by (cases w, cases w') (metis rt.ext_inject rt.surjective world.select_convs(1) world.surjective rt.select_convs(9))

lemma later_pg [simp]: "later w (w\<lparr>w_pg := p\<rparr>)" "later w (w\<lparr>w_kv := k\<rparr>)"
  "later w (w\<lparr>w_kv := k, rt_logs := l\<rparr>)"
  by (simp_all add: later_def)

lemma truncate_pg [simp]: "rt.truncate (w\<lparr>w_pg := p\<rparr>) = rt.truncate w"
  by (simp add: rt.truncate_def)

context pgx_driver
begin

abbreviation "db \<equiv> pg_db committed"
abbreviation "view \<equiv> pg_view txview"
abbreviation "healthy \<equiv> (\<lambda>w. up (w_pg w))"

lemmas adapter_defs = pg_UnitOfWork_def pg_UserRepository_def pg_SessionRepository_def pg_OutboxRepository_def

lemma lookup_scan:
  assumes q: "\<And>s. run_query q (tables_of s) = (case f s of None \<Rightarrow> Inl ErrNoRows | Some u \<Rightarrow> Inr (g u))"
    and sc: "\<And>s u. consistent s \<Longrightarrow> f s = Some u \<Longrightarrow> sc (g u) = Inr u"
    and e: "\<And>e. pg_error e \<noteq> nf"
  shows "lookup_ok db (\<lambda>w :: ('p, 'k) world. up (w_pg w))
    (tryg (pg_call (pool_QueryRow drv q)) (\<lambda>e. if e = ErrNoRows then ret (Inl nf) else ret (Inl (pg_error e)))
       (\<lambda>vals. ret (sc vals))) nf f"
  unfolding lookup_ok_def
proof (intro allI impI)
    fix w :: "('p, 'k) world" and s
    assume db: "db w s"
    show "wp (tryg (pg_call (pool_QueryRow drv q))
         (\<lambda>e. if e = ErrNoRows then ret (Inl nf) else ret (Inl (pg_error e))) (\<lambda>vals. ret (sc vals)))
     (\<lambda>r w'. db w' s \<and> rt.truncate w' = rt.truncate w \<and> (healthy w \<longrightarrow> healthy w')
       \<and> (case r of Ret (Inr x) \<Rightarrow> f s = Some x
          | Ret (Inl e) \<Rightarrow> (e = nf \<longrightarrow> f s = None) \<and> (healthy w \<longrightarrow> e = nf)
          | Panic _ \<Rightarrow> False)) w"
  proof (cases "pool_QueryRow drv q (w_pg w)")
    case (Pair rv p')
    from db have s: "committed (w_pg w) = tables_of s" "consistent s" by (auto simp: pg_db_def)
    note law = query_sql [OF Pair, unfolded s q]
    then have db': "db (w\<lparr>w_pg := p'\<rparr>) s" "rt.truncate (w\<lparr>w_pg := p'\<rparr>) = rt.truncate w"
      by (simp_all add: pg_db_def s rt.truncate_def)
    show ?thesis
    proof (cases rv)
      case (Inl err)
      with law db' e [of err] show ?thesis
        by (cases "f s") (auto simp: wp_simps Pair)
    next
      case (Inr vals)
      with law obtain u where "f s = Some u" "vals = g u"
        by (auto split: option.splits)
      with law db' Inr sc [OF s(2)] show ?thesis
        by (simp add: wp_simps Pair)
    qed
  qed
qed

lemma pg_error_other [simp]: "pg_error e \<noteq> ErrUser x" "pg_error e \<noteq> ErrSession y"
  by (simp_all add: pg_error_def)

lemma user_lookups:
  "lookup_ok db healthy (pg_users_FindByEmail drv t e) (ErrUser user_ErrUserNotFound) (\<lambda>s. find_user_by_email s t e)"
  "lookup_ok db healthy (pg_users_FindByID drv t i) (ErrUser user_ErrUserNotFound) (\<lambda>s. find_user_by_id s t i)"
  unfolding pg_users_FindByEmail_def pg_users_FindByID_def pg_scanOne_def
  by (rule lookup_scan [OF query_user_by_email], auto simp: consistent_def list_all_iff
        intro!: hydrate_user_row dest!: find_user_by_email_Some)
     (rule lookup_scan [OF query_user_by_id], auto simp: consistent_def list_all_iff
        intro!: hydrate_user_row dest!: find_user_by_id_Some)

lemma session_lookups:
  "lookup_ok db healthy (pg_sessions_FindByTokenHash drv h) (ErrSession session_ErrSessionNotFound)
    (\<lambda>s. find_session s h)"
  unfolding pg_sessions_FindByTokenHash_def
  by (rule lookup_scan [OF query_session hydrate_session_row]) simp

lemma write_exec:
  assumes ins: "\<And>now v. exec_sql rnd now q (tables_of v) =
      (case f v of None \<Rightarrow> Inl (PgError (c v)) | Some v' \<Rightarrow> Inr (1, tables_of v'))"
    and cons: "\<And>v v'. consistent v \<Longrightarrow> f v = Some v' \<Longrightarrow> consistent v'"
    and errs: "\<And>e. onerr e \<in> refused \<Longrightarrow> e = PgError ''23505''"
    and refused: "\<And>v. refused \<noteq> {} \<Longrightarrow> onerr (PgError (c v)) \<in> refused"
  shows "write_ok db view (\<lambda>w :: ('p, 'k) world. up (w_pg w)) tx
    (tryg (ret (txOf tx)) (\<lambda>e. ret (Inl e)) (\<lambda>h.
      tryg (pg_call (tx_Exec drv h q)) (\<lambda>e. ret (Inl (onerr e))) (\<lambda>_. ret (Inr ())))) refused
    (\<lambda>v v'. f v = Some v')"
  unfolding write_ok_def
proof (intro allI impI)
  fix w :: "('p, 'k) world" and s v
  assume db: "db w s" and "view w tx v"
  then obtain h where tx: "tx = Tx (TxPgx h)" and v: "txview (w_pg w) h = Some (tables_of v)" "consistent v"
    by (auto simp: pg_view_def)
  obtain rn p' where Pair: "tx_Exec drv h q (w_pg w) = (rn, p')" by fastforce
  from exec_sql [OF Pair] v obtain now where law: "committed p' = committed (w_pg w)" "up (w_pg w) \<longrightarrow> up p'"
    "\<And>n. rn = Inr n \<Longrightarrow> \<exists>v'. exec_sql rnd now q (tables_of v) = Inr (n, v') \<and> txview p' h = Some v'"
    "rn = Inl (PgError ''23505'') \<Longrightarrow> exec_sql rnd now q (tables_of v) = Inl (PgError ''23505'')"
    "up (w_pg w) \<Longrightarrow> rn = map_sum id fst (exec_sql rnd now q (tables_of v))"
    by blast
  have db': "db (w\<lparr>w_pg := p'\<rparr>) s" using db law(1) by (simp add: pg_db_def)
  show "wp (tryg (ret (txOf tx)) (\<lambda>e. ret (Inl e)) (\<lambda>h.
      tryg (pg_call (tx_Exec drv h q)) (\<lambda>e. ret (Inl (onerr e))) (\<lambda>_. ret (Inr ()))))
    (\<lambda>r w'. db w' s \<and> rt.truncate w' = rt.truncate w \<and> (healthy w \<longrightarrow> healthy w') \<and> (\<exists>x. r = Ret x)
       \<and> (r = Ret (Inr ()) \<longrightarrow> (\<exists>v'. f v = Some v' \<and> view w' tx v'))
       \<and> (\<forall>e \<in> refused. r = Ret (Inl e) \<longrightarrow> (\<nexists>v'. f v = Some v'))
       \<and> (healthy w \<longrightarrow> (\<exists>v'. f v = Some v') \<longrightarrow> r = Ret (Inr ()))
       \<and> (healthy w \<longrightarrow> refused \<noteq> {} \<longrightarrow> (\<nexists>v'. f v = Some v') \<longrightarrow> (\<exists>e \<in> refused. r = Ret (Inl e)))) w"
  proof (cases rn)
    case (Inl err)
    have "f v = None" if "onerr err \<in> refused"
      using errs [OF that] Inl law(4) ins [of now v] by (cases "f v") auto
    moreover have "f v = None \<and> err = PgError (c v)" if "up (w_pg w)"
      using law(5) [OF that] Inl ins [of now v] by (cases "f v") auto
    ultimately show ?thesis
      using Inl db' law(2) refused [of v] by (auto simp: wp_simps tx txOf_def Pair)
  next
    case (Inr n)
    from law(3) [OF this] ins [of now v] obtain v' where "f v = Some v'" "txview p' h = Some (tables_of v')"
      by (cases "f v") auto
    with cons [OF v(2)] Inr db' law(2) show ?thesis
      by (auto simp: wp_simps tx txOf_def Pair pg_view_def)
  qed
qed

lemma ret_Inl_if: "(if b then ret (Inl x) else ret (Inl y)) = ret (Inl (if b then x else y))"
  by simp

lemma save_user_write:
  assumes "valid_user u"
  shows "write_ok db view (\<lambda>w :: ('p, 'k) world. up (w_pg w)) tx (pg_users_SaveTx drv tx u) {ErrUser user_ErrEmailTaken}
    (\<lambda>v v'. save_user rnd u v = Some v')"
proof -
  have "pg_users_SaveTx drv tx u = (tryg (ret (txOf tx)) (\<lambda>e. ret (Inl e)) (\<lambda>h.
      tryg (pg_call (tx_Exec drv h (insert_user u)))
        (\<lambda>e. ret (Inl (if e = PgError ''23505'' then ErrUser user_ErrEmailTaken else pg_error e)))
        (\<lambda>_. ret (Inr ()))) :: (('p, 'k) world, error + unit) go)"
    unfolding pg_users_SaveTx_def uniqueViolationCode_def by (simp only: ret_Inl_if)
  then show ?thesis
    by simp (rule write_exec [OF exec_insert_user], use assms consistent_save_user in \<open>auto split: if_splits\<close>)
qed

lemma save_session_write:
  "write_ok db view (\<lambda>w :: ('p, 'k) world. up (w_pg w)) tx (pg_sessions_SaveTx drv tx x) {}
    (\<lambda>v v'. save_session rnd x v = Some v')"
  unfolding pg_sessions_SaveTx_def by (rule write_exec [OF exec_insert_session consistent_save_session]) auto

lemma write_event_write:
  "write_ok db view (\<lambda>w :: ('p, 'k) world. up (w_pg w)) tx (pg_outbox_WriteTx drv tx e) {}
    (\<lambda>v v'. write_event rnd e v = Some v')"
  unfolding pg_outbox_WriteTx_def by (rule write_exec [OF exec_insert_event consistent_write_event]) auto

lemma revoke_write:
  "write_ok db view (\<lambda>w :: ('p, 'k) world. up (w_pg w)) tx (pg_sessions_RevokeTx drv tx t i)
    {ErrSession session_ErrSessionNotFound} (\<lambda>v v'. \<exists>now. revoke_session t i now v = Some v')"
  unfolding write_ok_def
proof (intro allI impI)
  fix w :: "('p, 'k) world" and s v
  assume db: "db w s" and "view w tx v"
  then obtain h where tx: "tx = Tx (TxPgx h)" and v: "txview (w_pg w) h = Some (tables_of v)" "consistent v"
    by (auto simp: pg_view_def)
  let ?q = "revoke_stmt t i" and ?n = "length (filter (is_session t i) (st_sessions v))"
  obtain rn p' where Pair: "tx_Exec drv h ?q (w_pg w) = (rn, p')" by fastforce
  from exec_sql [OF Pair] v obtain now where law: "committed p' = committed (w_pg w)" "up (w_pg w) \<longrightarrow> up p'"
    "\<And>n. rn = Inr n \<Longrightarrow> \<exists>v'. exec_sql rnd now ?q (tables_of v) = Inr (n, v') \<and> txview p' h = Some v'"
    "up (w_pg w) \<Longrightarrow> rn = map_sum id fst (exec_sql rnd now ?q (tables_of v))"
    by blast
  have db': "db (w\<lparr>w_pg := p'\<rparr>) s" using db law(1) by (simp add: pg_db_def)
  have none: "(\<nexists>v' now. revoke_session t i now v = Some v') \<longleftrightarrow> ?n = 0"
    by (auto simp: revoke_session_iff)
  note run = pg_sessions_RevokeTx_def revoke_stmt_def [symmetric] tx txOf_def Pair
  show "wp (pg_sessions_RevokeTx drv tx t i)
    (\<lambda>r w'. db w' s \<and> rt.truncate w' = rt.truncate w \<and> (healthy w \<longrightarrow> healthy w') \<and> (\<exists>x. r = Ret x)
       \<and> (r = Ret (Inr ()) \<longrightarrow> (\<exists>v'. (\<exists>now. revoke_session t i now v = Some v') \<and> view w' tx v'))
       \<and> (\<forall>e \<in> {ErrSession session_ErrSessionNotFound}. r = Ret (Inl e) \<longrightarrow>
            (\<nexists>v'. \<exists>now. revoke_session t i now v = Some v'))
       \<and> (healthy w \<longrightarrow> (\<exists>v'. \<exists>now. revoke_session t i now v = Some v') \<longrightarrow> r = Ret (Inr ()))
       \<and> (healthy w \<longrightarrow> {ErrSession session_ErrSessionNotFound} \<noteq> {} \<longrightarrow>
            (\<nexists>v'. \<exists>now. revoke_session t i now v = Some v') \<longrightarrow>
            (\<exists>e \<in> {ErrSession session_ErrSessionNotFound}. r = Ret (Inl e)))) w"
  proof (cases rn)
    case (Inl err)
    with law(4) have "\<not> up (w_pg w)" by (auto simp: exec_revoke)
    with Inl db' show ?thesis by (auto simp: wp_simps run)
  next
    case (Inr n)
    from law(3) [OF this] have n: "n = ?n" and v': "txview p' h = Some (tables_of
      (v\<lparr>st_sessions := map (\<lambda>x. if is_session t i x then revoke_at now x else x) (st_sessions v)\<rparr>))"
      by (auto simp: exec_revoke)
    show ?thesis
    proof (cases "n = 0")
      case True
      with none n have "\<nexists>v' now. revoke_session t i now v = Some v'" by simp
      with True Inr db' law(2) show ?thesis by (auto simp: wp_simps run)
    next
      case False
      with n have r: "revoke_session t i now v = Some
        (v\<lparr>st_sessions := map (\<lambda>x. if is_session t i x then revoke_at now x else x) (st_sessions v)\<rparr>)"
        by (simp add: revoke_session_iff)
      from consistent_revoke [OF v(2) r] v' have "view (w\<lparr>w_pg := p'\<rparr>) tx
        (v\<lparr>st_sessions := map (\<lambda>x. if is_session t i x then revoke_at now x else x) (st_sessions v)\<rparr>)"
        by (simp add: pg_view_def tx)
      with r False Inr db' law(2) show ?thesis by (auto simp: wp_simps run)
    qed
  qed
qed

lemma unit_of_work:
  fixes w :: "('p, 'k) world"
  assumes db: "db w s"
  shows "wp (pg_Begin drv) (\<lambda>r w'. db w' s \<and> later w w' \<and> (\<exists>x. r = Ret x) \<and> (\<forall>tx. r = Ret (Inr tx) \<longrightarrow> view w' tx s)
         \<and> (healthy w \<longrightarrow> healthy w' \<and> (\<exists>tx. r = Ret (Inr tx)))) w"
    and "view w tx v \<Longrightarrow> wp (pg_Commit drv tx) (\<lambda>r w'. later w w' \<and> (\<exists>x. r = Ret x)
         \<and> (db w' s \<or> db w' v) \<and> (r = Ret (Inr ()) \<longrightarrow> db w' v)
         \<and> (healthy w \<longrightarrow> healthy w' \<and> r = Ret (Inr ()))) w"
    and "wp (pg_Rollback drv tx) (\<lambda>r w'. db w' s \<and> later w w' \<and> (\<exists>x. r = Ret x) \<and> (healthy w \<longrightarrow> healthy w')) w"
proof -
  from db have s: "committed (w_pg w) = tables_of s" "consistent s" by (auto simp: pg_db_def)
  obtain rb pb where b: "pool_Begin drv (w_pg w) = (rb, pb)" by fastforce
  from begin_sql [OF b] s
  show "wp (pg_Begin drv) (\<lambda>r w'. db w' s \<and> later w w' \<and> (\<exists>x. r = Ret x) \<and> (\<forall>tx. r = Ret (Inr tx) \<longrightarrow> view w' tx s)
         \<and> (healthy w \<longrightarrow> healthy w' \<and> (\<exists>tx. r = Ret (Inr tx)))) w"
    by (cases rb) (auto simp: pg_Begin_def wp_simps b pg_db_def pg_view_def NewTx_def)
  show "wp (pg_Rollback drv tx) (\<lambda>r w'. db w' s \<and> later w w' \<and> (\<exists>x. r = Ret x) \<and> (healthy w \<longrightarrow> healthy w')) w"
  proof (cases "txOf tx")
    case (Inl e)
    with db show ?thesis by (simp add: pg_Rollback_def wp_simps)
  next
    case (Inr h)
    obtain rr pr where "tx_Rollback drv h (w_pg w) = (rr, pr)" by fastforce
    with rollback_sql [OF this] s Inr show ?thesis
      by (cases rr) (auto simp: pg_Rollback_def wp_simps pg_db_def)
  qed
  assume "view w tx v"
  then obtain h where tx: "tx = Tx (TxPgx h)" and v: "txview (w_pg w) h = Some (tables_of v)" "consistent v"
    by (auto simp: pg_view_def)
  obtain rc pc where c: "tx_Commit drv h (w_pg w) = (rc, pc)" by fastforce
  from commit_sql [OF c v(1)] s v(2)
  show "wp (pg_Commit drv tx) (\<lambda>r w'. later w w' \<and> (\<exists>x. r = Ret x)
         \<and> (db w' s \<or> db w' v) \<and> (r = Ret (Inr ()) \<longrightarrow> db w' v)
         \<and> (healthy w \<longrightarrow> healthy w' \<and> r = Ret (Inr ()))) w"
    by (cases rc) (auto simp: pg_Commit_def wp_simps tx txOf_def c pg_db_def)
qed

end


sublocale pgx_driver \<subseteq> store: identity_store
  "pg_UserRepository drv" "pg_SessionRepository drv" "pg_db committed"
  "\<lambda>w :: ('p, 'k) world. up (w_pg w)" "pg_UnitOfWork drv" "pg_OutboxRepository drv" "pg_view txview" rnd
proof
  fix w w' :: "('p, 'k) world" and s tx
  show "pg_db committed w s \<Longrightarrow> consistent s" by (simp add: pg_db_def)
  assume "rt.more w' = rt.more w"
  then have "w_pg w' = w_pg w" by (rule w_pg_more)
  then show "pg_db committed w' s = pg_db committed w s" "pg_view txview w' tx s = pg_view txview w tx s"
    "up (w_pg w') = up (w_pg w)"
    by (simp_all add: pg_db_def pg_view_def)
qed (simp_all add: adapter_defs user_lookups session_lookups unit_of_work save_user_write
    save_session_write write_event_write revoke_write)

subsection \<open>A concrete server\<close>

text \<open>Committed tables, at most one open transaction with its own copy (\<open>None\<close> once a statement of it
  failed), and a schedule that decides for each request whether it is served, lost before it takes
  effect, or served with a lost answer.\<close>

datatype fault = Served | LostBefore | LostAfter

record server =
  srv_tables :: tables
  srv_tx :: "(nat \<times> tables option) option"
  srv_next :: nat
  srv_time :: time
  srv_faults :: "nat \<Rightarrow> fault"
  srv_step :: nat

definition serve :: "(server \<Rightarrow> (pgerr + 'x) \<times> server) \<Rightarrow> server \<Rightarrow> (pgerr + 'x) \<times> server" where
  "serve f p =
    (let p' = p\<lparr>srv_step := Suc (srv_step p)\<rparr> in
     case srv_faults p (srv_step p) of
       Served \<Rightarrow> f p'
     | LostBefore \<Rightarrow> (Inl (PgOther ''connection lost''), p')
     | LostAfter \<Rightarrow> (Inl (PgOther ''connection lost''), snd (f p')))"

definition ref_Begin :: "server \<Rightarrow> (pgerr + nat) \<times> server" where
  "ref_Begin p = (Inr (srv_next p), p\<lparr>srv_tx := Some (srv_next p, Some (srv_tables p)), srv_next := Suc (srv_next p)\<rparr>)"

definition ref_view :: "server \<Rightarrow> nat \<Rightarrow> tables option" where
  "ref_view p h = (case srv_tx p of Some (h', v) \<Rightarrow> if h' = h then v else None | None \<Rightarrow> None)"

definition ref_Exec :: "(time \<Rightarrow> time) \<Rightarrow> nat \<Rightarrow> sql \<Rightarrow> server \<Rightarrow> (pgerr + nat) \<times> server" where
  "ref_Exec rnd h q p = (case ref_view p h of
     None \<Rightarrow> (Inl (PgError ''25P02''), p)
   | Some v \<Rightarrow> (case exec_sql rnd (srv_time p) q v of
       Inl e \<Rightarrow> (Inl e, p\<lparr>srv_tx := Some (h, None)\<rparr>)
     | Inr (n, v') \<Rightarrow> (Inr n, p\<lparr>srv_tx := Some (h, Some v')\<rparr>)))"

definition ref_Commit :: "nat \<Rightarrow> server \<Rightarrow> (pgerr + unit) \<times> server" where
  "ref_Commit h p = (case ref_view p h of
     None \<Rightarrow> (Inl ErrTxClosed, p)
   | Some v \<Rightarrow> (Inr (), p\<lparr>srv_tables := v, srv_tx := None\<rparr>))"

definition ref_Rollback :: "nat \<Rightarrow> server \<Rightarrow> (pgerr + unit) \<times> server" where
  "ref_Rollback h p = (case srv_tx p of None \<Rightarrow> (Inl ErrTxClosed, p) | Some _ \<Rightarrow> (Inr (), p\<lparr>srv_tx := None\<rparr>))"

definition ref_QueryRow :: "query \<Rightarrow> server \<Rightarrow> (pgerr + sqlval list) \<times> server" where
  "ref_QueryRow q p = (run_query q (srv_tables p), p)"

definition ref_pgx :: "(time \<Rightarrow> time) \<Rightarrow> server pgx" where
  "ref_pgx rnd = \<lparr>pool_Begin = serve ref_Begin, tx_Commit = (\<lambda>h. serve (ref_Commit h)),
     tx_Rollback = (\<lambda>h. serve (ref_Rollback h)), tx_Exec = (\<lambda>h q. serve (ref_Exec rnd h q)),
     pool_QueryRow = (\<lambda>q. serve (ref_QueryRow q))\<rparr>"

definition ref_up :: "server \<Rightarrow> bool" where
  "ref_up p = (srv_faults p = (\<lambda>_. Served))"

text \<open>\<open>TIMESTAMPTZ\<close> holds microseconds.\<close>

definition micros :: "time \<Rightarrow> time" where
  "micros t = t div 1000 * 1000"

lemma serve_cases:
  assumes "serve f p = (r, p')"
  obtains "srv_faults p (srv_step p) = Served" "f (p\<lparr>srv_step := Suc (srv_step p)\<rparr>) = (r, p')"
  | "r = Inl (PgOther ''connection lost'')" "\<not> ref_up p" "p' = p\<lparr>srv_step := Suc (srv_step p)\<rparr>"
  | "r = Inl (PgOther ''connection lost'')" "\<not> ref_up p" "p' = snd (f (p\<lparr>srv_step := Suc (srv_step p)\<rparr>))"
proof (cases "srv_faults p (srv_step p)")
  case Served
  with assms that(1) show ?thesis by (simp add: serve_def)
next
  case LostBefore
  then have "\<not> ref_up p" by (auto simp: ref_up_def)
  with LostBefore assms that(2) show ?thesis by (simp add: serve_def)
next
  case LostAfter
  then have "\<not> ref_up p" by (auto simp: ref_up_def)
  with LostAfter assms that(3) show ?thesis by (simp add: serve_def)
qed

lemma ref_view_step [simp]: "ref_view (p\<lparr>srv_step := n\<rparr>) h = ref_view p h" "ref_up (p\<lparr>srv_step := n\<rparr>) = ref_up p"
  by (simp_all add: ref_view_def ref_up_def)

lemma ref_sel [simp]:
  "pool_Begin (ref_pgx rnd) = serve ref_Begin" "tx_Commit (ref_pgx rnd) h = serve (ref_Commit h)"
  "tx_Rollback (ref_pgx rnd) h = serve (ref_Rollback h)" "tx_Exec (ref_pgx rnd) h q = serve (ref_Exec rnd h q)"
  "pool_QueryRow (ref_pgx rnd) sel = serve (ref_QueryRow sel)"
  by (simp_all add: ref_pgx_def)


lemma ref_Exec_law:
  assumes "ref_Exec rnd h q p = (rn, p')"
  shows "srv_tables p' = srv_tables p" "ref_up p \<longrightarrow> ref_up p'"
    "\<And>v. ref_view p h = Some v \<Longrightarrow>
      (\<forall>n. rn = Inr n \<longrightarrow> (\<exists>v'. exec_sql rnd (srv_time p) q v = Inr (n, v') \<and> ref_view p' h = Some v'))
      \<and> (rn = Inl (PgError ''23505'') \<longrightarrow> exec_sql rnd (srv_time p) q v = Inl (PgError ''23505''))
      \<and> rn = map_sum id fst (exec_sql rnd (srv_time p) q v)"
  using assms by (auto simp: ref_Exec_def ref_up_def split: option.splits sum.splits) (simp_all add: ref_view_def)

lemma ref_Commit_law:
  assumes "ref_Commit h p = (ru, p')" "ref_view p h = Some v"
  shows "ru = Inr () \<and> srv_tables p' = v \<and> (ref_up p \<longrightarrow> ref_up p')"
  using assms by (auto simp: ref_Commit_def ref_up_def)

lemma ref_other_laws:
  "ref_Begin p = (rb, p') \<Longrightarrow> srv_tables p' = srv_tables p \<and> (\<forall>h. rb = Inr h \<longrightarrow> ref_view p' h = Some (srv_tables p))
     \<and> (ref_up p \<longrightarrow> ref_up p') \<and> (\<exists>h. rb = Inr h)"
  "ref_Rollback h p = (ru, p') \<Longrightarrow> srv_tables p' = srv_tables p \<and> (ref_up p \<longrightarrow> ref_up p')"
  "ref_QueryRow sel p = (rv, p') \<Longrightarrow> p' = p \<and> rv = run_query sel (srv_tables p)"
  by (auto simp: ref_Begin_def ref_Rollback_def ref_QueryRow_def ref_up_def ref_view_def split: option.splits)

lemma serve_keeps:
  assumes "serve f p = (r, p')" "\<And>q x q'. f q = (x, q') \<Longrightarrow> I q \<Longrightarrow> I q'" "\<And>q n. I (q\<lparr>srv_step := n\<rparr>) = I q" "I p"
  shows "I p'"
  using assms(1)
proof (cases rule: serve_cases)
  case 3
  then show ?thesis using assms(2) [OF prod.collapse [symmetric]] assms(3,4) by simp
qed (use assms in \<open>auto\<close>)

interpretation ref: pgx_driver "ref_pgx micros" srv_tables ref_view ref_up micros
proof
  fix p p' :: server and r :: "pgerr + nat"
  assume a: "pool_Begin (ref_pgx micros) p = (r, p')"
  then have "serve ref_Begin p = (r, p')" by simp
  moreover have "srv_tables p' = srv_tables p"
    by (rule serve_keeps [OF calculation, where I = "\<lambda>q. srv_tables q = srv_tables p"]) (auto dest: ref_other_laws(1))
  ultimately show "srv_tables p' = srv_tables p \<and> (\<forall>h. r = Inr h \<longrightarrow> ref_view p' h = Some (srv_tables p))
      \<and> (ref_up p \<longrightarrow> ref_up p' \<and> (\<exists>h. r = Inr h))"
    by (auto elim!: serve_cases dest!: ref_other_laws(1))
next
  fix p p' :: server and h q and rn :: "pgerr + nat"
  assume a: "tx_Exec (ref_pgx micros) h q p = (rn, p')"
  then have s: "serve (ref_Exec micros h q) p = (rn, p')" by simp
  have "srv_tables p' = srv_tables p"
    by (rule serve_keeps [OF s, where I = "\<lambda>q. srv_tables q = srv_tables p"]) (auto dest: ref_Exec_law(1))
  moreover have "\<exists>now. (\<forall>n. rn = Inr n \<longrightarrow> (\<exists>v'. exec_sql micros now q v = Inr (n, v') \<and> ref_view p' h = Some v'))
        \<and> (rn = Inl (PgError ''23505'') \<longrightarrow> exec_sql micros now q v = Inl (PgError ''23505''))
        \<and> (ref_up p \<longrightarrow> rn = map_sum id fst (exec_sql micros now q v))" if v: "ref_view p h = Some v" for v
    using s
  proof (cases rule: serve_cases)
    case 1
    from ref_Exec_law(3) [OF 1(2), of v] v show ?thesis
      by (intro exI [where x = "srv_time p"]) simp
  qed simp_all
  moreover have "ref_up p \<longrightarrow> ref_up p'"
    using s by (elim serve_cases) (auto dest: ref_Exec_law(2))
  ultimately show "srv_tables p' = srv_tables p \<and> (ref_up p \<longrightarrow> ref_up p') \<and> (\<forall>v. ref_view p h = Some v \<longrightarrow> (\<exists>now.
        (\<forall>n. rn = Inr n \<longrightarrow> (\<exists>v'. exec_sql micros now q v = Inr (n, v') \<and> ref_view p' h = Some v'))
        \<and> (rn = Inl (PgError ''23505'') \<longrightarrow> exec_sql micros now q v = Inl (PgError ''23505''))
        \<and> (ref_up p \<longrightarrow> rn = map_sum id fst (exec_sql micros now q v))))"
    by blast
next
  fix p p' :: server and h v and ru :: "pgerr + unit"
  assume a: "tx_Commit (ref_pgx micros) h p = (ru, p')" and v: "ref_view p h = Some v"
  then have s: "serve (ref_Commit h) p = (ru, p')" by simp
  have "srv_tables p' = srv_tables p \<or> srv_tables p' = v"
    using s v ref_Commit_law [where h = h and p = "p\<lparr>srv_step := Suc (srv_step p)\<rparr>" and v = v, OF prod.collapse [symmetric]]
    by (auto elim!: serve_cases dest!: ref_Commit_law)
  with s v show "(srv_tables p' = srv_tables p \<or> srv_tables p' = v) \<and> (ru = Inr () \<longrightarrow> srv_tables p' = v)
      \<and> (ref_up p \<longrightarrow> ref_up p' \<and> ru = Inr ())"
    by (auto elim!: serve_cases dest!: ref_Commit_law)
next
  fix p p' :: server and h and ru :: "pgerr + unit"
  assume a: "tx_Rollback (ref_pgx micros) h p = (ru, p')"
  then have s: "serve (ref_Rollback h) p = (ru, p')" by simp
  have "srv_tables p' = srv_tables p"
    by (rule serve_keeps [OF s, where I = "\<lambda>q. srv_tables q = srv_tables p"]) (auto dest: ref_other_laws(2))
  with s show "srv_tables p' = srv_tables p \<and> (ref_up p \<longrightarrow> ref_up p')"
    by (auto elim!: serve_cases dest!: ref_other_laws(2))
next
  fix p p' :: server and sel and rv :: "pgerr + sqlval list"
  assume a: "pool_QueryRow (ref_pgx micros) sel p = (rv, p')"
  then have s: "serve (ref_QueryRow sel) p = (rv, p')" by simp
  then show "srv_tables p' = srv_tables p \<and> (ref_up p \<longrightarrow> ref_up p')
      \<and> (\<forall>vals. rv = Inr vals \<longrightarrow> run_query sel (srv_tables p) = Inr vals)
      \<and> (rv = Inl ErrNoRows \<longrightarrow> run_query sel (srv_tables p) = Inl ErrNoRows)
      \<and> (ref_up p \<longrightarrow> rv = run_query sel (srv_tables p))"
    by (auto elim!: serve_cases dest!: ref_other_laws(3)) (auto simp: ref_QueryRow_def)
qed

end
