(* ===== verification/Valkey.thy ===== *)
theory Valkey
  imports Postgres
begin

text \<open>
  \<open>internal/infrastructure/valkey\<close>: the session cache over a Valkey server that is reached through
  go-redis. The client is a parameter, the record \<open>redis\<close> of the commands the adapter sends, over an
  opaque server state; a command also gets the time its context leaves to it, and
  a deadline that passes is an error of the command, after which its effect may or may not have happened. The locale \<open>redis_client\<close> states what a cache server promises: it may
  fail at any time and drop any entry at any time (expiry, eviction, restart), but it never invents
  one. \<open>session_cache\<close> is the contract of the port \<open>session.Cache\<close>; the adapter satisfies it for every
  payload whose expiry has a four-digit year. Lemmas: the wire format is read back exactly, and a
  payload that cannot be read is a miss.
\<close>

subsection \<open>The client\<close>

datatype rediserr = RedisNil | RedisErr string

definition redis_error :: "rediserr \<Rightarrow> error" where
  "redis_error e = ErrOther (case e of RedisNil \<Rightarrow> ''redis: nil'' | RedisErr m \<Rightarrow> m)"

record 'k redis =
  redis_Set :: "ctx_timeout \<Rightarrow> string \<Rightarrow> string \<Rightarrow> duration \<Rightarrow> 'k \<Rightarrow> (rediserr + unit) \<times> 'k"
  redis_Get :: "ctx_timeout \<Rightarrow> string \<Rightarrow> 'k \<Rightarrow> (rediserr + string) \<times> 'k"
  redis_Del :: "ctx_timeout \<Rightarrow> string \<Rightarrow> 'k \<Rightarrow> (rediserr + unit) \<times> 'k"
  redis_Ping :: "ctx_timeout \<Rightarrow> 'k \<Rightarrow> (rediserr + unit) \<times> 'k"
  redis_Close :: "'k \<Rightarrow> (rediserr + unit) \<times> 'k"

definition kv_call :: "('k \<Rightarrow> 'x \<times> 'k) \<Rightarrow> (('p, 'k) world, 'x) go" where
  "kv_call f w = (case f (w_kv w) of (x, q) \<Rightarrow> (Ret x, w\<lparr>w_kv := q\<rparr>))"

lemma wp_kv_call [wp_simps]:
  "wp (kv_call f) Q w = (case f (w_kv w) of (x, q) \<Rightarrow> Q (Ret x) (w\<lparr>w_kv := q\<rparr>))"
  by (simp add: wp_def kv_call_def split: prod.splits)

subsection \<open>The adapter\<close>

text \<open>\<open>sc_logger\<close> says whether the logger of the cache writes lines or discards them.\<close>

record 'k SessionCache =
  sc_client :: "'k redis"
  sc_logger :: bool
  sc_opTimeout :: duration

text \<open>The first step of every operation. \<open>Set\<close>, \<open>Get\<close> and \<open>Delete\<close> are called with the context of a request.\<close>

definition op_context :: "'k SessionCache \<Rightarrow> ctx_timeout \<Rightarrow> ctx_timeout" where
  "op_context c ctx = (if sc_opTimeout c > 0 then WithTimeout ctx (sc_opTimeout c) else ctx)"

definition keyPrefix :: string where
  "keyPrefix = ''identity:session:''"

definition cachePayload_fields :: "string list" where
  "cachePayload_fields = [''session_id'', ''user_id'', ''tenant_id'', ''expires_at'']"

text \<open>\<open>json.Marshal(cachePayload{...})\<close>\<close>

definition cache_wire :: "uuid_lib \<Rightarrow> CachedSession \<Rightarrow> string" where
  "cache_wire ul payload = json_strings
    [(''session_id'', uuid_String ul (cs_SessionID payload)),
     (''user_id'', uuid_String ul (cs_UserID payload)),
     (''tenant_id'', tenant_String ul (cs_TenantID payload)),
     (''expires_at'', format_RFC3339Nano (cs_ExpiresAt payload))]"

definition valkey_Set :: "'k SessionCache \<Rightarrow> uuid_lib \<Rightarrow> string \<Rightarrow> CachedSession \<Rightarrow> duration \<Rightarrow>
    (('p, 'k) world, error + unit) go" where
  "valkey_Set c ul tokenHash payload ttl =
    tryg (kv_call (redis_Set (sc_client c) (op_context c None) (keyPrefix @ tokenHash) (cache_wire ul payload) ttl))
      (\<lambda>e. ret (Inl (redis_error e))) (\<lambda>_. ret (Inr ()))"

text \<open>The part of \<open>Get\<close> after the read: each field in the order of the code, and the message that is logged
  when it is corrupt.\<close>

definition decode_payload :: "uuid_lib \<Rightarrow> string \<Rightarrow> string + CachedSession" where
  "decode_payload ul b =
    (case json_Unmarshal cachePayload_fields b of
       None \<Rightarrow> Inl ''session cache: corrupt JSON payload, treating as miss''
     | Some wire \<Rightarrow>
    (case uuid_Parse ul (wire ''session_id'') of
       None \<Rightarrow> Inl ''session cache: corrupt session_id, treating as miss''
     | Some sid \<Rightarrow>
    (case uuid_Parse ul (wire ''user_id'') of
       None \<Rightarrow> Inl ''session cache: corrupt user_id, treating as miss''
     | Some uid \<Rightarrow>
    (case tenant_Parse ul (wire ''tenant_id'') of
       Inl e \<Rightarrow> Inl ''session cache: corrupt tenant_id, treating as miss''
     | Inr tid \<Rightarrow>
    (case parse_RFC3339Nano (wire ''expires_at'') of
       None \<Rightarrow> Inl ''session cache: corrupt expires_at, treating as miss''
     | Some exp \<Rightarrow>
       Inr \<lparr>cs_SessionID = sid, cs_UserID = uid, cs_TenantID = tid, cs_ExpiresAt = exp\<rparr>)))))"

text \<open>The logged line also has the text of the parse error, which belongs to the parser and is left out.\<close>

definition valkey_Get :: "'k SessionCache \<Rightarrow> uuid_lib \<Rightarrow> string \<Rightarrow> (('p, 'k) world, error + CachedSession) go" where
  "valkey_Get c ul tokenHash =
    tryg (kv_call (redis_Get (sc_client c) (op_context c None) (keyPrefix @ tokenHash)))
      (\<lambda>e. if e = RedisNil then ret (Inl (ErrSession session_ErrCacheMiss)) else ret (Inl (redis_error e)))
      (\<lambda>b. case decode_payload ul b of
             Inl msg \<Rightarrow> seqg (if sc_logger c then slog Warn msg [] else ret ()) (ret (Inl (ErrSession session_ErrCacheMiss)))
           | Inr p \<Rightarrow> ret (Inr p))"

definition valkey_Delete :: "'k SessionCache \<Rightarrow> string \<Rightarrow> (('p, 'k) world, error + unit) go" where
  "valkey_Delete c tokenHash =
    tryg (kv_call (redis_Del (sc_client c) (op_context c None) (keyPrefix @ tokenHash))) (\<lambda>e. ret (Inl (redis_error e))) (\<lambda>_. ret (Inr ()))"

text \<open>The construction of a \<open>SessionCache\<close>. The options that go-redis reads from a URL are a record of the
  fields the adapter touches and an opaque rest; \<open>TLSConfig\<close> is \<open>None\<close> without TLS and otherwise its minimum
  version.\<close>

record 'o redis_Options =
  opt_DialTimeout :: duration
  opt_ReadTimeout :: duration
  opt_WriteTimeout :: duration
  opt_TLSMinVersion :: "nat option"
  opt_rest :: 'o

record valkey_Config =
  vc_URL :: string
  vc_DialTimeout :: duration
  vc_OpTimeout :: duration
  vc_Logger :: bool

definition VersionTLS12 :: nat where
  "VersionTLS12 = 771"

definition valkey_options :: "valkey_Config \<Rightarrow> 'o redis_Options \<Rightarrow> 'o redis_Options" where
  "valkey_options cfg opts =
    (let opts = (if vc_DialTimeout cfg > 0 then opts\<lparr>opt_DialTimeout := vc_DialTimeout cfg\<rparr> else opts);
         opts = (if vc_OpTimeout cfg > 0
                 then opts\<lparr>opt_ReadTimeout := vc_OpTimeout cfg, opt_WriteTimeout := vc_OpTimeout cfg\<rparr> else opts)
     in if opt_TLSMinVersion opts = Some 0 then opts\<lparr>opt_TLSMinVersion := Some VersionTLS12\<rparr> else opts)"

definition valkey_New ::
  "(string \<Rightarrow> error + 'o redis_Options) \<Rightarrow> ('o redis_Options \<Rightarrow> 'k redis) \<Rightarrow> valkey_Config \<Rightarrow> error + 'k SessionCache" where
  "valkey_New parseURL newClient cfg =
    (case parseURL (vc_URL cfg) of
       Inl e \<Rightarrow> Inl e
     | Inr opts \<Rightarrow> Inr \<lparr>sc_client = newClient (valkey_options cfg opts), sc_logger = vc_Logger cfg,
         sc_opTimeout = vc_OpTimeout cfg\<rparr>)"

definition valkey_Ping :: "'k SessionCache \<Rightarrow> ctx_timeout \<Rightarrow> (('p, 'k) world, error + unit) go" where
  "valkey_Ping c ctx =
    tryg (kv_call (redis_Ping (sc_client c) (op_context c ctx))) (\<lambda>e. ret (Inl (redis_error e))) (\<lambda>_. ret (Inr ()))"

definition valkey_Close :: "'k SessionCache \<Rightarrow> (('p, 'k) world, error + unit) go" where
  "valkey_Close c = tryg (kv_call (redis_Close (sc_client c))) (\<lambda>e. ret (Inl (redis_error e))) (\<lambda>_. ret (Inr ()))"

definition valkey_SessionCache :: "'k SessionCache \<Rightarrow> uuid_lib \<Rightarrow> (('p, 'k) world) Cache" where
  "valkey_SessionCache c ul = \<lparr>cache_Set = valkey_Set c ul, cache_Get = valkey_Get c ul, cache_Delete = valkey_Delete c\<rparr>"

subsection \<open>The wire format\<close>

definition cacheable :: "CachedSession \<Rightarrow> bool" where
  "cacheable p = (0 \<le> c_year (civil_of (cs_ExpiresAt p)) \<and> c_year (civil_of (cs_ExpiresAt p)) \<le> 9999)"

lemma uuid_char_safe: "uuid_char c \<Longrightarrow> json_safe c"
  by (auto simp: uuid_char_def hextable_def json_safe_def)

lemma uuid_string_safe: "uuid_laws ul \<Longrightarrow> list_all json_safe (uuid_String ul u)"
  using uuid_lawsD(3) uuid_char_safe by (auto simp: list_all_iff)

lemma digit_safe: "digit c \<Longrightarrow> json_safe c"
  by (auto simp: digit_def json_safe_def)

lemma padn_safe: "list_all json_safe (padn k n)"
  using padn_digits digit_safe by (auto simp: list_all_iff)

lemma set_trim_zeros: "set (trim_zeros s) \<subseteq> set s"
  using set_dropWhileD by (fastforce simp: trim_zeros_def)

lemma itoa_safe: "list_all json_safe (itoa n)"
  using itoa_digits digit_safe by (auto simp: list_all_iff)

lemma frac_safe: "list_all json_safe (frac_string n)"
  using set_trim_zeros [of "padn 9 n"] padn_safe [of 9 n]
  by (auto simp: frac_string_def list_all_iff) (auto simp: json_safe_def)

lemma year_safe: "list_all json_safe (year_string y)"
  by (auto simp: year_string_def Let_def padn_safe itoa_safe) (auto simp: json_safe_def)

lemma format_safe: "list_all json_safe (format_RFC3339Nano t)"
  by (simp add: format_RFC3339Nano_def Let_def padn_safe frac_safe year_safe) (simp add: json_safe_def)

lemma wire_safe:
  assumes "uuid_laws ul"
  shows "safe_members [(''session_id'', uuid_String ul a), (''user_id'', uuid_String ul b),
    (''tenant_id'', tenant_String ul t), (''expires_at'', format_RFC3339Nano e)]"
  by (simp add: safe_members_def uuid_string_safe [OF assms] tenant_String_def format_safe) (simp add: json_safe_def)

lemma unmarshal_wire:
  assumes ul: "uuid_laws ul"
  shows "json_Unmarshal cachePayload_fields (cache_wire ul p) = Some ((\<lambda>_. '''')
      (''session_id'' := uuid_String ul (cs_SessionID p), ''user_id'' := uuid_String ul (cs_UserID p),
       ''tenant_id'' := tenant_String ul (cs_TenantID p), ''expires_at'' := format_RFC3339Nano (cs_ExpiresAt p)))"
  unfolding cache_wire_def
  by (subst json_Unmarshal_strings) (simp_all add: wire_safe [OF ul] cachePayload_fields_def)

lemma decode_wire:
  assumes ul: "uuid_laws ul" and c: "cacheable p"
  shows "decode_payload ul (cache_wire ul p) = Inr p"
proof -
  note u = unmarshal_wire [OF ul]
  have e: "parse_RFC3339Nano (format_RFC3339Nano (cs_ExpiresAt p)) = Some (cs_ExpiresAt p)"
    using c parse_format_RFC3339Nano by (simp add: cacheable_def)
  show ?thesis
    by (simp add: decode_payload_def u e uuid_lawsD(1) [OF ul] tenant_Parse_def tenant_String_def)
qed

lemma decode_wire_unfit:
  assumes ul: "uuid_laws ul" and c: "\<not> cacheable p"
  shows "\<exists>msg. decode_payload ul (cache_wire ul p) = Inl msg"
proof -
  have e: "parse_RFC3339Nano (format_RFC3339Nano (cs_ExpiresAt p)) = None"
    using c parse_format_None by (simp add: cacheable_def)
  show ?thesis
    by (simp add: decode_payload_def unmarshal_wire [OF ul] e uuid_lawsD(1) [OF ul] tenant_Parse_def tenant_String_def)
qed

subsection \<open>The contract of the port\<close>

text \<open>\<open>cached w h\<close> is what the cache holds for the token hash \<open>h\<close> in a readable form; \<open>working w\<close> says
  that the server answers and drops nothing; \<open>keeps\<close> is what no operation on the cache may change.\<close>

definition shrinks :: "(string \<Rightarrow> CachedSession option) \<Rightarrow> (string \<Rightarrow> CachedSession option) \<Rightarrow> bool" where
  "shrinks m m' = (\<forall>h. m' h = m h \<or> m' h = None)"

lemma shrinks_refl [simp]: "shrinks m m"
  by (simp add: shrinks_def)

locale session_cache =
  fixes cache :: "('a rt_scheme) Cache"
    and cached :: "'a rt_scheme \<Rightarrow> string \<Rightarrow> CachedSession option"
    and working :: "'a rt_scheme \<Rightarrow> bool"
    and ok :: "CachedSession \<Rightarrow> bool"
    and keeps :: "'a rt_scheme \<Rightarrow> 'a rt_scheme \<Rightarrow> bool"
  assumes cached_frame: "rt.more w' = rt.more w \<Longrightarrow> cached w' = cached w"
    and working_frame: "rt.more w' = rt.more w \<Longrightarrow> working w' = working w"
    and set_quiet: "wp (cache_Set cache h p ttl) (\<lambda>r w'. (\<exists>x. r = Ret x) \<and> keeps w w') w"
    and set_law: "wp (cache_Set cache h p ttl) (\<lambda>r w'. (\<exists>x. r = Ret x) \<and> keeps w w'
        \<and> (\<exists>m. shrinks (cached w) m \<and> (cached w' = m \<or> cached w' = m(h := Some p)))
        \<and> (working w \<longrightarrow> working w' \<and> r = Ret (Inr ()) \<and> cached w' = (cached w)(h := (if ok p then Some p else None)))) w"
    and get_law: "wp (cache_Get cache h) (\<lambda>r w'. (\<exists>x. r = Ret x) \<and> keeps w w' \<and> shrinks (cached w) (cached w')
        \<and> (\<forall>p. r = Ret (Inr p) \<longrightarrow> cached w h = Some p)
        \<and> (working w \<longrightarrow> working w' \<and> cached w' = cached w
             \<and> r = Ret (case cached w h of None \<Rightarrow> Inl (ErrSession session_ErrCacheMiss) | Some p \<Rightarrow> Inr p))) w"
    and delete_law: "wp (cache_Delete cache h) (\<lambda>r w'. (\<exists>x. r = Ret x) \<and> keeps w w' \<and> shrinks (cached w) (cached w')
        \<and> (r = Ret (Inr ()) \<longrightarrow> cached w' h = None)
        \<and> (working w \<longrightarrow> working w' \<and> r = Ret (Inr ()) \<and> cached w' = (cached w)(h := None))) w"

subsection \<open>The server\<close>

locale redis_client =
  fixes c :: "'k SessionCache"
    and content :: "'k \<Rightarrow> string \<Rightarrow> string option"
    and kvup :: "'k \<Rightarrow> bool"
    and ul :: uuid_lib
  assumes redis_set: "redis_Set (sc_client c) d k b ttl q = (r, q') \<Longrightarrow>
      (\<exists>m. (\<forall>k'. m k' = content q k' \<or> m k' = None) \<and> (content q' = m \<or> content q' = m(k := Some b)))
      \<and> (kvup q \<longrightarrow> kvup q' \<and> r = Inr () \<and> content q' = (content q)(k := Some b))"
    and redis_get: "redis_Get (sc_client c) d k q = (rb, q') \<Longrightarrow>
      (\<forall>k'. content q' k' = content q k' \<or> content q' k' = None) \<and> (\<forall>b. rb = Inr b \<longrightarrow> content q k = Some b)
      \<and> (kvup q \<longrightarrow> kvup q' \<and> content q' = content q
           \<and> rb = (case content q k of None \<Rightarrow> Inl RedisNil | Some b \<Rightarrow> Inr b))"
    and redis_del: "redis_Del (sc_client c) d k q = (r, q') \<Longrightarrow>
      (\<forall>k'. content q' k' = content q k' \<or> content q' k' = None) \<and> (r = Inr () \<longrightarrow> content q' k = None)
      \<and> (kvup q \<longrightarrow> kvup q' \<and> r = Inr () \<and> content q' = (content q)(k := None))"
    and redis_ping: "redis_Ping (sc_client c) d q = (r, q') \<Longrightarrow>
      (\<forall>k'. content q' k' = content q k' \<or> content q' k' = None)
      \<and> (kvup q \<longrightarrow> kvup q' \<and> r = Inr () \<and> content q' = content q)"
    and uuids: "uuid_laws ul"

definition readable :: "uuid_lib \<Rightarrow> string option \<Rightarrow> CachedSession option" where
  "readable ul x = (case x of None \<Rightarrow> None | Some b \<Rightarrow>
     (case decode_payload ul b of Inl _ \<Rightarrow> None | Inr p \<Rightarrow> Some p))"

definition kv_cached :: "('k \<Rightarrow> string \<Rightarrow> string option) \<Rightarrow> uuid_lib \<Rightarrow> ('p, 'k) world \<Rightarrow> string \<Rightarrow> CachedSession option" where
  "kv_cached content ul w h = readable ul (content (w_kv w) (keyPrefix @ h))"

definition same_pg :: "('p, 'k) world \<Rightarrow> ('p, 'k) world \<Rightarrow> bool" where
  "same_pg w w' = (w_pg w' = w_pg w \<and> later w w')"

lemma w_kv_more: "rt.more w' = rt.more w \<Longrightarrow> w_kv (w' :: ('p, 'k) world) = w_kv w"
  by (cases w, cases w') (metis rt.ext_inject rt.surjective world.select_convs(2) world.surjective rt.select_convs(9))

lemma readable_None [simp]: "readable ul None = None"
  by (simp add: readable_def)

lemma readable_wire: "uuid_laws ul \<Longrightarrow> readable ul (Some (cache_wire ul p)) = (if cacheable p then Some p else None)"
  using decode_wire_unfit [of ul p] by (auto simp: readable_def decode_wire)

lemma shrinks_drop: "shrinks m c \<Longrightarrow> shrinks m (c(h := None))"
  by (simp add: shrinks_def)

context redis_client
begin

abbreviation "cached \<equiv> kv_cached content ul"

lemma readable_shrinks:
  assumes "\<forall>k. m k = content (w_kv w) k \<or> m k = None"
  shows "shrinks (cached w) (\<lambda>h. readable ul (m (keyPrefix @ h)))"
  unfolding shrinks_def
proof
  fix h
  from assms have "m (keyPrefix @ h) = content (w_kv w) (keyPrefix @ h) \<or> m (keyPrefix @ h) = None" by simp
  then show "readable ul (m (keyPrefix @ h)) = cached w h \<or> readable ul (m (keyPrefix @ h)) = None"
    by (elim disjE) (simp_all add: kv_cached_def)
qed

lemma cached_shrinks:
  assumes "\<forall>k. content q k = content (w_kv w) k \<or> content q k = None"
  shows "shrinks (cached w) (cached (w\<lparr>w_kv := q\<rparr>))"
proof -
  have "cached (w\<lparr>w_kv := q\<rparr>) = (\<lambda>h. readable ul (content q (keyPrefix @ h)))"
    by (simp add: kv_cached_def fun_eq_iff)
  then show ?thesis using readable_shrinks [OF assms] by simp
qed

lemma cached_set:
  assumes "content q = (content (w_kv w))(keyPrefix @ h := Some (cache_wire ul p))"
  shows "cached (w\<lparr>w_kv := q\<rparr>) = (cached w)(h := (if cacheable p then Some p else None))"
  using assms by (auto simp: kv_cached_def readable_wire [OF uuids])

lemma cached_del:
  "content q = (content (w_kv w))(keyPrefix @ h := None) \<Longrightarrow> cached (w\<lparr>w_kv := q\<rparr>) = (cached w)(h := None)"
  by (auto simp: kv_cached_def)

lemma valkey_set_law:
  fixes w :: "('p, 'k) world"
  shows "wp (valkey_Set c ul h p ttl) (\<lambda>r w'. (\<exists>x. r = Ret x) \<and> same_pg w w'
        \<and> (\<exists>m. shrinks (cached w) m \<and> (cached w' = m \<or> cached w' = m(h := Some p)))
        \<and> (kvup (w_kv w) \<longrightarrow> kvup (w_kv w') \<and> r = Ret (Inr ())
             \<and> cached w' = (cached w)(h := (if cacheable p then Some p else None)))) w"
proof -
  let ?k = "keyPrefix @ h" and ?b = "cache_wire ul p"
  obtain r q where Pair: "redis_Set (sc_client c) (op_context c None) ?k ?b ttl (w_kv w) = (r, q)" by fastforce
  from redis_set [OF this] obtain m where m: "\<forall>k. m k = content (w_kv w) k \<or> m k = None"
    "content q = m \<or> content q = m(?k := Some ?b)"
    and up: "kvup (w_kv w) \<longrightarrow> kvup q \<and> r = Inr () \<and> content q = (content (w_kv w))(?k := Some ?b)" by blast
  let ?c = "\<lambda>h'. readable ul (m (keyPrefix @ h'))"
  note sh = readable_shrinks [OF m(1)]
  moreover have "cached (w\<lparr>w_kv := q\<rparr>) = ?c \<or> cached (w\<lparr>w_kv := q\<rparr>) = ?c(h := Some p)
      \<or> cached (w\<lparr>w_kv := q\<rparr>) = ?c(h := None)"
    using m(2) by (cases "cacheable p") (auto simp: fun_eq_iff kv_cached_def readable_wire [OF uuids])
  ultimately have "\<exists>m. shrinks (cached w) m \<and> (cached (w\<lparr>w_kv := q\<rparr>) = m \<or> cached (w\<lparr>w_kv := q\<rparr>) = m(h := Some p))"
    using shrinks_drop [OF sh] by blast
  moreover have "kvup (w_kv w) \<longrightarrow> kvup q \<and> r = Inr ()
      \<and> cached (w\<lparr>w_kv := q\<rparr>) = (cached w)(h := (if cacheable p then Some p else None))"
    using up cached_set by blast
  ultimately show ?thesis
    by (cases r) (simp_all add: valkey_Set_def wp_simps Pair same_pg_def)
qed

lemma valkey_set_quiet:
  "wp (valkey_Set c ul h p ttl) (\<lambda>r w'. (\<exists>x. r = Ret x) \<and> same_pg w w') w"
  by (auto simp: valkey_Set_def wp_simps same_pg_def split: prod.splits sum.splits)

lemma valkey_get_law:
  fixes w :: "('p, 'k) world"
  shows "wp (valkey_Get c ul h) (\<lambda>r w'. (\<exists>x. r = Ret x) \<and> same_pg w w' \<and> shrinks (cached w) (cached w')
        \<and> (\<forall>p. r = Ret (Inr p) \<longrightarrow> cached w h = Some p)
        \<and> (kvup (w_kv w) \<longrightarrow> kvup (w_kv w') \<and> cached w' = cached w
             \<and> r = Ret (case cached w h of None \<Rightarrow> Inl (ErrSession session_ErrCacheMiss) | Some p \<Rightarrow> Inr p))) w"
proof -
  let ?k = "keyPrefix @ h"
  obtain rb q where Pair: "redis_Get (sc_client c) (op_context c None) ?k (w_kv w) = (rb, q)" by fastforce
  note all = redis_get [OF this]
  note law = all [THEN conjunct2, THEN conjunct1] all [THEN conjunct2, THEN conjunct2]
  let ?w = "w\<lparr>w_kv := q\<rparr>"
  have sh: "shrinks (cached w) (cached ?w)" by (rule cached_shrinks [OF all [THEN conjunct1]])
  have same: "kvup (w_kv w) \<longrightarrow> cached ?w = cached w" using law(2) by (simp add: kv_cached_def fun_eq_iff)
  have logs: "cached (?w\<lparr>rt_logs := l\<rparr>) = cached ?w" for l by (simp add: kv_cached_def fun_eq_iff)
  show ?thesis
  proof (cases rb)
    case (Inl e)
    with law(2) have "kvup (w_kv w) \<longrightarrow> e = RedisNil \<and> cached w h = None"
      by (simp add: kv_cached_def split: option.splits)
    with Inl law sh same show ?thesis
      by (auto simp: valkey_Get_def wp_simps Pair same_pg_def)
  next
    case (Inr b)
    with law(1) have b: "content (w_kv w) ?k = Some b" by simp
    show ?thesis
    proof (cases "decode_payload ul b")
      case (Inl msg)
      with b have "cached w h = None" by (simp add: kv_cached_def readable_def)
      with Inr Inl law sh same show ?thesis
        by (simp add: valkey_Get_def wp_simps Pair same_pg_def logs)
    next
      case (Inr p)
      with b have "cached w h = Some p" by (simp add: kv_cached_def readable_def)
      with \<open>rb = Inr b\<close> Inr law sh same show ?thesis
        by (simp add: valkey_Get_def wp_simps Pair same_pg_def)
    qed
  qed
qed

lemma valkey_delete_law:
  fixes w :: "('p, 'k) world"
  shows "wp (valkey_Delete c h) (\<lambda>r w'. (\<exists>x. r = Ret x) \<and> same_pg w w' \<and> shrinks (cached w) (cached w')
        \<and> (r = Ret (Inr ()) \<longrightarrow> cached w' h = None)
        \<and> (kvup (w_kv w) \<longrightarrow> kvup (w_kv w') \<and> r = Ret (Inr ()) \<and> cached w' = (cached w)(h := None))) w"
proof -
  let ?k = "keyPrefix @ h"
  obtain r q where Pair: "redis_Del (sc_client c) (op_context c None) ?k (w_kv w) = (r, q)" by fastforce
  note all = redis_del [OF this]
  note law = all [THEN conjunct2, THEN conjunct1] all [THEN conjunct2, THEN conjunct2]
  note cached_shrinks [OF all [THEN conjunct1]]
  moreover have "r = Inr () \<longrightarrow> cached (w\<lparr>w_kv := q\<rparr>) h = None" using law(1) by (simp add: kv_cached_def)
  ultimately show ?thesis
    using law(2) cached_del [of q w h] by (cases r) (simp_all add: valkey_Delete_def wp_simps Pair same_pg_def)
qed

end

sublocale redis_client \<subseteq> port: session_cache "valkey_SessionCache c ul" "kv_cached content ul"
  "\<lambda>w :: ('p, 'k) world. kvup (w_kv w)" cacheable same_pg
proof
  fix w w' :: "('p, 'k) world"
  assume "rt.more w' = rt.more w"
  then have "w_kv w' = w_kv w" by (rule w_kv_more)
  then show "kv_cached content ul w' = kv_cached content ul w" "kvup (w_kv w') = kvup (w_kv w)"
    by (auto simp: kv_cached_def)
qed (simp_all add: valkey_SessionCache_def valkey_set_quiet valkey_set_law valkey_get_law valkey_delete_law)

subsection \<open>A concrete cache server\<close>

record kvserver =
  kvs_map :: "(string \<times> string) list"
  kvs_down :: bool

definition ref_redis :: "kvserver redis" where
  "ref_redis =
    \<lparr>redis_Set = (\<lambda>d k b ttl q. if kvs_down q then (Inl (RedisErr ''dial tcp: refused''), q)
        else (Inr (), q\<lparr>kvs_map := (k, b) # filter (\<lambda>(k', _). k' \<noteq> k) (kvs_map q)\<rparr>)),
     redis_Get = (\<lambda>d k q. if kvs_down q then (Inl (RedisErr ''dial tcp: refused''), q)
        else (case map_of (kvs_map q) k of None \<Rightarrow> Inl RedisNil | Some b \<Rightarrow> Inr b, q)),
     redis_Del = (\<lambda>d k q. if kvs_down q then (Inl (RedisErr ''dial tcp: refused''), q)
        else (Inr (), q\<lparr>kvs_map := filter (\<lambda>(k', _). k' \<noteq> k) (kvs_map q)\<rparr>)),
     redis_Ping = (\<lambda>d q. if kvs_down q then (Inl (RedisErr ''dial tcp: refused''), q) else (Inr (), q)),
     redis_Close = (\<lambda>q. (Inr (), q))\<rparr>"

definition ref_cache :: "kvserver SessionCache" where
  "ref_cache = \<lparr>sc_client = ref_redis, sc_logger = False, sc_opTimeout = 100000000\<rparr>"

definition kvs_content :: "kvserver \<Rightarrow> string \<Rightarrow> string option" where
  "kvs_content q = map_of (kvs_map q)"

definition kvs_up :: "kvserver \<Rightarrow> bool" where
  "kvs_up q = (\<not> kvs_down q)"

lemma map_of_filter_ne: "map_of (filter (\<lambda>(k', _). k' \<noteq> k) xs) = (map_of xs)(k := None)"
  by (induction xs) auto

interpretation ref_kv: redis_client ref_cache kvs_content kvs_up canonical_uuids
proof
  show "uuid_laws canonical_uuids" by (rule canonical_uuids_laws)
next
  fix d k b ttl q q' and r :: "rediserr + unit"
  assume a: "redis_Set (sc_client ref_cache) d k b ttl q = (r, q')"
  have "kvs_content q' = (if kvs_up q then (kvs_content q)(k := Some b) else kvs_content q)"
    "kvs_up q \<longrightarrow> kvs_up q' \<and> r = Inr ()"
    using a by (auto simp: ref_cache_def ref_redis_def kvs_content_def kvs_up_def map_of_filter_ne split: if_splits)
  then show "(\<exists>m. (\<forall>k'. m k' = kvs_content q k' \<or> m k' = None) \<and> (kvs_content q' = m \<or> kvs_content q' = m(k := Some b)))
      \<and> (kvs_up q \<longrightarrow> kvs_up q' \<and> r = Inr () \<and> kvs_content q' = (kvs_content q)(k := Some b))"
    by (intro conjI exI [where x = "kvs_content q"]) simp_all
next
  fix d k q q' and rb :: "rediserr + string"
  assume a: "redis_Get (sc_client ref_cache) d k q = (rb, q')"
  then have "q' = q" by (simp add: ref_cache_def ref_redis_def split: if_splits)
  with a show "(\<forall>k'. kvs_content q' k' = kvs_content q k' \<or> kvs_content q' k' = None)
      \<and> (\<forall>b. rb = Inr b \<longrightarrow> kvs_content q k = Some b)
      \<and> (kvs_up q \<longrightarrow> kvs_up q' \<and> kvs_content q' = kvs_content q
           \<and> rb = (case kvs_content q k of None \<Rightarrow> Inl RedisNil | Some b \<Rightarrow> Inr b))"
    by (auto simp: ref_cache_def ref_redis_def kvs_content_def kvs_up_def split: if_splits option.splits)
next
  fix d k q q' and r :: "rediserr + unit"
  assume a: "redis_Del (sc_client ref_cache) d k q = (r, q')"
  have "kvs_content q' = (if kvs_up q then (kvs_content q)(k := None) else kvs_content q)"
    "kvs_up q \<longrightarrow> kvs_up q'" "r = Inr () \<longleftrightarrow> kvs_up q"
    using a by (auto simp: ref_cache_def ref_redis_def kvs_content_def kvs_up_def map_of_filter_ne split: if_splits)
  then show "(\<forall>k'. kvs_content q' k' = kvs_content q k' \<or> kvs_content q' k' = None) \<and> (r = Inr () \<longrightarrow> kvs_content q' k = None)
      \<and> (kvs_up q \<longrightarrow> kvs_up q' \<and> r = Inr () \<and> kvs_content q' = (kvs_content q)(k := None))"
    by simp
next
  fix d q q' and r :: "rediserr + unit"
  assume "redis_Ping (sc_client ref_cache) d q = (r, q')"
  then show "(\<forall>k'. kvs_content q' k' = kvs_content q k' \<or> kvs_content q' k' = None)
      \<and> (kvs_up q \<longrightarrow> kvs_up q' \<and> r = Inr () \<and> kvs_content q' = kvs_content q)"
    by (auto simp: ref_cache_def ref_redis_def kvs_up_def split: if_splits)
qed

text \<open>C24: the wire format of the cache loses nothing: for every payload whose expiry has a year of at most
  four digits, what \<open>Set\<close> writes is what \<open>Get\<close> decodes, down to the nanosecond. The UUID package is
  relied on for reading back the strings it prints.\<close>

theorem cache_wire_roundtrip:
  assumes "uuid_laws ul" "cacheable payload"
  shows "decode_payload ul (cache_wire ul payload) = Inr payload"
  using assms by (rule decode_wire)

definition sample_payload :: CachedSession where
  "sample_payload = \<lparr>cs_SessionID = 7, cs_UserID = 8, cs_TenantID = ID 1, cs_ExpiresAt = 1780000000123456789\<rparr>"

lemma year_civil: "c_year (civil_of t) = year_of_days (t div 1000000000 div 86400 + unix_day_zero)"
  by (simp only: civil_of_def Let_def civil.simps)

lemma sample_cacheable: "cacheable sample_payload"
  unfolding cacheable_def year_civil by code_simp

theorem cache_wire_roundtrip_witness:
  "decode_payload canonical_uuids (cache_wire canonical_uuids sample_payload) = Inr sample_payload"
  by (rule cache_wire_roundtrip [OF canonical_uuids_laws sample_cacheable])

end
