(* ===== verification/Transactions.thy ===== *)
theory Transactions
  imports Argon2id Valkey
begin

text \<open>
  What the use cases share: the JSON payloads of the outbox events, and the rule for the transaction
  idiom \<open>in_tx\<close> over any store that satisfies \<open>identity_store\<close>: a body that returns an error or panics
  leaves the committed data as they were before its last \<open>Commit\<close>. The locale \<open>use_case_env\<close> collects
  the ports a use case is built from, with the contracts of all of them.
\<close>

subsection \<open>Event payloads\<close>

definition json_with_time :: "(string \<times> string) list \<Rightarrow> string \<Rightarrow> time \<Rightarrow> string option" where
  "json_with_time ms key t =
    (case time_MarshalJSON t of None \<Rightarrow> None
     | Some ts \<Rightarrow> Some (json_object (map (\<lambda>(k, v). (k, json_quote v)) ms @ [(key, ts)])))"

definition user_created_payload :: "uuid_lib \<Rightarrow> uuid \<Rightarrow> tenant_ID \<Rightarrow> Email \<Rightarrow> time \<Rightarrow> string option" where
  "user_created_payload ul userID t email now = json_with_time
    [(''user_id'', uuid_String ul userID), (''tenant_id'', tenant_String ul t), (''email'', email_String email)]
    ''created_at'' now"

definition session_created_payload :: "uuid_lib \<Rightarrow> uuid \<Rightarrow> uuid \<Rightarrow> tenant_ID \<Rightarrow> time \<Rightarrow> string option" where
  "session_created_payload ul sessionID userID t now = json_with_time
    [(''session_id'', uuid_String ul sessionID), (''user_id'', uuid_String ul userID),
     (''tenant_id'', tenant_String ul t)] ''created_at'' now"

definition session_revoked_payload :: "uuid_lib \<Rightarrow> uuid \<Rightarrow> uuid \<Rightarrow> tenant_ID \<Rightarrow> time \<Rightarrow> string option" where
  "session_revoked_payload ul sessionID userID t now = json_with_time
    [(''session_id'', uuid_String ul sessionID), (''user_id'', uuid_String ul userID),
     (''tenant_id'', tenant_String ul t)] ''revoked_at'' now"

subsection \<open>The transaction rule\<close>

lemma save_session_New: "save_session rnd (session_New a b c d e f) s = Some s' \<Longrightarrow>
    s' = s\<lparr>st_sessions := st_sessions s @ [round_session rnd (session_New a b c d e f)]\<rparr>"
  by (auto simp: save_session_def session_New_def split: if_splits)

lemma save_user_Some: "save_user rnd u s = Some s' \<longleftrightarrow>
    \<not> user_conflict u s \<and> s' = s\<lparr>st_users := st_users s @ [round_user rnd u]\<rparr>"
  by (auto simp: save_user_def)

lemma write_event_Some: "write_event rnd e s = Some s' \<Longrightarrow> s' = s\<lparr>st_events := st_events s @ [round_event rnd e]\<rparr>"
  by (auto simp: write_event_def split: if_splits)

lemma wp_option [wp_simps]:
  "wp (case x of None \<Rightarrow> m | Some a \<Rightarrow> f a) Q w = (case x of None \<Rightarrow> wp m Q w | Some a \<Rightarrow> wp (f a) Q w)"
  by (cases x) simp_all

context identity_store
begin

text \<open>\<open>after w s\<close>: the committed data are \<open>s\<close>, and the server is as healthy as it was in \<open>w\<close>.\<close>

definition after :: "'a rt_scheme \<Rightarrow> store \<Rightarrow> 'a rt_scheme \<Rightarrow> bool" where
  "after w s w' = (db w' s \<and> later w w' \<and> (healthy w \<longrightarrow> healthy w'))"

lemma after_db: "after w0 s w \<Longrightarrow> db w s"
  by (simp add: after_def)

lemma after_step: "after w0 s w \<Longrightarrow> later w w' \<Longrightarrow> db w' s' \<Longrightarrow> (healthy w \<Longrightarrow> healthy w') \<Longrightarrow> after w0 s' w'"
  unfolding after_def using later_trans by blast

lemma in_tx_rule:
  assumes a0: "after w0 s w"
    and body: "\<And>w' tx. after w0 s w' \<Longrightarrow> view w' tx s \<Longrightarrow>
      wp (body tx) (\<lambda>r u. case r of Ret (Inr a) \<Rightarrow> Q r u | _ \<Rightarrow> \<exists>s'. after w0 s' u \<and> (\<forall>u'. after w0 s' u' \<longrightarrow> Q r u')) w'"
    and begin_err: "\<And>w'. after w0 s w' \<Longrightarrow> \<not> healthy w0 \<Longrightarrow> Q (Ret (Inl e)) w'"
  shows "wp (in_tx uow e body) Q w"
  unfolding in_tx_def
proof (simp only: wp_tryg, rule wp_mono [OF begin_law [OF after_db [OF a0]]], goal_cases)
  case (1 r w')
  then have a: "after w0 s w'" by (intro after_step [OF a0]) auto
  from 1 obtain x where r: "r = Ret x" by blast
  show ?case
  proof (cases x)
    case (Inl er)
    with 1 r a0 have "\<not> healthy w0" by (auto simp: after_def)
    with Inl r begin_err [OF a] show ?thesis by (simp add: wp_simps)
  next
    case (Inr tx)
    with 1 r have v: "view w' tx s" by simp
    have roll: "wp (bindg (uow_Rollback uow tx) (\<lambda>_. ret ()))
        (\<lambda>r' u'. case r' of Ret _ \<Rightarrow> Q rr u' | Panic p \<Rightarrow> Q (Panic p) u') u"
      if s': "after w0 s' u" and q: "\<forall>u'. after w0 s' u' \<longrightarrow> Q rr u'" for rr s' u
    proof -
      from s' have d: "db u s'" by (simp add: after_def)
      show ?thesis
        unfolding wp_simps by (rule wp_mono [OF rollback_law [OF d]]) (use q in \<open>auto intro: after_step [OF s']\<close>)
    qed
    let ?d = "\<lambda>r. case r of Ret (Inr _) \<Rightarrow> ret () | _ \<Rightarrow> bindg (uow_Rollback uow tx) (\<lambda>_. ret ())"
    have "wp (deferg ?d (body tx)) Q w'"
      unfolding wp_deferg
    proof (rule wp_mono [OF body [OF a v]], goal_cases)
      case (1 rr u)
      then show ?case
        by (cases rr rule: outcome.exhaust; cases "case rr of Ret y \<Rightarrow> y | Panic p \<Rightarrow> undefined")
           (auto simp: wp_ret intro: roll)
    qed
    then show ?thesis by (simp add: r Inr)
  qed
qed

end

context identity_store
begin

text \<open>One step per write and one for \<open>Commit\<close>, inside a transaction that was begun in \<open>w0\<close>.\<close>

lemma write_step:
  assumes m: "write_ok db view healthy tx m refused R" and a: "after w0 s w" and v: "view w tx v"
    and succ: "\<And>w' v'. R v v' \<Longrightarrow> after w0 s w' \<Longrightarrow> view w' tx v' \<Longrightarrow> rt.truncate w' = rt.truncate w \<Longrightarrow> wp (k ()) Q w'"
    and err: "\<And>e w'. after w0 s w' \<Longrightarrow> (e \<in> refused \<Longrightarrow> \<nexists>v'. R v v') \<Longrightarrow> (healthy w0 \<Longrightarrow> \<nexists>v'. R v v') \<Longrightarrow>
      (healthy w0 \<Longrightarrow> refused \<noteq> {} \<Longrightarrow> e \<in> refused) \<Longrightarrow> wp (h e) Q w'"
  shows "wp (tryg m h k) Q w"
  unfolding wp_tryg
proof (rule wp_mono [OF m [unfolded write_ok_def, rule_format, OF after_db [OF a] v]], goal_cases)
  case (1 r w')
  note 2 = 1
  then have t: "rt.truncate w' = rt.truncate w" by blast
  from 2 have a': "after w0 s w'" by (intro after_step [OF a later_truncate [OF t]]) auto
  from 2 obtain x where r: "r = Ret x" by blast
  show ?case
  proof (cases x)
    case (Inl e)
    have "e \<in> refused \<Longrightarrow> \<nexists>v'. R v v'" "healthy w0 \<Longrightarrow> \<nexists>v'. R v v'"
      "healthy w0 \<Longrightarrow> refused \<noteq> {} \<Longrightarrow> e \<in> refused"
      using 2 a Inl r by (auto simp: after_def)
    with err [OF a'] show ?thesis by (simp add: r Inl)
  next
    case (Inr y)
    with 2 r obtain v' where "R v v'" "view w' tx v'" by auto
    from succ [OF this(1) a' this(2) t] show ?thesis by (simp add: r Inr)
  qed
qed

lemma commit_step:
  assumes a: "after w0 s w" and v: "view w tx v"
    and succ: "\<And>w'. after w0 v w' \<Longrightarrow> wp (k ()) Q w'"
    and err: "\<And>e w' s'. s' = s \<or> s' = v \<Longrightarrow> after w0 s' w' \<Longrightarrow> \<not> healthy w0 \<Longrightarrow> wp (h e) Q w'"
  shows "wp (tryg (uow_Commit uow tx) h k) Q w"
  unfolding wp_tryg
proof (rule wp_mono [OF commit_law [OF after_db [OF a] v]], goal_cases)
  case (1 r w')
  note 2 = 1
  from 2 obtain x where r: "r = Ret x" by blast
  show ?case
  proof (cases x)
    case (Inl e)
    from 2 a r Inl have "\<not> healthy w0" by (auto simp: after_def)
    moreover from 2 have "after w0 s w' \<or> after w0 v w'" by (auto intro: after_step [OF a])
    ultimately show ?thesis using err by (auto simp: r Inl)
  next
    case (Inr y)
    with 2 r have "after w0 v w'" by (intro after_step [OF a]) auto
    with succ show ?thesis by (simp add: r Inr)
  qed
qed

lemma after_frame:
  assumes "quiet w w'" "after w0 s w"
  shows "after w0 s w'"
  using db_frame [OF quiet_more [OF assms(1)]] healthy_frame [OF quiet_more [OF assms(1)]] assms
  by (auto simp: after_def quiet_def intro: later_trans)

lemma uuid_step:
  assumes "after w0 s w" "view w tx v"
    and "\<And>u w'. after w0 s w' \<Longrightarrow> view w' tx v \<Longrightarrow> wp (k u) Q w'"
    and "\<And>w'. after w0 s w' \<Longrightarrow> Q (Panic ''uuid.New'') w'"
  shows "wp (bindg uuid_New k) Q w"
proof -
  have m: "quiet w (w\<lparr>rt_uuids_i := Suc (rt_uuids_i w)\<rparr>)" by simp
  note f = after_frame [OF m assms(1)] view_frame [OF quiet_more [OF m]]
  show ?thesis
    using assms f by (auto simp: wp_simps split: option.splits)
qed

text \<open>On a healthy server an event with a new identifier is written, and the next identifier is drawn after it.\<close>

lemma event_live:
  assumes a: "after w s w1" and v: "view w1 tx v" and up: "healthy w"
    and u: "rt_uuids w1 (rt_uuids_i w1) = Some u" "u \<notin> event_id ` set (st_events v)"
    and k: "\<And>w2. after w s w2 \<Longrightarrow> rt_uuids_i w2 = Suc (rt_uuids_i w1) \<Longrightarrow>
      view w2 tx (v\<lparr>st_events := st_events v @ [round_event rnd (outbox_New u t ag aid topic p now)]\<rparr>) \<Longrightarrow> wp (k ()) Q w2"
  shows "wp (bindg uuid_New (\<lambda>eid. tryg (outbox_WriteTx outbox tx (outbox_New eid t ag aid topic p now)) h k)) Q w1"
proof -
  let ?w = "w1\<lparr>rt_uuids_i := Suc (rt_uuids_i w1)\<rparr>"
  have q: "quiet w1 ?w" by simp
  have a2: "after w s ?w" "view ?w tx v"
    using after_frame [OF q a] view_frame [OF quiet_more [OF q]] v by auto
  have "wp (tryg (outbox_WriteTx outbox tx (outbox_New u t ag aid topic p now)) h k) Q ?w"
  proof (rule write_step [OF write_event_law a2], goal_cases)
    case (1 w2 v2)
    then have "rt_uuids_i w2 = Suc (rt_uuids_i w1)" by (simp add: rt.truncate_def)
    with 1(2) show ?case by (rule k) (use 1(1,3) write_event_Some in auto)
  next
    case (2 e w2)
    then show ?case using up u(2) by (auto simp: write_event_def outbox_New_def)
  qed
  with u(1) show ?thesis by (simp add: wp_bindg wp_uuid_New)
qed

text \<open>So the last event of a transaction is written and the transaction commits.\<close>

lemma event_commit_live:
  assumes a: "after w s w1" and v: "view w1 tx v1" and up: "healthy w" and ev: "st_events v1 = st_events s"
    and ids: "\<And>n. \<exists>u. rt_uuids w n = Some u \<and> u \<notin> event_id ` set (st_events s)"
  shows "wp (bindg uuid_New (\<lambda>eid. tryg (outbox_WriteTx outbox tx (outbox_New eid t ag aid topic p now)) (\<lambda>_. ret (Inl e))
      (\<lambda>_. tryg (uow_Commit uow tx) (\<lambda>_. ret (Inl e)) (\<lambda>_. ret (Inr ()))))) (\<lambda>r z. r = Ret (Inr ())) w1"
proof -
  have "rt_uuids w1 = rt_uuids w" using a by (simp add: after_def later_def)
  then obtain u where u: "rt_uuids w1 (rt_uuids_i w1) = Some u" "u \<notin> event_id ` set (st_events v1)"
    using ids [of "rt_uuids_i w1"] ev by auto
  show ?thesis
  proof (rule event_live [OF a v up u], goal_cases)
    case (1 w2)
    show ?case by (rule commit_step [OF 1(1,3)]) (use up in \<open>auto simp: wp_ret\<close>)
  qed
qed

end

subsection \<open>Writing a new session through to the cache\<close>

definition cache_write_through ::
  "uuid_lib \<Rightarrow> ('a rt_scheme) Cache option \<Rightarrow> string \<Rightarrow> Token \<Rightarrow> CachedSession \<Rightarrow> ('a rt_scheme, unit) go" where
  "cache_write_through ul cache msg tok payload =
    (case cache of None \<Rightarrow> ret ()
     | Some c \<Rightarrow>
       bindg (time_Until (cs_ExpiresAt payload)) (\<lambda>ttl.
         tryg (cache_Set c (hex_EncodeToString (token_Hash tok)) payload ttl)
           (\<lambda>e. slog Warn msg [(''session_id'', uuid_String ul (cs_SessionID payload)), (''err'', error_Error e)])
           (\<lambda>_. ret ())))"

subsection \<open>Calls that leave the cache alone\<close>

definition leaves :: "('w \<Rightarrow> 'c) \<Rightarrow> ('w, 'x) go \<Rightarrow> bool" where
  "leaves f m = (\<forall>w. wp m (\<lambda>r w'. f w' = f w) w)"

named_theorems leaves_intro "calls that leave a part of the world alone"

lemma leavesD: "leaves f m \<Longrightarrow> wp m (\<lambda>r w'. f w' = f w) w"
  by (simp add: leaves_def)

lemma leaves_ret [leaves_intro]: "leaves f (ret a)"
  by (simp add: leaves_def wp_simps)

lemma leaves_bindg [leaves_intro]:
  assumes "leaves f m" "\<And>a. leaves f (k a)"
  shows "leaves f (bindg m k)"
  unfolding leaves_def wp_bindg
proof
  fix w
  show "wp m (\<lambda>r w'. case r of Ret a \<Rightarrow> wp (k a) (\<lambda>r w'. f w' = f w) w' | Panic p \<Rightarrow> f w' = f w) w"
  proof (rule wp_mono [OF leavesD [OF assms(1)]], goal_cases)
    case (1 r w')
    then show ?case
      using leavesD [OF assms(2), of _ w'] by (auto split: outcome.splits elim!: wp_mono)
  qed
qed

lemma leaves_seqg [leaves_intro]: "leaves f m \<Longrightarrow> leaves f n \<Longrightarrow> leaves f (seqg m n)"
  unfolding seqg_def by (rule leaves_bindg)

lemma leaves_tryg [leaves_intro]:
  "leaves f m \<Longrightarrow> (\<And>e. leaves f (h e)) \<Longrightarrow> (\<And>a. leaves f (k a)) \<Longrightarrow> leaves f (tryg m h k)"
  unfolding tryg_def by (rule leaves_bindg) (auto split: sum.splits)

lemma leaves_if [leaves_intro]: "leaves f m \<Longrightarrow> leaves f n \<Longrightarrow> leaves f (if b then m else n)"
  by simp

lemma leaves_option [leaves_intro]:
  "leaves f m \<Longrightarrow> (\<And>a. leaves f (k a)) \<Longrightarrow> leaves f (case x of None \<Rightarrow> m | Some a \<Rightarrow> k a)"
  by (cases x) simp_all

lemma leaves_deferg [leaves_intro]:
  assumes "leaves f m" "\<And>r. leaves f (d r)"
  shows "leaves f (deferg d m)"
  unfolding leaves_def wp_deferg
proof
  fix w
  show "wp m (\<lambda>r w'. wp (d r) (\<lambda>r' w''. case r' of Ret _ \<Rightarrow> f w'' = f w | Panic p \<Rightarrow> f w'' = f w) w') w"
  proof (rule wp_mono [OF leavesD [OF assms(1)]], goal_cases)
    case (1 r w')
    then show ?case
      using leavesD [OF assms(2), of r w'] by (auto split: outcome.splits elim!: wp_mono)
  qed
qed

lemma leaves_in_tx [leaves_intro]:
  assumes "leaves f (uow_Begin uow)" "\<And>tx. leaves f (uow_Rollback uow tx)" "\<And>tx. leaves f (body tx)"
  shows "leaves f (in_tx uow e body)"
  unfolding in_tx_def using assms
  by (auto intro!: leaves_intro split: outcome.splits sum.splits)

subsection \<open>The ports of a use case\<close>

locale use_case_env =
  identity_store users sessions db healthy uow outbox view rnd
  + cache: session_cache cache cached working ok keeps
  + hasher: password_hasher hasher verifies cost usable
  + tokens: token_generator tokens tkeeps
  for users :: "('a rt_scheme) UserRepository" and sessions :: "('a rt_scheme) SessionRepository"
    and db :: "'a rt_scheme \<Rightarrow> store \<Rightarrow> bool" and healthy :: "'a rt_scheme \<Rightarrow> bool"
    and uow :: "('a rt_scheme) UnitOfWork" and outbox :: "('a rt_scheme) OutboxRepository"
    and view :: "'a rt_scheme \<Rightarrow> Tx \<Rightarrow> store \<Rightarrow> bool" and rnd :: "time \<Rightarrow> time"
    and cache :: "('a rt_scheme) Cache" and cached :: "'a rt_scheme \<Rightarrow> string \<Rightarrow> CachedSession option"
    and working :: "'a rt_scheme \<Rightarrow> bool" and ok :: "CachedSession \<Rightarrow> bool"
    and keeps :: "'a rt_scheme \<Rightarrow> 'a rt_scheme \<Rightarrow> bool"
    and hasher :: "('a rt_scheme) PasswordHasher" and verifies :: "PasswordHash \<Rightarrow> string \<Rightarrow> bool"
    and cost :: "PasswordHash \<Rightarrow> string \<Rightarrow> kdf_call list" and usable :: "PasswordHash \<Rightarrow> bool"
    and tokens :: "('a rt_scheme) TokenGenerator" and tkeeps :: "'a rt_scheme \<Rightarrow> 'a rt_scheme \<Rightarrow> bool" +
  fixes clk :: "('a rt_scheme) Clock"
  assumes clock_law: "wp (clock_Now clk) (\<lambda>r w'. quiet w w' \<and> (\<exists>t. r = Ret t)) w"
    and cache_keeps: "keeps w w' \<Longrightarrow> later w w' \<and> db w' s = db w s \<and> healthy w' = healthy w"
    and tokens_keep: "tkeeps w w' \<Longrightarrow> later w w' \<and> db w' s = db w s \<and> healthy w' = healthy w \<and> cached w' = cached w \<and> working w' = working w"
    and leaves_store:
      "leaves cached (uow_Begin uow)" "leaves cached (uow_Commit uow tx)" "leaves cached (uow_Rollback uow tx)"
      "leaves cached (users_SaveTx users tx u)" "leaves cached (users_FindByEmail users t e)"
      "leaves cached (users_FindByID users t i)" "leaves cached (sessions_SaveTx sessions tx x)"
      "leaves cached (sessions_RevokeTx sessions tx t i)" "leaves cached (sessions_FindByTokenHash sessions h)"
      "leaves cached (outbox_WriteTx outbox tx ev)"
    and leaves_store_working:
      "leaves working (uow_Begin uow)" "leaves working (uow_Commit uow tx)" "leaves working (uow_Rollback uow tx)"
      "leaves working (users_SaveTx users tx u)" "leaves working (users_FindByEmail users t e)"
      "leaves working (users_FindByID users t i)" "leaves working (sessions_SaveTx sessions tx x)"
      "leaves working (sessions_RevokeTx sessions tx t i)" "leaves working (sessions_FindByTokenHash sessions h)"
      "leaves working (outbox_WriteTx outbox tx ev)"
begin

lemma leaves_more: "(\<And>w. wp m (\<lambda>r w'. rt.more w' = rt.more w) w) \<Longrightarrow> leaves cached m \<and> leaves working m"
  unfolding leaves_def using cache.cached_frame cache.working_frame by (blast intro: wp_mono)

lemma after_keeps: "keeps w w' \<Longrightarrow> after w0 s w \<Longrightarrow> after w0 s w'"
  using cache_keeps [of w w'] by (auto intro: after_step simp: after_db)

lemma after_tkeeps: "tkeeps w w' \<Longrightarrow> after w0 s w \<Longrightarrow> after w0 s w'"
  using tokens_keep [of w w'] by (auto intro: after_step simp: after_db)

lemma leaves_rt: "leaves cached uuid_New" "leaves working uuid_New"
  "leaves cached (slog l m a)" "leaves working (slog l m a)"
  by (simp_all add: leaves_more wp_simps)

text \<open>Steps before the transaction: neither the data nor the cache have changed.\<close>

definition still :: "'a rt_scheme \<Rightarrow> store \<Rightarrow> 'a rt_scheme \<Rightarrow> bool" where
  "still w0 s w = (after w0 s w \<and> cached w = cached w0)"

lemma still_after: "still w0 s w \<Longrightarrow> after w0 s w"
  by (simp add: still_def)

lemma still_refl: "db w s \<Longrightarrow> still w s w"
  by (simp add: still_def after_def)

lemma still_frame: "quiet w w' \<Longrightarrow> still w0 s w \<Longrightarrow> still w0 s w'"
  using after_frame cache.cached_frame [OF quiet_more] by (simp add: still_def)

lemma still_tkeeps: "tkeeps w w' \<Longrightarrow> still w0 s w \<Longrightarrow> still w0 s w'"
  using after_tkeeps tokens_keep by (simp add: still_def)

lemma try_step:
  assumes m: "wp m (\<lambda>r w'. (\<forall>s. still w0 s w \<longrightarrow> still w0 s w') \<and> (\<exists>x. r = Ret x) \<and> (\<forall>a. r = Ret (Inr a) \<longrightarrow> P a)) w"
    and a: "still w0 s w"
    and k: "\<And>a w'. P a \<Longrightarrow> still w0 s w' \<Longrightarrow> wp (k a) Q w'" and h: "\<And>e w'. still w0 s w' \<Longrightarrow> wp (h e) Q w'"
  shows "wp (tryg m h k) Q w"
  unfolding wp_tryg by (rule wp_mono [OF m]) (use a k h in \<open>auto split: outcome.splits sum.splits\<close>)

lemma hash_step: "wp (hasher_Hash hasher raw) (\<lambda>r w'. (\<forall>s. still w0 s w \<longrightarrow> still w0 s w') \<and> (\<exists>x. r = Ret x)
    \<and> (\<forall>h. r = Ret (Inr h) \<longrightarrow> usable h \<and> verifies h raw)) w"
  by (rule wp_mono [OF hasher.hash_law]) (use still_frame in blast)

lemma token_step: "wp (tokens_NewToken tokens) (\<lambda>r w'. (\<forall>s. still w0 s w \<longrightarrow> still w0 s w') \<and> (\<exists>x. r = Ret x)
    \<and> (\<forall>t. r = Ret (Inr t) \<longrightarrow> 32 \<le> length (token_String t) \<and> length (token_String t) \<le> 128)) w"
  by (rule wp_mono [OF tokens.token_law]) (use still_tkeeps in blast)

lemma clock_step:
  assumes "still w0 s w" "\<And>t w'. still w0 s w' \<Longrightarrow> wp (k t) Q w'"
  shows "wp (bindg (clock_Now clk) k) Q w"
  unfolding wp_bindg
proof (rule wp_mono [OF clock_law], goal_cases)
  case (1 r w')
  then have "still w0 s w'" using assms(1) still_frame by blast
  with 1 assms(2) show ?case by auto
qed

lemma uuid_bind:
  assumes "still w0 s w" "\<And>u w'. still w0 s w' \<Longrightarrow> wp (k u) Q w'" "\<And>w'. still w0 s w' \<Longrightarrow> Q (Panic ''uuid.New'') w'"
  shows "wp (bindg uuid_New k) Q w"
proof -
  have m: "quiet w (w\<lparr>rt_uuids_i := Suc (rt_uuids_i w)\<rparr>)" by simp
  show ?thesis
    using assms still_frame [OF m assms(1)] by (auto simp: wp_simps split: option.splits)
qed

lemma write_through_db:
  assumes "after w0 s w"
  shows "wp (cache_write_through ul (Some cache) msg tok payload) (\<lambda>r w'. r = Ret () \<and> after w0 s w') w"
proof -
  let ?w = "w\<lparr>rt_clock_i := Suc (rt_clock_i w)\<rparr>"
  have m: "quiet w ?w" by simp
  show ?thesis
    unfolding cache_write_through_def option.case wp_bindg wp_time_Until outcome.case wp_tryg
  proof (rule wp_mono [OF cache.set_quiet], goal_cases)
    case (1 r w')
    then have k: "after w0 s w'"
      using after_keeps after_frame [OF m assms] by blast
    have l: "quiet w' (w'\<lparr>rt_logs := x\<rparr>)" for x by simp
    from 1 k after_frame [OF l k] show ?case
      by (auto simp: wp_simps split: outcome.splits sum.splits)
  qed
qed

lemma write_through_cached:
  "wp (cache_write_through ul (Some cache) msg tok payload) (\<lambda>r w'.
      (\<exists>m. shrinks (cached w) m \<and> (cached w' = m \<or> cached w' = m(hex_EncodeToString (token_Hash tok) := Some payload)))
      \<and> (working w \<longrightarrow> working w' \<and> cached w' = (cached w)(hex_EncodeToString (token_Hash tok) :=
           (if ok payload then Some payload else None)))) w"
proof -
  let ?w = "w\<lparr>rt_clock_i := Suc (rt_clock_i w)\<rparr>"
  have m: "rt.more ?w = rt.more w" by simp
  note f = cache.cached_frame [OF m] cache.working_frame [OF m]
  show ?thesis
    unfolding cache_write_through_def option.case wp_bindg wp_time_Until outcome.case wp_tryg
  proof (rule wp_mono [OF cache.set_law], goal_cases)
    case (1 r w')
    have l: "rt.more (w'\<lparr>rt_logs := x\<rparr>) = rt.more w'" for x by simp
    note g = cache.cached_frame [OF l] cache.working_frame [OF l]
    from 1 f g show ?case
      by (auto simp: wp_simps split: outcome.splits sum.splits)
  qed
qed

text \<open>What a written entry can do to the cache: other entries may be lost, one may be there.\<close>

definition gains :: "'a rt_scheme \<Rightarrow> 'a rt_scheme \<Rightarrow> string \<Rightarrow> CachedSession \<Rightarrow> bool" where
  "gains w z h p = (\<exists>m. shrinks (cached w) m \<and> (cached z = m \<or> cached z = m(h := Some p)))"

definition caches_last :: "'a rt_scheme \<Rightarrow> 'a rt_scheme \<Rightarrow> time \<Rightarrow> store \<Rightarrow> bool" where
  "caches_last w z expiresAt s =
    (let x = last (st_sessions s);
         p = \<lparr>cs_SessionID = session_id x, cs_UserID = session_userID x, cs_TenantID = session_tenantID x,
              cs_ExpiresAt = expiresAt\<rparr>
     in gains w z (hex_EncodeToString (session_tokenHash x)) p)"

lemma caches_lastI:
  assumes "last (st_sessions s) = round_session rnd (session_New sid t u h now e)"
    and "gains w z (hex_EncodeToString h) \<lparr>cs_SessionID = sid, cs_UserID = u, cs_TenantID = t, cs_ExpiresAt = expiresAt\<rparr>"
  shows "caches_last w z expiresAt s"
  using assms by (simp add: caches_last_def session_New_def)

lemma gains_cong: "cached w' = cached w \<Longrightarrow> gains w' z h p = gains w z h p"
  by (simp add: gains_def)

lemma write_through_both:
  assumes "after w0 s w"
  shows "wp (cache_write_through ul (Some cache) msg tok payload) (\<lambda>r w'. r = Ret () \<and> after w0 s w'
    \<and> gains w w' (hex_EncodeToString (token_Hash tok)) payload) w"
  by (rule wp_mono [OF wp_conj [OF write_through_db [OF assms] write_through_cached]]) (auto simp: gains_def)

end

end
