(* ===== verification/Production.thy ===== *)
theory Production
  imports Transactions
begin

text \<open>
  The environment that \<open>cmd/server\<close> builds: Postgres, Valkey, Argon2id, opaque tokens and the real
  clock. \<open>production\<close> collects the hypotheses about the code outside the repository (the database
  server with its driver, the cache server with its client, the KDF and the UUID package);
  \<open>sublocale\<close> shows that the adapters then satisfy the contracts of all ports. \<open>ref_production\<close>
  instantiates the hypotheses with concrete servers.
\<close>

locale production =
  pgx_driver drv committed txview up rnd + redis_client cl content kvup ul + argon2id kdf ps
  for drv :: "'p pgx" and committed :: "'p \<Rightarrow> tables" and txview :: "'p \<Rightarrow> nat \<Rightarrow> tables option"
    and up :: "'p \<Rightarrow> bool" and rnd :: "time \<Rightarrow> time"
    and cl :: "'k SessionCache" and content :: "'k \<Rightarrow> string \<Rightarrow> string option" and kvup :: "'k \<Rightarrow> bool"
    and ul :: uuid_lib and kdf :: argon2_kdf and ps :: Params

lemma leaves_pg_call: "leaves f (pg_call g :: (('p, 'k) world, 'x) go)"
  if "\<And>w p. f (w\<lparr>w_pg := p\<rparr>) = f w"
  using that by (auto simp: leaves_def wp_simps split: prod.splits)

lemma leaves_sum [leaves_intro]:
  "(\<And>e. leaves f (m e)) \<Longrightarrow> (\<And>a. leaves f (k a)) \<Longrightarrow> leaves f (case x of Inl e \<Rightarrow> m e | Inr a \<Rightarrow> k a)"
  by (cases x) simp_all

text \<open>The database adapters touch nothing but the database.\<close>

lemma leaves_pg:
  fixes f :: "('p, 'k) world \<Rightarrow> 'c"
  assumes "\<And>w p. f (w\<lparr>w_pg := p\<rparr>) = f w"
  shows "leaves f (pg_Begin drv)" "leaves f (pg_Commit drv tx)" "leaves f (pg_Rollback drv tx)"
    "leaves f (pg_users_SaveTx drv tx u)" "leaves f (pg_users_FindByEmail drv t e)"
    "leaves f (pg_users_FindByID drv t i)" "leaves f (pg_sessions_SaveTx drv tx x)"
    "leaves f (pg_sessions_RevokeTx drv tx t i)" "leaves f (pg_sessions_FindByTokenHash drv h)"
    "leaves f (pg_outbox_WriteTx drv tx ev)"
  unfolding pg_Begin_def pg_Commit_def pg_Rollback_def pg_users_SaveTx_def pg_users_FindByEmail_def
    pg_users_FindByID_def pg_scanOne_def pg_sessions_SaveTx_def pg_sessions_RevokeTx_def
    pg_sessions_FindByTokenHash_def pg_outbox_WriteTx_def
  by (intro leaves_intro leaves_pg_call assms)+

lemma kv_frame:
  "kv_cached content ul (w\<lparr>w_pg := p\<rparr>) = kv_cached content ul w" "kvup (w_kv (w\<lparr>w_pg := p\<rparr>)) = kvup (w_kv w)"
  by (simp_all add: kv_cached_def fun_eq_iff)

lemmas pg_port_defs = pg_UnitOfWork_def pg_UserRepository_def pg_SessionRepository_def pg_OutboxRepository_def

sublocale production \<subseteq> env: use_case_env
  "pg_UserRepository drv" "pg_SessionRepository drv" "pg_db committed"
  "\<lambda>w :: ('p, 'k) world. up (w_pg w)" "pg_UnitOfWork drv" "pg_OutboxRepository drv" "pg_view txview" rnd
  "valkey_SessionCache cl ul" "kv_cached content ul" "\<lambda>w :: ('p, 'k) world. kvup (w_kv w)" cacheable same_pg
  "argon2_Hasher kdf ps" "argon2_verifies kdf" argon2_cost argon2_usable
  opaque_Generator quiet clock_Real
proof (intro use_case_env.intro use_case_env_axioms.intro, goal_cases)
  case 1
  show ?case by (rule store.identity_store_axioms)
next
  case 2
  show ?case by (rule port.session_cache_axioms)
next
  case 3
  show ?case by (rule hasher.password_hasher_axioms)
next
  case 4
  show ?case by (rule opaque.token_generator_axioms)
next
  case (5 w)
  show ?case by (simp add: clock_Real_def wp_simps)
next
  case (6 w w' s)
  then show ?case by (simp add: same_pg_def pg_db_def)
next
  case (7 w w' s)
  then have "rt.more w' = rt.more w" by (rule quiet_more)
  then have "w_pg w' = w_pg w" "w_kv w' = w_kv w" using w_pg_more w_kv_more by blast+
  with 7 show ?case by (simp add: pg_db_def kv_cached_def fun_eq_iff quiet_later)
qed (simp_all only: pg_port_defs UnitOfWork.select_convs UserRepository.select_convs SessionRepository.select_convs
    OutboxRepository.select_convs leaves_pg [OF kv_frame(1)] leaves_pg [where f = "\<lambda>w. kvup (w_kv w)", OF kv_frame(2)])

subsection \<open>When the sources of randomness and time deliver\<close>

lemma opaque_live:
  assumes "rt_rand z (rt_rand_i z) = Some f" "HashOf (base64_EncodeToString url_alphabet (map f [0..<32])) \<notin> H"
  shows "wp (tokens_NewToken opaque_Generator) (\<lambda>r _. \<exists>t. r = Ret (Inr t) \<and> token_Hash t \<notin> H) z"
  using assms by (simp add: opaque_Generator_def opaque_NewToken_def wp_simps session_NewToken_def HashOf_def token_Hash_def)

lemma clock_live:
  assumes "P (rt_clock z (rt_clock_i z))"
  shows "wp (clock_Now clock_Real) (\<lambda>r _. \<forall>t. r = Ret t \<longrightarrow> P t) z"
  using assms by (simp add: clock_Real_def wp_simps)

context argon2id
begin

lemma hash_live:
  assumes "rt_rand z (rt_rand_i z) = Some f" "length raw \<le> PasswordMaxLen"
  shows "wp (hasher_Hash (argon2_Hasher kdf ps) raw) (\<lambda>r _. \<exists>h. r = Ret (Inr h)) z"
proof -
  obtain k where "kdf raw (map f [0..<unat (SaltLen ps)]) (Time ps) (MemoryKiB ps) (Parallelism ps) (KeyLen ps) = Some k"
    using laws params unfolding kdf_laws_def by blast
  then show ?thesis using assms by (simp add: argon2_Hasher_def argon2_Hash_def wp_simps)
qed

end

text \<open>The concrete servers and the sample KDF satisfy all hypotheses together.\<close>

interpretation ref_production: production "ref_pgx micros" srv_tables ref_view ref_up micros
  ref_cache kvs_content kvs_up canonical_uuids sample_kdf argon2_Default
  by unfold_locales

definition empty_server :: "(nat \<Rightarrow> fault) \<Rightarrow> server" where
  "empty_server faults = \<lparr>srv_tables = tables_of empty_store, srv_tx = None, srv_next = 0,
     srv_time = 1780000000000000000, srv_faults = faults, srv_step = 0\<rparr>"

definition empty_cache :: kvserver where
  "empty_cache = \<lparr>kvs_map = [], kvs_down = False\<rparr>"

definition sample_world :: "(nat \<Rightarrow> fault) \<Rightarrow> (server, kvserver) world" where
  "sample_world faults = rt.extend sample_rt \<lparr>w_pg = empty_server faults, w_kv = empty_cache\<rparr>"


lemma sample_world_sel [simp]: "w_pg (sample_world f) = empty_server f" "w_kv (sample_world f) = empty_cache"
  by (simp_all add: sample_world_def rt.extend_def)

lemma sample_world_db: "pg_db srv_tables (sample_world f) empty_store"
  by (simp add: pg_db_def empty_server_def consistent_empty)

text \<open>A database with one user and one session, and the token of that session.\<close>

definition sample_token :: string where
  "sample_token = ''0123456789abcdefghijklmnopqrstuvwxyzABCDEFG''"

definition sample_user :: User where
  "sample_user = \<lparr>user_id = 11, user_tenantID = ID 1, user_email = Email ''user@example.com'',
     user_passwordHash = PasswordHash ''none'', user_status = ''active'',
     user_createdAt = 1770000000000000000, user_updatedAt = 1770000000000000000\<rparr>"

definition sample_session :: Session where
  "sample_session = \<lparr>session_id = 12, session_tenantID = ID 1, session_userID = 11,
     session_tokenHash = HashOf sample_token, session_createdAt = 1770000000000000000,
     session_expiresAt = 1790000000000000000, session_revokedAt = None\<rparr>"

definition sample_store :: store where
  "sample_store = \<lparr>st_users = [sample_user], st_sessions = [sample_session], st_events = []\<rparr>"

definition seeded_world :: "(nat \<Rightarrow> fault) \<Rightarrow> (server, kvserver) world" where
  "seeded_world faults = (sample_world faults)\<lparr>w_pg := (empty_server faults)\<lparr>srv_tables := tables_of sample_store\<rparr>\<rparr>"

lemma valid_sample_user: "valid_user sample_user"
proof -
  have "regexp_MatchString emailRegex ''user@example.com''"
    unfolding matches_emailRegex
    by (rule exI [where x = "''user''"], rule exI [where x = "''example''"], rule exI [where x = "''com''"])
       (simp add: in_class_def local_class_def domain_class_def tld_class_def)
  then show ?thesis by (simp add: valid_user_def sample_user_def NewEmail_fixpoint)
qed

lemma seeded_world_db: "pg_db srv_tables (seeded_world f) sample_store"
  using valid_sample_user
  by (simp add: pg_db_def seeded_world_def consistent_def sample_store_def)
     (simp add: sample_session_def sample_user_def)

lemma seeded_world_sel [simp]:
  "w_pg (seeded_world f) = (empty_server f)\<lparr>srv_tables := tables_of sample_store\<rparr>" "w_kv (seeded_world f) = empty_cache"
  by (simp_all add: seeded_world_def)

subsection \<open>The database adapters implement the store\<close>

text \<open>C5: The Postgres repositories and the unit of work refine the abstract store of users, sessions and events. Whatever
  requests the server loses: a lookup returns the row of the committed store or says truly that there is none; \<open>Begin\<close>
  opens a transaction on the committed store; a write that succeeds makes exactly the step of the abstract store on the
  view of its transaction, with times rounded to what the columns keep; the sentinel errors are reported
  only when the store refuses the step; \<open>Commit\<close> replaces the committed store by the view as a whole or not at all;
  \<open>Rollback\<close> changes nothing. A server that is up serves every call.\<close>

theorem postgres_refines_store:
  fixes w :: "('p, 'k) world"
  assumes "pgx_driver drv committed txview up rnd"
  shows "lookup_ok (pg_db committed) (\<lambda>w :: ('p, 'k) world. up (w_pg w)) (pg_users_FindByEmail drv t e)
        (ErrUser user_ErrUserNotFound) (\<lambda>s. find_user_by_email s t e)
    \<and> lookup_ok (pg_db committed) (\<lambda>w :: ('p, 'k) world. up (w_pg w)) (pg_users_FindByID drv t i)
        (ErrUser user_ErrUserNotFound) (\<lambda>s. find_user_by_id s t i)
    \<and> lookup_ok (pg_db committed) (\<lambda>w :: ('p, 'k) world. up (w_pg w)) (pg_sessions_FindByTokenHash drv h)
        (ErrSession session_ErrSessionNotFound) (\<lambda>s. find_session s h)
    \<and> (valid_user u \<longrightarrow> write_ok (pg_db committed) (pg_view txview) (\<lambda>w :: ('p, 'k) world. up (w_pg w)) tx (pg_users_SaveTx drv tx u)
        {ErrUser user_ErrEmailTaken} (\<lambda>v v'. save_user rnd u v = Some v'))
    \<and> write_ok (pg_db committed) (pg_view txview) (\<lambda>w :: ('p, 'k) world. up (w_pg w)) tx (pg_sessions_SaveTx drv tx x)
        {} (\<lambda>v v'. save_session rnd x v = Some v')
    \<and> write_ok (pg_db committed) (pg_view txview) (\<lambda>w :: ('p, 'k) world. up (w_pg w)) tx (pg_sessions_RevokeTx drv tx t i)
        {ErrSession session_ErrSessionNotFound} (\<lambda>v v'. \<exists>now. revoke_session t i now v = Some v')
    \<and> write_ok (pg_db committed) (pg_view txview) (\<lambda>w :: ('p, 'k) world. up (w_pg w)) tx (pg_outbox_WriteTx drv tx ev)
        {} (\<lambda>v v'. write_event rnd ev v = Some v')
    \<and> (pg_db committed w s \<longrightarrow> wp (pg_Begin drv) (\<lambda>r w'. pg_db committed w' s
          \<and> (\<forall>tx. r = Ret (Inr tx) \<longrightarrow> pg_view txview w' tx s) \<and> (up (w_pg w) \<longrightarrow> (\<exists>tx. r = Ret (Inr tx)))) w)
    \<and> (pg_db committed w s \<longrightarrow> pg_view txview w tx v \<longrightarrow> wp (pg_Commit drv tx) (\<lambda>r w'. (pg_db committed w' s \<or> pg_db committed w' v)
          \<and> (r = Ret (Inr ()) \<longrightarrow> pg_db committed w' v) \<and> (up (w_pg w) \<longrightarrow> r = Ret (Inr ()))) w)
    \<and> (pg_db committed w s \<longrightarrow> wp (pg_Rollback drv tx) (\<lambda>r w'. pg_db committed w' s) w)"
proof (intro conjI impI, goal_cases)
  case 1 show ?case by (rule pgx_driver.user_lookups [OF assms])
next
  case 2 show ?case by (rule pgx_driver.user_lookups [OF assms])
next
  case 3 show ?case by (rule pgx_driver.session_lookups [OF assms])
next
  case 4 then show ?case by (rule pgx_driver.save_user_write [OF assms])
next
  case 5 show ?case by (rule pgx_driver.save_session_write [OF assms])
next
  case 6 show ?case by (rule pgx_driver.revoke_write [OF assms])
next
  case 7 show ?case by (rule pgx_driver.write_event_write [OF assms])
next
  case 8 show ?case by (rule wp_mono [OF pgx_driver.unit_of_work(1) [OF assms 8]]) auto
next
  case 9 show ?case by (rule wp_mono [OF pgx_driver.unit_of_work(2) [OF assms 9]]) auto
next
  case 10 show ?case by (rule wp_mono [OF pgx_driver.unit_of_work(3) [OF assms 10]]) auto
qed

theorem postgres_refines_store_witness:
  "\<exists>w'. pg_users_FindByEmail (ref_pgx micros) (ID 1) (user_email sample_user) (seeded_world (\<lambda>_. Served)) = (Ret (Inr sample_user), w')
    \<and> pg_db srv_tables w' sample_store"
proof -
  let ?w = "seeded_world (\<lambda>_. Served)"
  have up: "ref_up (w_pg ?w)"
    by (simp add: ref_up_def empty_server_def)
  have found: "find_user_by_email sample_store (ID 1) (user_email sample_user) = Some sample_user"
    by (simp add: find_user_by_email_def sample_store_def sample_user_def)
  have "lookup_ok (pg_db srv_tables) (\<lambda>w :: (server, kvserver) world. ref_up (w_pg w))
      (pg_users_FindByEmail (ref_pgx micros) (ID 1) (user_email sample_user))
      (ErrUser user_ErrUserNotFound) (\<lambda>s. find_user_by_email s (ID 1) (user_email sample_user))"
    using postgres_refines_store [OF ref.pgx_driver_axioms] by blast
  note law = this [unfolded lookup_ok_def, rule_format, OF seeded_world_db [of "\<lambda>_. Served"]]
  obtain r w' where "pg_users_FindByEmail (ref_pgx micros) (ID 1) (user_email sample_user) ?w = (r, w')"
    by fastforce
  with wpD [OF law this] up found show ?thesis
    by (auto split: outcome.splits sum.splits)
qed

end
