(* ===== verification/Sign_Up.thy ===== *)
theory Sign_Up
  imports Production
begin

text \<open>
  \<open>internal/usecase/sign_up\<close>: input, output, errors, and \<open>Execute\<close>, which creates a user and a first
  session in one transaction and writes the session through to the cache. Lemmas, for every
  environment that satisfies the contracts of the ports: the database holds afterwards either
  everything the use case writes or nothing of it, and an input that fails validation has no effect at
  all.
\<close>

datatype sign_up_error =
    sign_up_ErrInvalidEmail
  | sign_up_ErrWeakPassword
  | sign_up_ErrEmailTaken
  | sign_up_ErrInternal

record sign_up_Input =
  su_TenantID :: tenant_ID
  su_Email :: string
  su_Password :: string

record sign_up_Output =
  su_UserID :: uuid
  su_SessionToken :: string
  su_SessionExpiresAt :: time

record 'w sign_up_UseCase =
  su_uow :: "'w UnitOfWork"
  su_users :: "'w UserRepository"
  su_sessions :: "'w SessionRepository"
  su_outbox :: "'w OutboxRepository"
  su_cache :: "'w Cache option"
  su_hasher :: "'w PasswordHasher"
  su_tokens :: "'w TokenGenerator"
  su_clock :: "'w Clock"
  su_sessionTTL :: duration

definition sign_up_New ::
  "'w UnitOfWork \<Rightarrow> 'w UserRepository \<Rightarrow> 'w SessionRepository \<Rightarrow> 'w OutboxRepository \<Rightarrow> 'w Cache option \<Rightarrow>
    'w PasswordHasher \<Rightarrow> 'w TokenGenerator \<Rightarrow> 'w Clock \<Rightarrow> duration \<Rightarrow> 'w sign_up_UseCase" where
  "sign_up_New uow users sessions outboxRepo cache hasher tokens clk sessionTTL =
    \<lparr>su_uow = uow, su_users = users, su_sessions = sessions, su_outbox = outboxRepo, su_cache = cache,
     su_hasher = hasher, su_tokens = tokens, su_clock = clk, su_sessionTTL = sessionTTL\<rparr>"

lemma sign_up_New_sel [simp]:
  "su_uow (sign_up_New a b c d e f g h i) = a" "su_users (sign_up_New a b c d e f g h i) = b"
  "su_sessions (sign_up_New a b c d e f g h i) = c" "su_outbox (sign_up_New a b c d e f g h i) = d"
  "su_cache (sign_up_New a b c d e f g h i) = e" "su_hasher (sign_up_New a b c d e f g h i) = f"
  "su_tokens (sign_up_New a b c d e f g h i) = g" "su_clock (sign_up_New a b c d e f g h i) = h"
  "su_sessionTTL (sign_up_New a b c d e f g h i) = i"
  by (simp_all add: sign_up_New_def)

text \<open>The calls inside the transaction.\<close>

definition sign_up_tx ::
  "uuid_lib \<Rightarrow> ('a rt_scheme) sign_up_UseCase \<Rightarrow> sign_up_Input \<Rightarrow> User \<Rightarrow> Session \<Rightarrow> time \<Rightarrow> Tx \<Rightarrow>
    ('a rt_scheme, sign_up_error + unit) go" where
  "sign_up_tx ul uc i u sess now tx =
    tryg (users_SaveTx (su_users uc) tx u)
      (\<lambda>e. if e = ErrUser user_ErrEmailTaken then ret (Inl sign_up_ErrEmailTaken)
           else ret (Inl sign_up_ErrInternal)) (\<lambda>_.
    tryg (sessions_SaveTx (su_sessions uc) tx sess) (\<lambda>_. ret (Inl sign_up_ErrInternal)) (\<lambda>_.
    case user_created_payload ul (user_id u) (su_TenantID i) (user_email u) now of
      None \<Rightarrow> ret (Inl sign_up_ErrInternal)
    | Some userPayload \<Rightarrow>
    bindg uuid_New (\<lambda>eid.
    tryg (outbox_WriteTx (su_outbox uc) tx
        (outbox_New eid (su_TenantID i) ''user'' (user_id u) TopicUserCreated userPayload now))
      (\<lambda>_. ret (Inl sign_up_ErrInternal)) (\<lambda>_.
    case session_created_payload ul (session_id sess) (user_id u) (su_TenantID i) now of
      None \<Rightarrow> ret (Inl sign_up_ErrInternal)
    | Some sessionPayload \<Rightarrow>
    bindg uuid_New (\<lambda>eid'.
    tryg (outbox_WriteTx (su_outbox uc) tx
        (outbox_New eid' (su_TenantID i) ''session'' (session_id sess) TopicSessionCreated sessionPayload now))
      (\<lambda>_. ret (Inl sign_up_ErrInternal)) (\<lambda>_.
    tryg (uow_Commit (su_uow uc) tx) (\<lambda>_. ret (Inl sign_up_ErrInternal)) (\<lambda>_. ret (Inr ()))))))))"

definition sign_up_Execute ::
  "uuid_lib \<Rightarrow> ('a rt_scheme) sign_up_UseCase \<Rightarrow> sign_up_Input \<Rightarrow>
    ('a rt_scheme, sign_up_error + sign_up_Output) go" where
  "sign_up_Execute ul uc i =
    (if tenant_IsZero (su_TenantID i) then ret (Inl sign_up_ErrInternal)
     else case NewEmail (su_Email i) of
       Inl _ \<Rightarrow> ret (Inl sign_up_ErrInvalidEmail)
     | Inr email \<Rightarrow>
     if ValidatePasswordPolicy (su_Password i) \<noteq> None then ret (Inl sign_up_ErrWeakPassword)
     else
       tryg (hasher_Hash (su_hasher uc) (su_Password i)) (\<lambda>_. ret (Inl sign_up_ErrInternal)) (\<lambda>hash.
       tryg (tokens_NewToken (su_tokens uc)) (\<lambda>_. ret (Inl sign_up_ErrInternal)) (\<lambda>tok.
       bindg (clock_Now (su_clock uc)) (\<lambda>now.
       bindg uuid_New (\<lambda>userID.
       bindg uuid_New (\<lambda>sessionID.
         let u = user_New userID (su_TenantID i) email hash now;
             expiresAt = time_Add now (su_sessionTTL uc);
             sess = session_New sessionID (su_TenantID i) userID (token_Hash tok) now expiresAt
         in
         tryg (in_tx (su_uow uc) sign_up_ErrInternal (sign_up_tx ul uc i u sess now)) (\<lambda>e. ret (Inl e)) (\<lambda>_.
         seqg (cache_write_through ul (su_cache uc) ''session cache write failed after sign-up'' tok
                 \<lparr>cs_SessionID = sessionID, cs_UserID = userID, cs_TenantID = su_TenantID i, cs_ExpiresAt = expiresAt\<rparr>)
         (ret (Inr \<lparr>su_UserID = userID, su_SessionToken = token_String tok, su_SessionExpiresAt = expiresAt\<rparr>)))))))))"

subsection \<open>What a sign-up does to the store\<close>

text \<open>The rows of one sign-up: a new active user with the normalised address and a hash that verifies the
  password, a session of that user whose token hash is the hash of the returned token, and the two
  events that announce them.\<close>

definition sign_up_effect ::
  "(PasswordHash \<Rightarrow> string \<Rightarrow> bool) \<Rightarrow> (time \<Rightarrow> time) \<Rightarrow> uuid_lib \<Rightarrow> duration \<Rightarrow> sign_up_Input \<Rightarrow> sign_up_Output \<Rightarrow>
    store \<Rightarrow> store \<Rightarrow> bool" where
  "sign_up_effect verifies rnd ul ttl i out s s' =
    (\<exists>email hash now sid eid eid' p p'.
       NewEmail (su_Email i) = Inr email \<and> verifies hash (su_Password i)
       \<and> su_SessionExpiresAt out = time_Add now ttl
       \<and> user_created_payload ul (su_UserID out) (su_TenantID i) email now = Some p
       \<and> session_created_payload ul sid (su_UserID out) (su_TenantID i) now = Some p'
       \<and> \<not> user_conflict (user_New (su_UserID out) (su_TenantID i) email hash now) s
       \<and> s' = s\<lparr>
           st_users := st_users s @ [round_user rnd (user_New (su_UserID out) (su_TenantID i) email hash now)],
           st_sessions := st_sessions s @ [round_session rnd (session_New sid (su_TenantID i) (su_UserID out)
              (HashOf (su_SessionToken out)) now (su_SessionExpiresAt out))],
           st_events := st_events s @
             [round_event rnd (outbox_New eid (su_TenantID i) ''user'' (su_UserID out) TopicUserCreated p now),
              round_event rnd (outbox_New eid' (su_TenantID i) ''session'' sid TopicSessionCreated p' now)]\<rparr>)"

definition sign_up_valid :: "sign_up_Input \<Rightarrow> bool" where
  "sign_up_valid i = (\<not> tenant_IsZero (su_TenantID i) \<and> (\<exists>email. NewEmail (su_Email i) = Inr email)
     \<and> ValidatePasswordPolicy (su_Password i) = None)"

lemma NewEmail_valid: "NewEmail s = Inr e \<Longrightarrow> NewEmail (email_String e) = Inr e"
  using NewEmail_fixpoint by (auto simp: NewEmail_Inr Let_def)

lemma valid_user_New: "NewEmail s = Inr e \<Longrightarrow> valid_user (user_New uid t e h now)"
  by (simp add: valid_user_def user_New_def NewEmail_valid)

definition address_taken :: "store \<Rightarrow> tenant_ID \<Rightarrow> Email \<Rightarrow> bool" where
  "address_taken s t email = (find_user_by_email s t email \<noteq> None)"

lemma conflict_address:
  assumes "uid \<notin> user_id ` set (st_users s)"
  shows "user_conflict (user_New uid t email hash now) s \<longleftrightarrow> address_taken s t email"
  using assms by (auto simp: user_conflict_def user_key_def address_taken_def find_user_by_email_def find_None_all user_New_def image_iff)


subsection \<open>The use case over any environment\<close>

context use_case_env
begin

abbreviation sign_up_uc :: "duration \<Rightarrow> ('a rt_scheme) sign_up_UseCase" where
  "sign_up_uc ttl \<equiv> sign_up_New uow users sessions outbox (Some cache) hasher tokens clk ttl"

text \<open>What is known when the transaction of a sign-up ends. \<open>E\<close> relates the store before to the store with all
  rows written.\<close>

definition sign_up_tx_post ::
  "'a rt_scheme \<Rightarrow> store \<Rightarrow> User \<Rightarrow> (store \<Rightarrow> bool) \<Rightarrow> (sign_up_error + unit) outcome \<Rightarrow> 'a rt_scheme \<Rightarrow> bool" where
  "sign_up_tx_post w s u E r z =
    (case r of
       Ret (Inr _) \<Rightarrow> \<exists>s'. E s' \<and> after w s' z \<and> \<not> user_conflict u s
     | Ret (Inl e) \<Rightarrow> (\<exists>s'. after w s' z \<and> (s' = s \<or> e = sign_up_ErrInternal \<and> \<not> healthy w \<and> E s'))
          \<and> (e = sign_up_ErrEmailTaken \<longrightarrow> user_conflict u s) \<and> (healthy w \<and> user_conflict u s \<longrightarrow> e = sign_up_ErrEmailTaken)
          \<and> e \<in> {sign_up_ErrEmailTaken, sign_up_ErrInternal}
     | Panic _ \<Rightarrow> after w s z)"

lemma sign_up_tx_law:
  fixes i uid t email hash now sid tok exp
  defines "u \<equiv> user_New uid t email hash now" and "x \<equiv> session_New sid t uid (token_Hash tok) now exp"
  assumes a: "after w s w'" and v: "view w' tx s" and val: "valid_user u" and t: "su_TenantID i = t"
    and E: "\<And>eid eid' p p'. user_created_payload ul uid t email now = Some p \<Longrightarrow>
      session_created_payload ul sid uid t now = Some p' \<Longrightarrow> \<not> user_conflict u s \<Longrightarrow>
      E (s\<lparr>st_users := st_users s @ [round_user rnd u], st_sessions := st_sessions s @ [round_session rnd x],
           st_events := st_events s @ [round_event rnd (outbox_New eid t ''user'' uid TopicUserCreated p now),
             round_event rnd (outbox_New eid' t ''session'' sid TopicSessionCreated p' now)]\<rparr>)"
  shows "wp (sign_up_tx ul (sign_up_uc ttl) i u x now tx) (sign_up_tx_post w s u E) w'"
proof -
  have ids: "user_id u = uid" "user_email u = email" "session_id x = sid"
    by (simp_all add: u_def x_def user_New_def session_New_def)
  note post = sign_up_tx_post_def wp_ret
  show ?thesis
    unfolding sign_up_tx_def t ids sign_up_New_sel
  proof (rule write_step [OF save_user_law [OF val] a v], goal_cases)
    case (1 w1 v1)
    then have nc: "\<not> user_conflict u s" and v1: "v1 = s\<lparr>st_users := st_users s @ [round_user rnd u]\<rparr>"
      by (simp_all add: save_user_Some)
    from nc have err: "wp (ret (Inl sign_up_ErrInternal)) (sign_up_tx_post w s u E) z" if "after w s z" for z
      using that by (auto simp: post)
    show ?case
    proof (rule write_step [OF save_session_law 1(2,3)], goal_cases)
      case (1 w2 v2)
      then have v2: "v2 = v1\<lparr>st_sessions := st_sessions v1 @ [round_session rnd x]\<rparr>"
        using save_session_New unfolding x_def by blast
      show ?case
      proof (cases "user_created_payload ul uid t email now")
        case None
        then show ?thesis using err 1(2) by simp
      next
        case (Some p)
        show ?thesis unfolding Some option.case
        proof (rule uuid_step [OF 1(2,3)], goal_cases)
          case (1 eid w3)
          show ?case
          proof (rule write_step [OF write_event_law 1], goal_cases)
            case (1 w4 v4)
            note v4 = write_event_Some [OF 1(1)]
            show ?case
            proof (cases "session_created_payload ul sid uid t now")
              case None
              then show ?thesis using err 1(2) by simp
            next
              case (Some p')
              show ?thesis unfolding Some option.case
              proof (rule uuid_step [OF 1(2,3)], goal_cases)
                case (1 eid' w5)
                show ?case
                proof (rule write_step [OF write_event_law 1], goal_cases)
                  case (1 w6 v6)
                  note v6 = write_event_Some [OF 1(1)]
                  have E6: "E v6"
                    using E [OF \<open>user_created_payload ul uid t email now = Some p\<close> Some nc, of eid eid']
                    by (simp add: v6 v4 v2 v1)
                  show ?case
                    by (rule commit_step [OF 1(2,3)]) (use E6 nc in \<open>auto simp: post\<close>)
                qed (use err in blast)
              qed (simp add: post)
            qed
          qed (use err in blast)
        qed (simp add: post)
      qed
    qed (use err in blast)
  next
    case (2 e w1)
    then show ?case
      by (auto simp: post wp_if save_user_Some)
  qed
qed

definition sign_up_post ::
  "uuid_lib \<Rightarrow> duration \<Rightarrow> sign_up_Input \<Rightarrow> 'a rt_scheme \<Rightarrow> store \<Rightarrow> (sign_up_error + sign_up_Output) outcome \<Rightarrow>
    'a rt_scheme \<Rightarrow> bool" where
  "sign_up_post ul ttl i w s r z =
    (case r of
       Ret (Inr out) \<Rightarrow> sign_up_valid i \<and> (\<exists>s'. sign_up_effect verifies rnd ul ttl i out s s' \<and> after w s' z
         \<and> caches_last w z (su_SessionExpiresAt out) s')
     | Ret (Inl e) \<Rightarrow> cached z = cached w \<and> (\<exists>s'. after w s' z \<and> (s' = s \<or>
          e = sign_up_ErrInternal \<and> \<not> healthy w \<and> sign_up_valid i \<and> (\<exists>out. sign_up_effect verifies rnd ul ttl i out s s')))
     | Panic _ \<Rightarrow> cached z = cached w \<and> after w s z)"

lemma sign_up_law:
  assumes db: "db w s"
  shows "wp (sign_up_Execute ul (sign_up_uc ttl) i) (sign_up_post ul ttl i w s) w"
proof -
  have same: "still w s w" using db by (rule still_refl)
  note post = sign_up_post_def still_def
  show ?thesis
  proof (cases "sign_up_valid i")
    case False
    then show ?thesis
      using same by (auto simp: sign_up_Execute_def wp_simps sign_up_valid_def post split: sum.split)
  next
    case True
    then obtain email where email: "NewEmail (su_Email i) = Inr email"
      and t: "\<not> tenant_IsZero (su_TenantID i)" and pol: "ValidatePasswordPolicy (su_Password i) = None"
      by (auto simp: sign_up_valid_def)
    have fail: "wp (ret (Inl sign_up_ErrInternal)) (sign_up_post ul ttl i w s) z" if "still w s z" for z
      using that by (auto simp: post wp_simps)
    show ?thesis
      unfolding sign_up_Execute_def Let_def email sum.case if_not_P [OF t] pol simp_thms if_False
      unfolding sign_up_New_sel
    proof (rule try_step [OF hash_step same], goal_cases)
      case (1 hash w1)
      then have ver: "verifies hash (su_Password i)" by simp
      show ?case
      proof (rule try_step [OF token_step 1(2)], goal_cases)
        case (1 tok w2)
        show ?case
        proof (rule clock_step [OF 1(2)], rule uuid_bind, assumption, rule uuid_bind, assumption, goal_cases)
          case (1 now w3 userID w4 sessionID w5)
          note still5 = 1(3)
          let ?u = "user_New userID (su_TenantID i) email hash now" and ?exp = "time_Add now ttl"
          let ?x = "session_New sessionID (su_TenantID i) userID (token_Hash tok) now ?exp"
          let ?out = "\<lparr>su_UserID = userID, su_SessionToken = token_String tok, su_SessionExpiresAt = ?exp\<rparr>"
          let ?p = "\<lparr>cs_SessionID = sessionID, cs_UserID = userID, cs_TenantID = su_TenantID i, cs_ExpiresAt = ?exp\<rparr>"
          let ?E = "\<lambda>s'. sign_up_effect verifies rnd ul ttl i ?out s s' \<and> last (st_sessions s') = round_session rnd ?x"
          have in_tx_cached: "leaves cached (in_tx uow sign_up_ErrInternal (sign_up_tx ul (sign_up_uc ttl) i ?u ?x now))"
            unfolding sign_up_tx_def sign_up_New_sel by (intro leaves_intro leaves_store leaves_rt)
          have tx: "wp (in_tx uow sign_up_ErrInternal (sign_up_tx ul (sign_up_uc ttl) i ?u ?x now))
              (sign_up_tx_post w s ?u ?E) w5"
          proof (rule in_tx_rule [OF still_after [OF 1(3)]], goal_cases)
            case (1 w' tx)
            show ?case
            proof (rule wp_mono [OF sign_up_tx_law [OF 1 valid_user_New [OF email] refl, where E = ?E]], goal_cases)
              case (1 eid eid' p p')
              then show ?case
                unfolding sign_up_effect_def
                by (intro conjI exI [where x = email] exI [where x = hash] exI [where x = now] exI [where x = sessionID]
                    exI [where x = eid] exI [where x = eid'] exI [where x = p] exI [where x = p'])
                  (simp_all add: email ver HashOf_token)
            next
              case (2 r z)
              then show ?case
                by (auto simp: sign_up_tx_post_def split: outcome.splits sum.splits)
            qed
          qed (auto simp: sign_up_tx_post_def)
          show ?case
            unfolding wp_tryg
          proof (rule wp_mono [OF wp_conj [OF tx leavesD [OF in_tx_cached]]], goal_cases)
            case (1 r z)
            with still5 have cz: "cached z = cached w" by (simp add: still_def)
            show ?case
            proof (cases r)
              case (Panic p)
              with 1 cz show ?thesis by (simp add: sign_up_tx_post_def post)
            next
              case (Ret y)
              show ?thesis
              proof (cases y)
                case (Inl e)
                with 1 Ret True cz show ?thesis by (auto simp: sign_up_tx_post_def post wp_simps)
              next
                case (Inr a)
                with 1 Ret obtain s' where s': "?E s'" "after w s' z" by (auto simp: sign_up_tx_post_def)
                have cl: "caches_last w z' ?exp s'" if "gains z z' (hex_EncodeToString (token_Hash tok)) ?p" for z'
                  using caches_lastI [OF s'(1) [THEN conjunct2]] that gains_cong [OF cz] by blast
                show ?thesis
                  unfolding Ret Inr outcome.case sum.case wp_seqg
                  by (rule wp_mono [OF write_through_both [OF s'(2)]])
                     (use s' True cl in \<open>fastforce simp: wp_ret post\<close>)
              qed
            qed
          qed
        qed (simp_all add: post)
      qed (use fail in blast)
    qed (use fail in blast)
  qed
qed

text \<open>On a healthy server: a free address is registered, a taken one is reported.\<close>

lemma sign_up_tx_live:
  fixes i uid t email hash now sid tok exp
  defines "u \<equiv> user_New uid t email hash now" and "x \<equiv> session_New sid t uid (token_Hash tok) now exp"
  assumes a: "after w s w'" and v: "view w' tx s" and up: "healthy w" and val: "valid_user u" and t: "su_TenantID i = t"
    and free: "\<not> user_conflict u s" and sid: "sid \<notin> session_id ` set (st_sessions s)"
    and tok: "token_Hash tok \<notin> session_tokenHash ` set (st_sessions s)" and now: "time_MarshalJSON now \<noteq> None"
    and ids: "\<And>n. \<exists>e. rt_uuids w n = Some e \<and> e \<notin> event_id ` set (st_events s)"
    and new: "\<And>n. rt_uuids w (Suc n) \<noteq> rt_uuids w n"
  shows "wp (sign_up_tx ul (sign_up_uc ttl) i u x now tx) (\<lambda>r z. r = Ret (Inr ())) w'"
proof -
  have sel: "user_id u = uid" "user_email u = email" "session_id x = sid"
    by (simp_all add: u_def x_def user_New_def session_New_def)
  obtain p p' where p: "user_created_payload ul uid t email now = Some p" "session_created_payload ul sid uid t now = Some p'"
    using now by (auto simp: user_created_payload_def session_created_payload_def json_with_time_def)
  have seq: "rt_uuids z = rt_uuids w" if "after w s z" for z
    using that by (simp add: after_def later_def)
  show ?thesis
    unfolding sign_up_tx_def t sel sign_up_New_sel p option.case
  proof (rule write_step [OF save_user_law [OF val] a v], goal_cases)
    case (1 w1 v1)
    then have v1: "v1 = s\<lparr>st_users := st_users s @ [round_user rnd u]\<rparr>" by (simp add: save_user_Some)
    have save: "save_session rnd x v1 \<noteq> None"
      using sid tok by (auto simp: v1 save_session_def session_conflict_def x_def session_New_def sel)
    show ?case
    proof (rule write_step [OF save_session_law 1(2,3)], goal_cases)
      case (1 w2 v2)
      then have v2: "st_events v2 = st_events s"
        using save_session_New unfolding x_def v1 by fastforce
      obtain e1 where e1: "rt_uuids w2 (rt_uuids_i w2) = Some e1" "e1 \<notin> event_id ` set (st_events v2)"
        using ids [of "rt_uuids_i w2"] seq [OF 1(2)] v2 by auto
      have seq2: "rt_uuids w2 = rt_uuids w" by (rule seq [OF 1(2)])
      show ?case
      proof (rule event_live [OF 1(2,3) up e1], goal_cases)
        case (1 w3)
        obtain e2 where e2: "rt_uuids w3 (rt_uuids_i w3) = Some e2" "e2 \<notin> event_id ` set (st_events s)"
          using ids [of "rt_uuids_i w3"] seq [OF 1(1)] by auto
        have "e2 \<noteq> e1"
          using e1(1) e2(1) new [of "rt_uuids_i w2"] by (auto simp: 1(2) seq [OF 1(1)] seq2)
        with e2(2) have e2': "e2 \<notin> event_id ` set (st_events
            (v2\<lparr>st_events := st_events v2 @ [round_event rnd (outbox_New e1 t ''user'' uid TopicUserCreated p now)]\<rparr>))"
          by (simp add: v2 outbox_New_def)
        show ?case
        proof (rule event_live [OF 1(1,3) up e2(1) e2'], goal_cases)
          case (1 w4)
          show ?case by (rule commit_step [OF 1(1,3)]) (use up in \<open>auto simp: wp_ret\<close>)
        qed
      qed
    qed (use up save in blast)
  next
    case (2 e w1)
    then show ?case using up free by (auto simp: save_user_Some)
  qed
qed

lemma sign_up_tx_taken:
  assumes a: "after w s w'" and v: "view w' tx s" and up: "healthy w" and val: "valid_user u" and taken: "user_conflict u s"
  shows "wp (sign_up_tx ul (sign_up_uc ttl) i u x now tx) (\<lambda>r z. r = Ret (Inl sign_up_ErrEmailTaken) \<and> after w s z) w'"
  unfolding sign_up_tx_def sign_up_New_sel
  by (rule write_step [OF save_user_law [OF val] a v]) (use up taken in \<open>auto simp: wp_simps save_user_Some\<close>)

lemma sign_up_issue_live:
  fixes i uid email hash now sid tok ttl
  defines "u \<equiv> user_New uid (su_TenantID i) email hash now"
    and "x \<equiv> session_New sid (su_TenantID i) uid (token_Hash tok) now (time_Add now ttl)"
  assumes a: "after w s w'" and up: "healthy w" and email: "NewEmail (su_Email i) = Inr email"
    and uid: "uid \<notin> user_id ` set (st_users s)" and sid: "sid \<notin> session_id ` set (st_sessions s)"
    and tok: "token_Hash tok \<notin> session_tokenHash ` set (st_sessions s)" and now: "time_MarshalJSON now \<noteq> None"
    and ids: "\<And>n. \<exists>e. rt_uuids w n = Some e \<and> e \<notin> event_id ` set (st_events s)"
    and new: "\<And>n. rt_uuids w (Suc n) \<noteq> rt_uuids w n"
  shows "wp (in_tx uow sign_up_ErrInternal (sign_up_tx ul (sign_up_uc ttl) i u x now))
    (\<lambda>r z. if address_taken s (su_TenantID i) email then r = Ret (Inl sign_up_ErrEmailTaken) \<and> after w s z
           else r = Ret (Inr ()) \<and> (\<exists>s'. after w s' z)) w'"
proof -
  note val = valid_user_New [OF email] and conf = conflict_address [OF uid]
  show ?thesis
  proof (cases "address_taken s (su_TenantID i) email")
    case True
    have "wp (in_tx uow sign_up_ErrInternal (sign_up_tx ul (sign_up_uc ttl) i u x now))
        (\<lambda>r z. r = Ret (Inl sign_up_ErrEmailTaken) \<and> after w s z) w'"
    proof (rule in_tx_rule [OF a], goal_cases)
      case (1 w1 tx)
      show ?case unfolding u_def
        by (rule wp_mono [OF sign_up_tx_taken [OF 1 up val]]) (use True conf in auto)
    qed (use up in simp)
    with True show ?thesis by simp
  next
    case False
    let ?m = "in_tx uow sign_up_ErrInternal (sign_up_tx ul (sign_up_uc ttl) i u x now)"
    have "wp ?m (\<lambda>r z. r = Ret (Inr ())) w'"
    proof (rule in_tx_rule [OF a], goal_cases)
      case (1 w1 tx)
      show ?case unfolding u_def x_def
        by (rule wp_mono [OF sign_up_tx_live [OF 1 up val refl _ sid tok now ids new]]) (use False conf in auto)
    qed (use up in simp)
    moreover have "wp ?m (sign_up_tx_post w s u (\<lambda>_. True)) w'"
    proof (rule in_tx_rule [OF a], goal_cases)
      case (1 w1 tx)
      show ?case unfolding u_def x_def
        by (rule wp_mono [OF sign_up_tx_law [OF 1 val refl, where E = "\<lambda>_. True"]])
           (auto simp: sign_up_tx_post_def split: outcome.splits sum.splits)
    qed (auto simp: sign_up_tx_post_def)
    ultimately have "wp ?m (\<lambda>r z. r = Ret (Inr ()) \<and> sign_up_tx_post w s u (\<lambda>_. True) r z) w'" by (rule wp_conj)
    then show ?thesis
      by (rule wp_mono) (use False in \<open>auto simp: sign_up_tx_post_def\<close>)
  qed
qed

lemma sign_up_live:
  assumes db: "db w s" and up: "healthy w" and t: "\<not> tenant_IsZero (su_TenantID i)"
    and email: "NewEmail (su_Email i) = Inr email" and pol: "ValidatePasswordPolicy (su_Password i) = None"
    and hash: "\<And>z. later w z \<Longrightarrow> wp (hasher_Hash hasher (su_Password i)) (\<lambda>r _. \<exists>h. r = Ret (Inr h)) z"
    and tok: "\<And>z. later w z \<Longrightarrow> wp (tokens_NewToken tokens) (\<lambda>r _. \<exists>k. r = Ret (Inr k)
      \<and> token_Hash k \<notin> session_tokenHash ` set (st_sessions s)) z"
    and now: "\<And>z. later w z \<Longrightarrow> wp (clock_Now clk) (\<lambda>r _. \<forall>t. r = Ret t \<longrightarrow> time_MarshalJSON t \<noteq> None) z"
    and ids: "\<And>n. \<exists>u. rt_uuids w n = Some u \<and> u \<notin> user_id ` set (st_users s) \<and> u \<notin> session_id ` set (st_sessions s)
      \<and> u \<notin> event_id ` set (st_events s)"
    and new: "\<And>n. rt_uuids w (Suc n) \<noteq> rt_uuids w n"
  shows "wp (sign_up_Execute ul (sign_up_uc ttl) i) (\<lambda>r z. if address_taken s (su_TenantID i) email
      then r = Ret (Inl sign_up_ErrEmailTaken) \<and> db z s else (\<exists>out. r = Ret (Inr out))) w"
proof -
  let ?Q = "\<lambda>r z. if address_taken s (su_TenantID i) email then r = Ret (Inl sign_up_ErrEmailTaken) \<and> db z s else (\<exists>out. r = Ret (Inr out))"
  have evs: "\<exists>e. rt_uuids w n = Some e \<and> e \<notin> event_id ` set (st_events s)" for n using ids [of n] by blast
  have l: "later w z" if "still w s z" for z using that by (simp add: still_def after_def)
  have draw: "wp (bindg uuid_New k) ?Q z"
    if a: "still w s z" and q: "\<And>u z'. still w s z' \<Longrightarrow> u \<notin> user_id ` set (st_users s) \<Longrightarrow> u \<notin> session_id ` set (st_sessions s) \<Longrightarrow>
      wp (k u) ?Q z'" for z and k :: "uuid \<Rightarrow> ('a rt_scheme, sign_up_error + sign_up_Output) go"
  proof -
    obtain u where "rt_uuids z (rt_uuids_i z) = Some u" "u \<notin> user_id ` set (st_users s)" "u \<notin> session_id ` set (st_sessions s)"
      using ids [of "rt_uuids_i z"] l [OF a] by (auto simp: later_def)
    moreover have "still w s (z\<lparr>rt_uuids_i := Suc (rt_uuids_i z)\<rparr>)" by (rule still_frame [OF _ a]) simp
    ultimately show ?thesis using q by (simp add: wp_bindg wp_uuid_New)
  qed
  have through: "wp (seqg (cache_write_through ul (Some cache) msg k p) (ret (Inr out))) (\<lambda>r z. \<exists>out. r = Ret (Inr out)) z"
    if "after w s' z" for s' z msg k p and out :: sign_up_Output
    unfolding wp_seqg by (rule wp_mono [OF write_through_db [OF that]]) (auto simp: wp_ret)
  show ?thesis
    unfolding sign_up_Execute_def Let_def email sum.case if_not_P [OF t] pol simp_thms if_False sign_up_New_sel wp_tryg
  proof (rule wp_mono [OF wp_conj [OF hash_step [where ?w0.0 = w] hash [OF later_refl]]], goal_cases)
    case (1 r w1)
    then obtain h where r: "r = Ret (Inr h)" and a1: "still w s w1" using still_refl [OF db] by auto
    show ?case unfolding r outcome.case sum.case wp_tryg
    proof (rule wp_mono [OF wp_conj [OF token_step [where ?w0.0 = w] tok [OF l [OF a1]]]], goal_cases)
      case (1 r w2)
      then obtain k where r: "r = Ret (Inr k)" and k: "token_Hash k \<notin> session_tokenHash ` set (st_sessions s)"
        and a2: "still w s w2" using a1 by auto
      show ?case unfolding r outcome.case sum.case wp_bindg [where m = "clock_Now clk"]
      proof (rule wp_mono [OF wp_conj [OF clock_law now [OF l [OF a2]]]], goal_cases)
        case (1 r w3)
        then obtain n where r: "r = Ret n" and n: "time_MarshalJSON n \<noteq> None" and a3: "still w s w3"
          using still_frame [OF _ a2] by auto
        show ?case unfolding r outcome.case
        proof (rule draw [OF a3], rule draw, assumption, goal_cases)
          case (1 uid w4 sid w5)
          show ?case unfolding wp_tryg
            by (rule wp_mono [OF sign_up_issue_live [OF still_after [OF 1(4)] up email 1(2,6) k n evs new]])
               (auto simp: wp_ret after_db intro: through split: if_splits)
        qed
      qed
    qed
  qed
qed

end


subsection \<open>The use case in production\<close>

definition prod_sign_up :: "'p pgx \<Rightarrow> 'k SessionCache \<Rightarrow> uuid_lib \<Rightarrow> argon2_kdf \<Rightarrow> Params \<Rightarrow> duration \<Rightarrow> (('p, 'k) world) sign_up_UseCase" where
  "prod_sign_up drv cl ul kdf ps ttl =
    sign_up_New (pg_UnitOfWork drv) (pg_UserRepository drv) (pg_SessionRepository drv) (pg_OutboxRepository drv)
      (Some (valkey_SessionCache cl ul)) (argon2_Hasher kdf ps) opaque_Generator clock_Real ttl"

context production
begin

lemma sign_up_prod:
  assumes "pg_db committed w s"
    and "sign_up_Execute ul (prod_sign_up drv cl ul kdf ps ttl) i w = (r, w')"
  shows "case r of
      Ret (Inr out) \<Rightarrow> sign_up_valid i \<and>
        (\<exists>s'. sign_up_effect (argon2_verifies kdf) rnd ul ttl i out s s' \<and> pg_db committed w' s')
    | Ret (Inl e) \<Rightarrow> pg_db committed w' s \<or> e = sign_up_ErrInternal \<and> \<not> up (w_pg w) \<and>
        (\<exists>s' out. sign_up_effect (argon2_verifies kdf) rnd ul ttl i out s s' \<and> pg_db committed w' s')
    | Panic _ \<Rightarrow> pg_db committed w' s"
  using wpD [OF env.sign_up_law [OF assms(1)] assms(2) [unfolded prod_sign_up_def]]
  unfolding env.sign_up_post_def store.after_def by (auto split: outcome.splits sum.splits)

lemma sign_up_live_prod:
  fixes w :: "('p, 'k) world"
  assumes db: "pg_db committed w s" and up: "up (w_pg w)" and t: "\<not> tenant_IsZero (su_TenantID i)"
    and email: "NewEmail (su_Email i) = Inr email" and pol: "ValidatePasswordPolicy (su_Password i) = None"
    and rand: "\<And>n. \<exists>f. rt_rand w n = Some f \<and>
      HashOf (base64_EncodeToString url_alphabet (map f [0..<32])) \<notin> session_tokenHash ` set (st_sessions s)"
    and now: "\<And>n. time_MarshalJSON (rt_clock w n) \<noteq> None"
    and ids: "\<And>n. \<exists>u. rt_uuids w n = Some u \<and> u \<notin> user_id ` set (st_users s) \<and> u \<notin> session_id ` set (st_sessions s)
      \<and> u \<notin> event_id ` set (st_events s)"
    and new: "\<And>n. rt_uuids w (Suc n) \<noteq> rt_uuids w n"
  shows "\<exists>r w'. sign_up_Execute ul (prod_sign_up drv cl ul kdf ps ttl) i w = (Ret r, w') \<and>
    (if address_taken s (su_TenantID i) email then r = Inl sign_up_ErrEmailTaken \<and> pg_db committed w' s else (\<exists>out. r = Inr out))"
proof -
  have len: "length (su_Password i) \<le> PasswordMaxLen"
    using pol by (simp add: ValidatePasswordPolicy_def split: if_splits)
  have hash: "wp (hasher_Hash (argon2_Hasher kdf ps) (su_Password i)) (\<lambda>r _. \<exists>h. r = Ret (Inr h)) z" if "later w z" for z
    using rand [of "rt_rand_i z"] that len by (auto simp: later_def intro: hash_live)
  have tok: "wp (tokens_NewToken opaque_Generator) (\<lambda>r _. \<exists>t. r = Ret (Inr t)
      \<and> token_Hash t \<notin> session_tokenHash ` set (st_sessions s)) z" if "later w z" for z
    using rand [of "rt_rand_i z"] that by (auto simp: later_def intro: opaque_live)
  have clk: "wp (clock_Now clock_Real) (\<lambda>r _. \<forall>t. r = Ret t \<longrightarrow> time_MarshalJSON t \<noteq> None) z" if "later w z" for z
    using that now by (intro clock_live) (simp add: later_def)
  obtain r w' where e: "sign_up_Execute ul (prod_sign_up drv cl ul kdf ps ttl) i w = (r, w')" by fastforce
  from wpD [OF env.sign_up_live [OF db up t email pol hash tok clk ids new] e [unfolded prod_sign_up_def]] e show ?thesis
    by (auto split: if_splits)
qed

end

text \<open>C1: a sign-up is atomic. If it succeeds, the input was valid and the database has gained exactly one
  user (active, with the normalised address and a hash of the password), one session of that user (under
  the hash of the returned token, until the returned expiry) and the two events. If it fails, the
  database is unchanged, except that after a lost answer to \<open>Commit\<close> the complete set of rows may be there
  while the caller sees \<open>ErrInternal\<close>. A panic changes nothing. Nothing else can happen, whatever requests
  the database or the cache loses.\<close>

theorem sign_up_atomic:
  assumes "production drv committed txview up rnd cl content kvup ul kdf ps"
    and "pg_db committed w s"
    and "sign_up_Execute ul (prod_sign_up drv cl ul kdf ps ttl) i w = (r, w')"
  shows "case r of
      Ret (Inr out) \<Rightarrow> sign_up_valid i \<and>
        (\<exists>s'. sign_up_effect (argon2_verifies kdf) rnd ul ttl i out s s' \<and> pg_db committed w' s')
    | Ret (Inl e) \<Rightarrow> pg_db committed w' s \<or> e = sign_up_ErrInternal \<and> \<not> up (w_pg w) \<and>
        (\<exists>s' out. sign_up_effect (argon2_verifies kdf) rnd ul ttl i out s s' \<and> pg_db committed w' s')
    | Panic _ \<Rightarrow> pg_db committed w' s"
  using production.sign_up_prod [OF assms] .

theorem sign_up_atomic_witness:
  "case sign_up_Execute canonical_uuids (prod_sign_up (ref_pgx micros) ref_cache canonical_uuids sample_kdf argon2_Default 3600000000000)
      \<lparr>su_TenantID = ID 1, su_Email = ''User@Example.com'', su_Password = ''correct horse battery''\<rparr>
      (sample_world (\<lambda>i. if i = 5 then LostAfter else Served)) of
     (Ret (Inr out), w') \<Rightarrow> (\<exists>s'. pg_db srv_tables w' s' \<and> length (st_users s') = 1)
   | (Ret (Inl e), w') \<Rightarrow> (\<exists>s'. pg_db srv_tables w' s')
   | (Panic _, w') \<Rightarrow> pg_db srv_tables w' empty_store"
proof -
  let ?w = "sample_world (\<lambda>i. if i = 5 then LostAfter else Served)"
  let ?i = "\<lparr>su_TenantID = ID 1, su_Email = ''User@Example.com'', su_Password = ''correct horse battery''\<rparr>"
  let ?m = "sign_up_Execute canonical_uuids (prod_sign_up (ref_pgx micros) ref_cache canonical_uuids sample_kdf argon2_Default 3600000000000) ?i"
  obtain r w' where e: "?m ?w = (r, w')" by fastforce
  show ?thesis
    using sign_up_atomic [OF ref_production.production_axioms sample_world_db e]
    unfolding e by (auto simp: sign_up_effect_def empty_store_def split: outcome.splits sum.splits)
qed

text \<open>C14: A sign-up is decided by the address alone when everything works: with the database up, a valid address
  and a password of the required length, the call returns; it reports \<open>ErrEmailTaken\<close> and changes nothing if the tenant already has
  the normalised address, and otherwise succeeds, whatever the cache does. The random bytes and the identifiers drawn must be
  available and unused, two identifiers in a row different, and the clock must show a year of at most four digits.\<close>

theorem sign_up_decides:
  fixes w :: "('p, 'k) world" and cl :: "'k SessionCache"
  assumes "production drv committed txview up rnd cl content kvup ul kdf ps"
    and "pg_db committed w s" and "up (w_pg w)" and "\<not> tenant_IsZero (su_TenantID i)"
    and "NewEmail (su_Email i) = Inr email" and "ValidatePasswordPolicy (su_Password i) = None"
    and "\<And>n. \<exists>f. rt_rand w n = Some f \<and>
      HashOf (base64_EncodeToString url_alphabet (map f [0..<32])) \<notin> session_tokenHash ` set (st_sessions s)"
    and "\<And>n. time_MarshalJSON (rt_clock w n) \<noteq> None"
    and "\<And>n. \<exists>u. rt_uuids w n = Some u \<and> u \<notin> user_id ` set (st_users s) \<and> u \<notin> session_id ` set (st_sessions s)
      \<and> u \<notin> event_id ` set (st_events s)"
    and "\<And>n. rt_uuids w (Suc n) \<noteq> rt_uuids w n"
  shows "\<exists>r w'. sign_up_Execute ul (prod_sign_up drv cl ul kdf ps ttl) i w = (Ret r, w') \<and>
    (if find_user_by_email s (su_TenantID i) email \<noteq> None then r = Inl sign_up_ErrEmailTaken \<and> pg_db committed w' s
     else (\<exists>out. r = Inr out))"
  using production.sign_up_live_prod [OF assms] by (simp add: address_taken_def)

definition new_member :: sign_up_Input where
  "new_member = \<lparr>su_TenantID = ID 1, su_Email = ''user@example.com'', su_Password = ''correct horse battery''\<rparr>"

definition still_world :: "(server, kvserver) world" where
  "still_world = (sample_world (\<lambda>_. Served))\<lparr>rt_clock := \<lambda>_. 1780000000000000000\<rparr>"

theorem sign_up_decides_witness:
  "\<exists>out w'. sign_up_Execute canonical_uuids (prod_sign_up (ref_pgx micros) ref_cache canonical_uuids sample_kdf argon2_Default 3600000000000)
     new_member still_world = (Ret (Inr out), w')"
proof -
  have m: "time_MarshalJSON 1780000000000000000 \<noteq> None" by code_simp
  have w: "w_pg still_world = empty_server (\<lambda>_. Served)" "rt_clock still_world = (\<lambda>_. 1780000000000000000)"
      "rt_rand still_world = rt_rand sample_rt" "rt_uuids still_world = rt_uuids sample_rt"
    by (simp_all add: still_world_def sample_world_def rt.extend_def)
  have db: "pg_db srv_tables still_world empty_store"
    using sample_world_db [of "\<lambda>_. Served"] by (simp add: pg_db_def w)
  have e: "NewEmail (su_Email new_member) = Inr (Email ''user@example.com'')"
    using valid_sample_user by (simp add: valid_user_def sample_user_def new_member_def)
  have "\<exists>r w'. sign_up_Execute canonical_uuids (prod_sign_up (ref_pgx micros) ref_cache canonical_uuids sample_kdf argon2_Default 3600000000000)
      new_member still_world = (Ret r, w') \<and>
    (if find_user_by_email empty_store (su_TenantID new_member) (Email ''user@example.com'') \<noteq> None
     then r = Inl sign_up_ErrEmailTaken \<and> pg_db srv_tables w' empty_store else (\<exists>out. r = Inr out))"
    by (rule sign_up_decides [OF ref_production.production_axioms db _ _ e])
       (use m in \<open>simp_all add: w ref_up_def empty_server_def new_member_def tenant_IsZero_def uuid_Nil_def empty_store_def
          sample_rt_def ValidatePasswordPolicy_def PasswordMinLen_def PasswordMaxLen_def\<close>)
  then show ?thesis by (auto simp: find_user_by_email_def empty_store_def)
qed

end
