(* ===== verification/Sign_In.thy ===== *)
theory Sign_In
  imports Production
begin

text \<open>
  \<open>internal/usecase/sign_in\<close>: input, output, errors, the constructor with its dummy hash, and \<open>Execute\<close>,
  which checks the credentials and creates a session. Lemmas, for every environment that satisfies the
  contracts of the ports: a session is only created for a user of the store whose hash verifies the
  password, the database gains one session and one event or nothing, and on a healthy server every kind
  of wrong credentials has the same result and runs the key-derivation function the same way.
\<close>

datatype sign_in_error =
    sign_in_ErrInvalidCredentials
  | sign_in_ErrInvalidEmail
  | sign_in_ErrInternal

record sign_in_Input =
  si_TenantID :: tenant_ID
  si_Email :: string
  si_Password :: string

record sign_in_Output =
  si_UserID :: uuid
  si_SessionToken :: string
  si_SessionExpiresAt :: time

record 'w sign_in_UseCase =
  si_uow :: "'w UnitOfWork"
  si_users :: "'w UserRepository"
  si_sessions :: "'w SessionRepository"
  si_outbox :: "'w OutboxRepository"
  si_cache :: "'w Cache option"
  si_hasher :: "'w PasswordHasher"
  si_tokens :: "'w TokenGenerator"
  si_clock :: "'w Clock"
  si_sessionTTL :: duration
  si_dummy :: PasswordHash

definition sign_in_New ::
  "'w UnitOfWork \<Rightarrow> 'w UserRepository \<Rightarrow> 'w SessionRepository \<Rightarrow> 'w OutboxRepository \<Rightarrow> 'w Cache option \<Rightarrow>
    'w PasswordHasher \<Rightarrow> 'w TokenGenerator \<Rightarrow> 'w Clock \<Rightarrow> duration \<Rightarrow> ('w, sign_in_error + 'w sign_in_UseCase) go" where
  "sign_in_New uow users sessions outboxRepo cache hasher tokens clk sessionTTL =
    tryg (hasher_Hash hasher ''dummy-password-for-timing-safety-only'') (\<lambda>_. ret (Inl sign_in_ErrInternal)) (\<lambda>dh.
      ret (Inr \<lparr>si_uow = uow, si_users = users, si_sessions = sessions, si_outbox = outboxRepo, si_cache = cache,
        si_hasher = hasher, si_tokens = tokens, si_clock = clk, si_sessionTTL = sessionTTL, si_dummy = dh\<rparr>))"

text \<open>The KDF call on an unknown or malformed address; only an error of it is looked at.\<close>

definition dummy_verify :: "('a rt_scheme) sign_in_UseCase \<Rightarrow> string \<Rightarrow> ('a rt_scheme, unit) go" where
  "dummy_verify uc password =
    tryg (hasher_Verify (si_hasher uc) (si_dummy uc) password)
      (\<lambda>verr. slog Debug ''dummy hasher verify failed'' [(''err'', error_Error verr)]) (\<lambda>_. ret ())"

definition sign_in_tx ::
  "uuid_lib \<Rightarrow> ('a rt_scheme) sign_in_UseCase \<Rightarrow> sign_in_Input \<Rightarrow> User \<Rightarrow> Session \<Rightarrow> time \<Rightarrow> Tx \<Rightarrow>
    ('a rt_scheme, sign_in_error + unit) go" where
  "sign_in_tx ul uc i u sess now tx =
    tryg (sessions_SaveTx (si_sessions uc) tx sess) (\<lambda>_. ret (Inl sign_in_ErrInternal)) (\<lambda>_.
    case session_created_payload ul (session_id sess) (user_id u) (si_TenantID i) now of
      None \<Rightarrow> ret (Inl sign_in_ErrInternal)
    | Some payload \<Rightarrow>
    bindg uuid_New (\<lambda>eid.
    tryg (outbox_WriteTx (si_outbox uc) tx
        (outbox_New eid (si_TenantID i) ''session'' (session_id sess) TopicSessionCreated payload now))
      (\<lambda>_. ret (Inl sign_in_ErrInternal)) (\<lambda>_.
    tryg (uow_Commit (si_uow uc) tx) (\<lambda>_. ret (Inl sign_in_ErrInternal)) (\<lambda>_. ret (Inr ())))))"

text \<open>The part of \<open>Execute\<close> after the credentials have been accepted.\<close>

definition sign_in_issue ::
  "uuid_lib \<Rightarrow> ('a rt_scheme) sign_in_UseCase \<Rightarrow> sign_in_Input \<Rightarrow> User \<Rightarrow>
    ('a rt_scheme, sign_in_error + sign_in_Output) go" where
  "sign_in_issue ul uc i u =
    tryg (tokens_NewToken (si_tokens uc)) (\<lambda>_. ret (Inl sign_in_ErrInternal)) (\<lambda>tok.
    bindg (clock_Now (si_clock uc)) (\<lambda>now.
    bindg uuid_New (\<lambda>sessionID.
      let expiresAt = time_Add now (si_sessionTTL uc);
          sess = session_New sessionID (si_TenantID i) (user_id u) (token_Hash tok) now expiresAt
      in
      tryg (in_tx (si_uow uc) sign_in_ErrInternal (sign_in_tx ul uc i u sess now)) (\<lambda>e. ret (Inl e)) (\<lambda>_.
      seqg (cache_write_through ul (si_cache uc) ''session cache write failed after sign-in'' tok
              \<lparr>cs_SessionID = sessionID, cs_UserID = user_id u, cs_TenantID = si_TenantID i, cs_ExpiresAt = expiresAt\<rparr>)
      (ret (Inr \<lparr>si_UserID = user_id u, si_SessionToken = token_String tok, si_SessionExpiresAt = expiresAt\<rparr>))))))"

definition sign_in_Execute ::
  "uuid_lib \<Rightarrow> ('a rt_scheme) sign_in_UseCase \<Rightarrow> sign_in_Input \<Rightarrow>
    ('a rt_scheme, sign_in_error + sign_in_Output) go" where
  "sign_in_Execute ul uc i =
    (if tenant_IsZero (si_TenantID i) then ret (Inl sign_in_ErrInternal)
     else case NewEmail (si_Email i) of
       Inl _ \<Rightarrow> seqg (dummy_verify uc (si_Password i)) (ret (Inl sign_in_ErrInvalidCredentials))
     | Inr email \<Rightarrow>
       tryg (users_FindByEmail (si_users uc) (si_TenantID i) email)
         (\<lambda>e. if e = ErrUser user_ErrUserNotFound
              then seqg (dummy_verify uc (si_Password i)) (ret (Inl sign_in_ErrInvalidCredentials))
              else ret (Inl sign_in_ErrInternal)) (\<lambda>u.
       tryg (hasher_Verify (si_hasher uc) (user_passwordHash u) (si_Password i))
         (\<lambda>_. ret (Inl sign_in_ErrInternal)) (\<lambda>matches.
       if \<not> matches then ret (Inl sign_in_ErrInvalidCredentials)
       else sign_in_issue ul uc i u)))"

subsection \<open>What a sign-in does to the store\<close>

definition sign_in_effect ::
  "(PasswordHash \<Rightarrow> string \<Rightarrow> bool) \<Rightarrow> (time \<Rightarrow> time) \<Rightarrow> uuid_lib \<Rightarrow> duration \<Rightarrow> sign_in_Input \<Rightarrow> sign_in_Output \<Rightarrow>
    store \<Rightarrow> store \<Rightarrow> bool" where
  "sign_in_effect verifies rnd ul ttl i out s s' =
    (\<exists>email u now sid eid p.
       NewEmail (si_Email i) = Inr email \<and> find_user_by_email s (si_TenantID i) email = Some u
       \<and> verifies (user_passwordHash u) (si_Password i) \<and> si_UserID out = user_id u
       \<and> si_SessionExpiresAt out = time_Add now ttl
       \<and> session_created_payload ul sid (user_id u) (si_TenantID i) now = Some p
       \<and> s' = s\<lparr>
           st_sessions := st_sessions s @ [round_session rnd (session_New sid (si_TenantID i) (user_id u)
              (HashOf (si_SessionToken out)) now (si_SessionExpiresAt out))],
           st_events := st_events s @
             [round_event rnd (outbox_New eid (si_TenantID i) ''session'' sid TopicSessionCreated p now)]\<rparr>)"

text \<open>Credentials that no user of the store has.\<close>

definition wrong_credentials :: "(PasswordHash \<Rightarrow> string \<Rightarrow> bool) \<Rightarrow> store \<Rightarrow> sign_in_Input \<Rightarrow> bool" where
  "wrong_credentials verifies s i =
    (case NewEmail (si_Email i) of Inl _ \<Rightarrow> True
     | Inr email \<Rightarrow> (case find_user_by_email s (si_TenantID i) email of None \<Rightarrow> True
        | Some u \<Rightarrow> \<not> verifies (user_passwordHash u) (si_Password i)))"

lemma kdf_of_truncate: "rt.truncate w' = rt.truncate w \<Longrightarrow> rt_kdf w' = rt_kdf w"
  by (simp add: rt.truncate_def)


subsection \<open>The use case over any environment\<close>

context use_case_env
begin

abbreviation sign_in_uc :: "duration \<Rightarrow> PasswordHash \<Rightarrow> ('a rt_scheme) sign_in_UseCase" where
  "sign_in_uc ttl dummy \<equiv> \<lparr>si_uow = uow, si_users = users, si_sessions = sessions, si_outbox = outbox,
     si_cache = Some cache, si_hasher = hasher, si_tokens = tokens, si_clock = clk, si_sessionTTL = ttl,
     si_dummy = dummy\<rparr>"

definition sign_in_tx_post ::
  "'a rt_scheme \<Rightarrow> store \<Rightarrow> (store \<Rightarrow> bool) \<Rightarrow> (sign_in_error + unit) outcome \<Rightarrow> 'a rt_scheme \<Rightarrow> bool" where
  "sign_in_tx_post w s E r z =
    (case r of
       Ret (Inr _) \<Rightarrow> \<exists>s'. E s' \<and> after w s' z
     | Ret (Inl e) \<Rightarrow> (\<exists>s'. after w s' z \<and> (s' = s \<or> \<not> healthy w \<and> E s')) \<and> e = sign_in_ErrInternal
     | Panic _ \<Rightarrow> after w s z)"

lemma sign_in_tx_law:
  fixes i u now sid tok exp t
  defines "x \<equiv> session_New sid t (user_id u) (token_Hash tok) now exp"
  assumes a: "after w s w'" and v: "view w' tx s" and t: "si_TenantID i = t"
    and E: "\<And>eid p. session_created_payload ul sid (user_id u) t now = Some p \<Longrightarrow>
      E (s\<lparr>st_sessions := st_sessions s @ [round_session rnd x],
           st_events := st_events s @ [round_event rnd (outbox_New eid t ''session'' sid TopicSessionCreated p now)]\<rparr>)"
  shows "wp (sign_in_tx ul (sign_in_uc ttl dummy) i u x now tx) (sign_in_tx_post w s E) w'"
proof -
  have ids: "session_id x = sid" by (simp add: x_def session_New_def)
  note post = sign_in_tx_post_def wp_ret
  have err: "wp (ret (Inl sign_in_ErrInternal)) (sign_in_tx_post w s E) z" if "after w s z" for z
    using that by (auto simp: post)
  show ?thesis
    unfolding sign_in_tx_def t ids sign_in_UseCase.select_convs
  proof (rule write_step [OF save_session_law a v], goal_cases)
    case (1 w1 v1)
    then have v1: "v1 = s\<lparr>st_sessions := st_sessions s @ [round_session rnd x]\<rparr>"
      using save_session_New unfolding x_def by blast
    show ?case
    proof (cases "session_created_payload ul sid (user_id u) t now")
      case None
      then show ?thesis using err 1(2) by simp
    next
      case (Some p)
      show ?thesis unfolding Some option.case
      proof (rule uuid_step [OF 1(2,3)], goal_cases)
        case (1 eid w2)
        show ?case
        proof (rule write_step [OF write_event_law 1], goal_cases)
          case (1 w3 v3)
          have "E v3" using E [OF Some, of eid] write_event_Some [OF 1(1)] by (simp add: v1)
          then show ?case
            by (intro commit_step [OF 1(2,3)]) (auto simp: post)
        qed (use err in blast)
      qed (simp add: post)
    qed
  qed (use err in blast)
qed

definition sign_in_post ::
  "uuid_lib \<Rightarrow> duration \<Rightarrow> sign_in_Input \<Rightarrow> 'a rt_scheme \<Rightarrow> store \<Rightarrow> (sign_in_error + sign_in_Output) outcome \<Rightarrow>
    'a rt_scheme \<Rightarrow> bool" where
  "sign_in_post ul ttl i w s r z =
    (case r of
       Ret (Inr out) \<Rightarrow> \<not> tenant_IsZero (si_TenantID i)
         \<and> (\<exists>s'. sign_in_effect verifies rnd ul ttl i out s s' \<and> after w s' z
              \<and> caches_last w z (si_SessionExpiresAt out) s')
     | Ret (Inl e) \<Rightarrow> cached z = cached w \<and> (\<exists>s'. after w s' z \<and> (s' = s \<or>
          e = sign_in_ErrInternal \<and> \<not> healthy w \<and> (\<exists>out. sign_in_effect verifies rnd ul ttl i out s s')))
     | Panic _ \<Rightarrow> cached z = cached w \<and> after w s z)"

lemma sign_in_issue_law:
  assumes a: "still w s w1" and t: "\<not> tenant_IsZero (si_TenantID i)"
    and email: "NewEmail (si_Email i) = Inr email"
    and u: "find_user_by_email s (si_TenantID i) email = Some u"
    and ver: "verifies (user_passwordHash u) (si_Password i)"
  shows "wp (sign_in_issue ul (sign_in_uc ttl dummy) i u) (sign_in_post ul ttl i w s) w1"
proof -
  note post = sign_in_post_def still_def
  have fail: "wp (ret (Inl sign_in_ErrInternal)) (sign_in_post ul ttl i w s) z" if "still w s z" for z
    using that by (auto simp: post wp_simps)
  show ?thesis
    unfolding sign_in_issue_def Let_def sign_in_UseCase.select_convs
  proof (rule try_step [OF token_step a], goal_cases)
    case (1 tok w2)
    show ?case
    proof (rule clock_step [OF 1(2)], rule uuid_bind, assumption, goal_cases)
      case (1 now w3 sessionID w4)
      let ?exp = "time_Add now ttl"
      let ?x = "session_New sessionID (si_TenantID i) (user_id u) (token_Hash tok) now ?exp"
      let ?out = "\<lparr>si_UserID = user_id u, si_SessionToken = token_String tok, si_SessionExpiresAt = ?exp\<rparr>"
      let ?p = "\<lparr>cs_SessionID = sessionID, cs_UserID = user_id u, cs_TenantID = si_TenantID i, cs_ExpiresAt = ?exp\<rparr>"
      let ?E = "\<lambda>s'. sign_in_effect verifies rnd ul ttl i ?out s s' \<and> last (st_sessions s') = round_session rnd ?x"
      note still4 = 1(2)
      have in_tx_cached: "leaves cached (in_tx uow sign_in_ErrInternal (sign_in_tx ul (sign_in_uc ttl dummy) i u ?x now))"
        unfolding sign_in_tx_def sign_in_UseCase.select_convs by (intro leaves_intro leaves_store leaves_rt)
      have tx: "wp (in_tx uow sign_in_ErrInternal (sign_in_tx ul (sign_in_uc ttl dummy) i u ?x now))
          (sign_in_tx_post w s ?E) w4"
      proof (rule in_tx_rule [OF still_after [OF 1(2)]], goal_cases)
        case (1 w' tx)
        show ?case
        proof (rule wp_mono [OF sign_in_tx_law [OF 1 refl, where E = ?E]], goal_cases)
          case (1 eid p)
          then show ?case
            unfolding sign_in_effect_def
            by (intro conjI exI [where x = email] exI [where x = u] exI [where x = now] exI [where x = sessionID]
                exI [where x = eid] exI [where x = p]) (simp_all add: email u ver HashOf_token)
        qed (auto simp: sign_in_tx_post_def split: outcome.splits sum.splits)
      qed (auto simp: sign_in_tx_post_def)
      show ?case
        unfolding wp_tryg
      proof (rule wp_mono [OF wp_conj [OF tx leavesD [OF in_tx_cached]]], goal_cases)
        case (1 r z)
        with still4 have cz: "cached z = cached w" by (simp add: still_def)
        show ?case
        proof (cases r)
          case (Ret y)
          show ?thesis
          proof (cases y)
            case (Inl e)
            with 1 Ret cz show ?thesis by (auto simp: sign_in_tx_post_def post wp_simps)
          next
            case (Inr b)
            with 1 Ret obtain s' where s': "?E s'" "after w s' z" by (auto simp: sign_in_tx_post_def)
            have cl: "caches_last w z' ?exp s'" if "gains z z' (hex_EncodeToString (token_Hash tok)) ?p" for z'
              using caches_lastI [OF s'(1) [THEN conjunct2]] that gains_cong [OF cz] by blast
            show ?thesis
              unfolding Ret Inr outcome.case sum.case wp_seqg
              by (rule wp_mono [OF write_through_both [OF s'(2)]])
                 (use s' t cl in \<open>fastforce simp: wp_ret post\<close>)
          qed
        qed (use 1 cz in \<open>simp add: sign_in_tx_post_def post\<close>)
      qed
    qed (simp_all add: post)
  qed (use fail in blast)
qed

lemma dummy_law:
  assumes "still w0 s w"
  shows "wp (dummy_verify (sign_in_uc ttl dummy) pw) (\<lambda>r w'. still w0 s w'
      \<and> (usable dummy \<longrightarrow> r = Ret () \<and> rt_kdf w' = rt_kdf w @ cost dummy pw)) w"
proof -
  have l: "still w0 s (w'\<lparr>rt_logs := x\<rparr>)" if "still w0 s w'" for w' x
    using still_frame [OF _ that] by simp
  have "wp (hasher_Verify hasher dummy pw) (\<lambda>r w'. still w0 s w'
      \<and> (usable dummy \<longrightarrow> r = Ret (Inr (verifies dummy pw)) \<and> rt_kdf w' = rt_kdf w @ cost dummy pw)) w"
  proof (cases "usable dummy")
    case True
    show ?thesis
      by (rule wp_mono [OF hasher.verify_law [OF True]]) (use assms still_frame in blast)
  next
    case False
    show ?thesis
      by (rule wp_mono [OF hasher.verify_quiet]) (use assms still_frame False in blast)
  qed
  then show ?thesis
    unfolding dummy_verify_def sign_in_UseCase.select_convs wp_tryg
    by (rule wp_mono) (auto simp: wp_simps l split: outcome.splits sum.splits)
qed

text \<open>A lookup of a user, in the form the use cases need.\<close>

lemma find_email_step:
  assumes still: "still w0 s w"
  shows "wp (users_FindByEmail users t e) (\<lambda>r w'. still w0 s w' \<and> rt_kdf w' = rt_kdf w
      \<and> (case r of Ret (Inr u) \<Rightarrow> find_user_by_email s t e = Some u
         | Ret (Inl e') \<Rightarrow> (e' = ErrUser user_ErrUserNotFound \<longrightarrow> find_user_by_email s t e = None)
             \<and> (healthy w0 \<longrightarrow> e' = ErrUser user_ErrUserNotFound)
         | Panic _ \<Rightarrow> False)) w"
proof (rule wp_mono [OF wp_conj [OF find_by_email [unfolded lookup_ok_def, rule_format, OF after_db [OF still_after [OF still]]]
    leavesD [OF leaves_store(5)]]], goal_cases)
  case (1 r w')
  have a: "after w0 s w" by (rule still_after [OF still])
  from 1 have "rt_kdf w' = rt_kdf w" by (intro kdf_of_truncate) simp
  moreover have "after w0 s w'" using 1 later_truncate by (intro after_step [OF a]) auto
  with 1 still have "still w0 s w'" by (simp add: still_def)
  ultimately show ?case using 1 a by (auto simp: after_def split: outcome.splits sum.splits)
qed

lemma sign_in_law:
  assumes db: "db w s"
  shows "wp (sign_in_Execute ul (sign_in_uc ttl dummy) i) (sign_in_post ul ttl i w s) w"
proof -
  have same: "still w s w" using db by (rule still_refl)
  note post = sign_in_post_def still_def
  have fail: "sign_in_post ul ttl i w s (Ret (Inl e)) z" if "still w s z" for z e
    using that by (auto simp: post)
  have panic: "sign_in_post ul ttl i w s (Panic p) z" if "still w s z" for z p
    using that by (simp add: post)
  have dummy: "wp (seqg (dummy_verify (sign_in_uc ttl dummy) (si_Password i)) (ret (Inl e))) (sign_in_post ul ttl i w s) z"
    if "still w s z" for z e
    unfolding wp_seqg by (rule wp_mono [OF dummy_law [OF that]])
      (auto simp: wp_ret split: outcome.splits intro: fail panic)
  show ?thesis
  proof (cases "tenant_IsZero (si_TenantID i)")
    case True
    then show ?thesis by (simp add: sign_in_Execute_def wp_ret fail same)
  next
    case t: False
    show ?thesis
    proof (cases "NewEmail (si_Email i)")
      case (Inl e)
      with t dummy [OF same] show ?thesis by (simp add: sign_in_Execute_def)
    next
      case email: (Inr email)
      show ?thesis
        unfolding sign_in_Execute_def email sum.case if_not_P [OF t] sign_in_UseCase.select_convs wp_tryg
      proof (rule wp_mono [OF find_email_step [OF same]], goal_cases)
        case (1 r w1)
        then consider e where "r = Ret (Inl e)" "still w s w1" | u where "r = Ret (Inr u)" "still w s w1"
            "find_user_by_email s (si_TenantID i) email = Some u"
          by (auto split: outcome.splits sum.splits)
        then show ?case
        proof cases
          case 1
          then show ?thesis by (auto simp: wp_ret intro: dummy fail)
        next
          case (2 u)
          note r = 2(1) and a = 2(2) and u = 2(3)
          show ?thesis
            unfolding r outcome.case sum.case
          proof (rule wp_mono [OF hasher.verify_quiet], goal_cases)
            case (1 r2 w2)
            then have "still w s w2" using a still_frame by blast
            with 1 show ?case
              using sign_in_issue_law [OF _ t email u]
              by (auto simp: wp_ret split: outcome.splits sum.splits intro: fail panic)
          qed
        qed
      qed
    qed
  qed
qed

text \<open>On a healthy server all wrong credentials look alike. \<open>C\<close> is the cost of one verification.\<close>

lemma sign_in_reject:
  assumes db: "db w s" and up: "healthy w" and t: "\<not> tenant_IsZero (si_TenantID i)"
    and wrong: "wrong_credentials verifies s i"
    and dummy: "usable dummy" "cost dummy (si_Password i) = C"
    and hashes: "\<And>u. u \<in> set (st_users s) \<Longrightarrow> usable (user_passwordHash u) \<and> cost (user_passwordHash u) (si_Password i) = C"
  shows "wp (sign_in_Execute ul (sign_in_uc ttl dummy) i) (\<lambda>r w'. r = Ret (Inl sign_in_ErrInvalidCredentials)
    \<and> db w' s \<and> rt_kdf w' = rt_kdf w @ C) w"
proof -
  have same: "still w s w" using db by (rule still_refl)
  have burn: "wp (seqg (dummy_verify (sign_in_uc ttl dummy) (si_Password i)) (ret (Inl sign_in_ErrInvalidCredentials)))
      (\<lambda>r w'. r = Ret (Inl sign_in_ErrInvalidCredentials) \<and> db w' s \<and> rt_kdf w' = rt_kdf w @ C) z"
    if "still w s z" "rt_kdf z = rt_kdf w" for z
    unfolding wp_seqg by (rule wp_mono [OF dummy_law [OF that(1)]]) (use dummy that(2) in \<open>auto simp: wp_ret after_def still_def\<close>)
  show ?thesis
  proof (cases "NewEmail (si_Email i)")
    case (Inl e)
    with t burn [OF same] show ?thesis by (simp add: sign_in_Execute_def)
  next
    case email: (Inr email)
    show ?thesis
      unfolding sign_in_Execute_def email sum.case if_not_P [OF t] sign_in_UseCase.select_convs wp_tryg
    proof (rule wp_mono [OF find_email_step [OF same]], goal_cases)
      case (1 r w1)
      then have a: "still w s w1" and k: "rt_kdf w1 = rt_kdf w" by simp_all
      show ?case
      proof (cases "find_user_by_email s (si_TenantID i) email")
        case None
        with 1 up have r: "r = Ret (Inl (ErrUser user_ErrUserNotFound))" by (auto split: outcome.splits sum.splits)
        with burn [OF a k] show ?thesis by simp
      next
        case (Some u)
        with 1 up have r: "r = Ret (Inr u)" by (auto split: outcome.splits sum.splits)
        from wrong email Some have nv: "\<not> verifies (user_passwordHash u) (si_Password i)"
          by (simp add: wrong_credentials_def)
        have h: "usable (user_passwordHash u)" "cost (user_passwordHash u) (si_Password i) = C"
          using hashes find_user_by_email_Some [OF Some] by auto
        have ver: "wp (hasher_Verify hasher (user_passwordHash u) (si_Password i))
          (\<lambda>r w'. r = Ret (Inr False) \<and> db w' s \<and> rt_kdf w' = rt_kdf w @ C) w1"
        proof (rule wp_mono [OF hasher.verify_law [OF h(1)]], goal_cases)
          case (1 r' w')
          then have "db w' s" using after_frame [OF _ still_after [OF a]] after_db by blast
          with 1 h(2) nv k show ?case by simp
        qed
        show ?thesis
          unfolding r outcome.case sum.case by (rule wp_mono [OF ver]) (simp add: wp_ret)
      qed
    qed
  qed
qed

end


subsection \<open>A sign-in gets through\<close>

context use_case_env
begin

text \<open>The token and the expiry that a sign-in returns, over a clock that reads the time of the runtime.\<close>

lemma wp_True: "wp m (\<lambda>_ _. True) w"
  by (simp add: wp_def split: prod.split)

lemma sign_in_output:
  assumes db: "db w s"
    and clk: "\<And>z. wp (clock_Now clk) (\<lambda>r _. \<forall>t. r = Ret t \<longrightarrow> (\<exists>n. t = rt_clock z n)) z"
  shows "wp (sign_in_Execute ul (sign_in_uc ttl dummy) i) (\<lambda>r z. \<forall>out. r = Ret (Inr out) \<longrightarrow>
    32 \<le> length (si_SessionToken out) \<and> (\<exists>n. si_SessionExpiresAt out = time_Add (rt_clock w n) ttl)) w"
proof -
  let ?Q = "\<lambda>r z. \<forall>out. r = Ret (Inr out) \<longrightarrow>
    32 \<le> length (si_SessionToken out) \<and> (\<exists>n. si_SessionExpiresAt out = time_Add (rt_clock w n) ttl)"
  have issue: "wp (sign_in_issue ul (sign_in_uc ttl dummy) i u) ?Q w1" if a: "still w s w1" for w1 u
    unfolding sign_in_issue_def Let_def sign_in_UseCase.select_convs
  proof (rule try_step [OF token_step a], goal_cases)
    case (1 tok w2)
    note len = 1(1)
    have same: "rt_clock w2 = rt_clock w" using 1(2) by (simp add: still_def after_def later_def)
    show ?case unfolding wp_bindg
    proof (rule wp_mono [OF clk], goal_cases)
      case (1 r w3)
      show ?case
      proof (cases r)
        case (Ret t)
        with 1 obtain n where t: "t = rt_clock w n" using same by auto
        have fin: "wp (tryg m (\<lambda>e. ret (Inl e)) (\<lambda>_. seqg m' (ret (Inr \<lparr>si_UserID = user_id u, si_SessionToken = token_String tok,
            si_SessionExpiresAt = time_Add t ttl\<rparr>)))) ?Q z" for m m' z
          unfolding wp_tryg wp_seqg using len t
          by (intro wp_mono [OF wp_True]) (auto simp: wp_ret split: outcome.splits sum.splits intro!: wp_mono [OF wp_True])
        show ?thesis unfolding Ret outcome.case wp_bindg
          by (rule wp_mono [OF wp_True]) (auto split: outcome.splits intro!: fin)
      qed simp
    qed
  qed (simp add: wp_ret)
  have dummy: "wp (seqg (dummy_verify (sign_in_uc ttl dummy) (si_Password i)) (ret (Inl e))) ?Q z" for e :: sign_in_error and z
    unfolding wp_seqg by (rule wp_mono [OF wp_True]) (auto simp: wp_ret split: outcome.splits)
  show ?thesis
  proof (cases "tenant_IsZero (si_TenantID i) \<or> (\<exists>e. NewEmail (si_Email i) = Inl e)")
    case True
    then show ?thesis using dummy by (auto simp: sign_in_Execute_def wp_ret)
  next
    case False
    then obtain email where email: "NewEmail (si_Email i) = Inr email" and t: "\<not> tenant_IsZero (si_TenantID i)"
      by (cases "NewEmail (si_Email i)") auto
    show ?thesis
      unfolding sign_in_Execute_def email sum.case if_not_P [OF t] sign_in_UseCase.select_convs wp_tryg
    proof (rule wp_mono [OF find_email_step [OF still_refl [OF db]]], goal_cases)
      case (1 r w1)
      then have a: "still w s w1" by simp
      have verify: "wp (tryg (hasher_Verify hasher (user_passwordHash u) (si_Password i)) (\<lambda>_. ret (Inl sign_in_ErrInternal)) (\<lambda>matches.
          if \<not> matches then ret (Inl sign_in_ErrInvalidCredentials) else sign_in_issue ul (sign_in_uc ttl dummy) i u)) ?Q w1" for u
        unfolding wp_tryg
        by (rule wp_mono [OF hasher.verify_quiet]) (use a still_frame in \<open>auto simp: wp_ret split: outcome.splits sum.splits intro!: issue\<close>)
      show ?case
      proof (cases r)
        case (Ret y)
        then show ?thesis
          using verify [unfolded wp_tryg] dummy by (cases y) (simp_all only: outcome.case sum.case wp_if wp_ret, auto)
      qed simp
    qed
  qed
qed

lemma sign_in_tx_live:
  fixes sid t u tok now exp
  defines "x \<equiv> session_New sid t (user_id u) (token_Hash tok) now exp"
  assumes a: "after w s w'" and v: "view w' tx s" and up: "healthy w" and i: "si_TenantID i = t"
    and u: "u \<in> set (st_users s)" and sid: "sid \<notin> session_id ` set (st_sessions s)"
    and tok: "token_Hash tok \<notin> session_tokenHash ` set (st_sessions s)"
    and ids: "\<And>n. \<exists>u. rt_uuids w n = Some u \<and> u \<notin> event_id ` set (st_events s)"
    and now: "time_MarshalJSON now \<noteq> None"
  shows "wp (sign_in_tx ul (sign_in_uc ttl dummy) i u x now tx) (\<lambda>r z. r = Ret (Inr ())) w'"
proof -
  have save: "\<exists>v'. save_session rnd x s = Some v'"
    using u sid tok by (simp add: save_session_def session_conflict_def x_def session_New_def)
  have ids': "session_id x = sid" by (simp add: x_def session_New_def)
  obtain p where p: "session_created_payload ul sid (user_id u) t now = Some p"
    using now by (auto simp: session_created_payload_def json_with_time_def)
  show ?thesis
    unfolding sign_in_tx_def i ids' sign_in_UseCase.select_convs p option.case
  proof (rule write_step [OF save_session_law a v], goal_cases)
    case (1 w1 v1)
    then have ev: "st_events v1 = st_events s" using save_session_New unfolding x_def by fastforce
    show ?case by (rule event_commit_live [OF 1(2,3) up ev ids])
  next
    case (2 e w1)
    then show ?case using up save by blast
  qed
qed

lemma sign_in_live:
  assumes db: "db w s" and up: "healthy w" and t: "\<not> tenant_IsZero (si_TenantID i)"
    and email: "NewEmail (si_Email i) = Inr email" and u: "find_user_by_email s (si_TenantID i) email = Some u"
    and ver: "usable (user_passwordHash u)" "verifies (user_passwordHash u) (si_Password i)"
    and tok: "\<And>z. later w z \<Longrightarrow> wp (tokens_NewToken tokens) (\<lambda>r _. \<exists>t. r = Ret (Inr t)
      \<and> token_Hash t \<notin> session_tokenHash ` set (st_sessions s)) z"
    and now: "\<And>z. later w z \<Longrightarrow> wp (clock_Now clk) (\<lambda>r _. \<forall>t. r = Ret t \<longrightarrow> time_MarshalJSON t \<noteq> None) z"
    and ids: "\<And>n. \<exists>u. rt_uuids w n = Some u \<and> u \<notin> event_id ` set (st_events s) \<and> u \<notin> session_id ` set (st_sessions s)"
  shows "wp (sign_in_Execute ul (sign_in_uc ttl dummy) i) (\<lambda>r z. \<exists>out. r = Ret (Inr out)) w"
proof -
  have evs: "\<exists>u. rt_uuids w n = Some u \<and> u \<notin> event_id ` set (st_events s)" for n using ids [of n] by blast
  have user: "u \<in> set (st_users s)" using find_user_by_email_Some [OF u] by blast
  have issue: "wp (sign_in_issue ul (sign_in_uc ttl dummy) i u) (\<lambda>r z. \<exists>out. r = Ret (Inr out)) w1" if a: "still w s w1" for w1
    unfolding sign_in_issue_def Let_def sign_in_UseCase.select_convs wp_tryg
  proof (rule wp_mono [OF wp_conj [OF tokens.token_law tok]], goal_cases)
    case 1
    from a show ?case by (simp add: still_def after_def)
  next
    case (2 r w2)
    then obtain k where r: "r = Ret (Inr k)" and k: "token_Hash k \<notin> session_tokenHash ` set (st_sessions s)" by auto
    have a2: "still w s w2" using 2 still_tkeeps [OF _ a] by blast
    show ?case unfolding r outcome.case sum.case wp_bindg
    proof (rule wp_mono [OF wp_conj [OF clock_law now]], goal_cases)
      case 1
      from a2 show ?case by (simp add: still_def after_def)
    next
      case (2 r3 w3)
      then obtain t0 where r3: "r3 = Ret t0" and t0: "time_MarshalJSON t0 \<noteq> None" by auto
      have a3: "still w s w3" using 2 still_frame [OF _ a2] by blast
      then have seq: "rt_uuids w3 = rt_uuids w" by (simp add: still_def after_def later_def)
      then obtain sid where sid: "rt_uuids w3 (rt_uuids_i w3) = Some sid" "sid \<notin> session_id ` set (st_sessions s)"
        using ids [of "rt_uuids_i w3"] by auto
      let ?w = "w3\<lparr>rt_uuids_i := Suc (rt_uuids_i w3)\<rparr>"
      have q: "quiet w3 ?w" by simp
      note a4 = still_after [OF still_frame [OF q a3]]
      have through: "wp (seqg (cache_write_through ul (Some cache) msg k p) (ret (Inr out)))
          (\<lambda>r z. \<exists>out. r = Ret (Inr out)) z" if "after w s' z" for s' z msg p and out :: sign_in_Output
        unfolding wp_seqg by (rule wp_mono [OF write_through_db [OF that]]) (auto simp: wp_ret)
      let ?x = "session_New sid (si_TenantID i) (user_id u) (token_Hash k) t0 (time_Add t0 ttl)"
      let ?tx = "in_tx uow sign_in_ErrInternal (sign_in_tx ul (sign_in_uc ttl dummy) i u ?x t0)"
      have tx1: "wp ?tx (\<lambda>r z. r = Ret (Inr ())) ?w"
      proof (rule in_tx_rule [OF a4], goal_cases)
        case (1 w' tx)
        show ?case by (rule wp_mono [OF sign_in_tx_live [OF 1 up refl user sid(2) k evs t0]]) auto
      qed (use up in simp)
      have tx2: "wp ?tx (sign_in_tx_post w s (\<lambda>_. True)) ?w"
      proof (rule in_tx_rule [OF a4], goal_cases)
        case (1 w' tx)
        show ?case
          by (rule wp_mono [OF sign_in_tx_law [OF 1 refl, where E = "\<lambda>_. True"]])
             (auto simp: sign_in_tx_post_def split: outcome.splits sum.splits)
      qed (auto simp: sign_in_tx_post_def)
      have tx: "wp ?tx (\<lambda>r z. r = Ret (Inr ()) \<and> (\<exists>s'. after w s' z)) ?w"
        by (rule wp_mono [OF wp_conj [OF tx1 tx2]]) (auto simp: sign_in_tx_post_def)
      show ?case
        unfolding r3 outcome.case wp_uuid_New sid(1) option.case wp_tryg
        by (rule wp_mono [OF tx]) (auto intro: through)
    qed
  qed
  have verify: "wp (hasher_Verify hasher (user_passwordHash u) (si_Password i)) (\<lambda>r z. r = Ret (Inr True) \<and> still w s z) w1"
    if "still w s w1" for w1
    by (rule wp_mono [OF hasher.verify_law [OF ver(1)]]) (use that still_frame ver(2) in auto)
  show ?thesis
    unfolding sign_in_Execute_def email sum.case if_not_P [OF t] sign_in_UseCase.select_convs wp_tryg
  proof (rule wp_mono [OF find_email_step [OF still_refl [OF db]]], goal_cases)
    case (1 r w1)
    with u up have r: "r = Ret (Inr u)" by (auto split: outcome.splits sum.splits)
    from 1 have a: "still w s w1" by simp
    show ?case unfolding r outcome.case sum.case
      by (rule wp_mono [OF verify [OF a]]) (auto intro: issue)
  qed
qed

end

subsection \<open>The use case in production\<close>

definition prod_sign_in ::
  "'p pgx \<Rightarrow> 'k SessionCache \<Rightarrow> uuid_lib \<Rightarrow> argon2_kdf \<Rightarrow> Params \<Rightarrow> duration \<Rightarrow>
    (('p, 'k) world, sign_in_error + (('p, 'k) world) sign_in_UseCase) go" where
  "prod_sign_in drv cl ul kdf ps ttl =
    sign_in_New (pg_UnitOfWork drv) (pg_UserRepository drv) (pg_SessionRepository drv) (pg_OutboxRepository drv)
      (Some (valkey_SessionCache cl ul)) (argon2_Hasher kdf ps) opaque_Generator clock_Real ttl"

text \<open>A password hash that \<open>Hash\<close> can have produced with the given parameters.\<close>

definition made_by :: "Params \<Rightarrow> PasswordHash \<Rightarrow> bool" where
  "made_by ps h = (\<exists>salt key. h = PasswordHash (phc_string ps salt key) \<and> length key = unat (KeyLen ps))"

definition kdf_cost :: "Params \<Rightarrow> string \<Rightarrow> kdf_call list" where
  "kdf_cost ps raw = (if length raw > 256 then []
     else [(unat (Time ps), unat (MemoryKiB ps), unat (Parallelism ps), unat (KeyLen ps))])"

lemma made_by_cost:
  "made_by ps h \<Longrightarrow> Time ps \<noteq> 0 \<Longrightarrow> Parallelism ps \<noteq> 0 \<Longrightarrow> KeyLen ps \<noteq> 0 \<Longrightarrow> argon2_usable h \<and> argon2_cost h raw = kdf_cost ps raw"
  by (auto simp: made_by_def argon2_usable_def argon2_cost_def kdf_cost_def parse_phc_string PasswordMaxLen_def)

lemma argon2_Hash_made_by:
  assumes "kdf_laws kdf" "Time ps \<noteq> 0" "Parallelism ps \<noteq> 0" "KeyLen ps \<noteq> 0" "argon2_Hash kdf ps raw w = (Ret (Inr h), w')"
  shows "made_by ps h"
proof -
  have "wp (argon2_Hash kdf ps raw) (\<lambda>r w'. \<forall>h. r = Ret (Inr h) \<longrightarrow> made_by ps h) w"
  proof (cases "rt_rand w (rt_rand_i w)")
    case (Some f)
    obtain k where "kdf raw (map f [0..<unat (SaltLen ps)]) (Time ps) (MemoryKiB ps) (Parallelism ps) (KeyLen ps) = Some k"
      "length k = unat (KeyLen ps)"
      using assms(1-4) unfolding kdf_laws_def by blast
    with Some show ?thesis by (auto simp: argon2_Hash_def wp_simps NewPasswordHash_def made_by_def)
  qed (simp add: argon2_Hash_def wp_simps)
  with assms(5) show ?thesis by (simp add: wp_def)
qed

context production
begin

lemma prod_sign_in_uc:
  assumes "prod_sign_in drv cl ul kdf ps ttl w0 = (Ret (Inr uc), w1)"
  obtains dummy where "uc = env.sign_in_uc ttl dummy" "made_by ps dummy"
proof -
  from assms obtain dummy w where "argon2_Hash kdf ps ''dummy-password-for-timing-safety-only'' w0 = (Ret (Inr dummy), w)"
    and uc: "uc = env.sign_in_uc ttl dummy"
    by (auto simp: prod_sign_in_def sign_in_New_def tryg_def bindg_def ret_def argon2_Hasher_def
        split: prod.splits outcome.splits sum.splits)
  from argon2_Hash_made_by [OF laws params this(1)] uc that show ?thesis by blast
qed

lemma sign_in_prod:
  assumes "prod_sign_in drv cl ul kdf ps ttl w0 = (Ret (Inr uc), w1)"
    and "pg_db committed w s" and "sign_in_Execute ul uc i w = (r, w')"
  shows "case r of
      Ret (Inr out) \<Rightarrow> (\<exists>s'. sign_in_effect (argon2_verifies kdf) rnd ul ttl i out s s' \<and> pg_db committed w' s')
    | Ret (Inl e) \<Rightarrow> pg_db committed w' s \<or> e = sign_in_ErrInternal \<and> \<not> up (w_pg w) \<and>
        (\<exists>s' out. sign_in_effect (argon2_verifies kdf) rnd ul ttl i out s s' \<and> pg_db committed w' s')
    | Panic _ \<Rightarrow> pg_db committed w' s"
proof -
  obtain dummy where uc: "uc = env.sign_in_uc ttl dummy" using prod_sign_in_uc [OF assms(1)] by blast
  from wpD [OF env.sign_in_law [OF assms(2)] assms(3) [unfolded uc]] show ?thesis
    unfolding env.sign_in_post_def store.after_def by (auto split: outcome.splits sum.splits)
qed

lemma sign_in_output_prod:
  fixes w :: "('p, 'k) world"
  assumes uc: "prod_sign_in drv cl ul kdf ps ttl w0 = (Ret (Inr uc), w1)" and db: "pg_db committed w s"
    and e: "sign_in_Execute ul uc i w = (Ret (Inr out), w')"
  shows "32 \<le> length (si_SessionToken out) \<and> (\<exists>n. si_SessionExpiresAt out = time_Add (rt_clock w n) ttl) \<and> later w w'"
proof -
  obtain dummy where uc': "uc = env.sign_in_uc ttl dummy" using prod_sign_in_uc [OF uc] by blast
  have clk: "wp (clock_Now clock_Real) (\<lambda>r _. \<forall>t. r = Ret t \<longrightarrow> (\<exists>n. t = rt_clock z n)) z" for z :: "('p, 'k) world"
    by (auto simp: clock_Real_def wp_simps)
  from wpD [OF env.sign_in_output [OF db clk] e [unfolded uc']] wpD [OF env.sign_in_law [OF db] e [unfolded uc']]
  show ?thesis by (auto simp: env.sign_in_post_def store.after_def)
qed

lemma sign_in_live_prod:
  fixes w :: "('p, 'k) world"
  assumes uc: "prod_sign_in drv cl ul kdf ps ttl w0 = (Ret (Inr uc), w1)"
    and db: "pg_db committed w s" and up: "up (w_pg w)" and t: "\<not> tenant_IsZero (si_TenantID i)"
    and email: "NewEmail (si_Email i) = Inr email" and u: "find_user_by_email s (si_TenantID i) email = Some u"
    and ver: "made_by ps (user_passwordHash u)" "argon2_verifies kdf (user_passwordHash u) (si_Password i)"
    and rand: "\<And>n. \<exists>f. rt_rand w n = Some f \<and>
      HashOf (base64_EncodeToString url_alphabet (map f [0..<32])) \<notin> session_tokenHash ` set (st_sessions s)"
    and now: "\<And>n. time_MarshalJSON (rt_clock w n) \<noteq> None"
    and ids: "\<And>n. \<exists>u. rt_uuids w n = Some u \<and> u \<notin> event_id ` set (st_events s) \<and> u \<notin> session_id ` set (st_sessions s)"
  shows "\<exists>out w'. sign_in_Execute ul uc i w = (Ret (Inr out), w') \<and> up (w_pg w')"
proof -
  obtain dummy where uc': "uc = env.sign_in_uc ttl dummy" using prod_sign_in_uc [OF uc] by blast
  have usable: "argon2_usable (user_passwordHash u)" using made_by_cost [OF ver(1) params] by blast
  have clk: "wp (clock_Now clock_Real) (\<lambda>r _. \<forall>t. r = Ret t \<longrightarrow> time_MarshalJSON t \<noteq> None) z" if "later w z" for z
    using that now by (intro clock_live) (simp add: later_def)
  have tok: "wp (tokens_NewToken opaque_Generator) (\<lambda>r _. \<exists>t. r = Ret (Inr t)
      \<and> token_Hash t \<notin> session_tokenHash ` set (st_sessions s)) z" if "later w z" for z
    using rand [of "rt_rand_i z"] that by (auto simp: later_def intro: opaque_live)
  obtain r w' where e: "sign_in_Execute ul uc i w = (r, w')" by fastforce
  from wpD [OF env.sign_in_live [OF db up t email u usable ver(2) tok clk ids] e [unfolded uc']] obtain out where
    r: "r = Ret (Inr out)" by blast
  from wpD [OF env.sign_in_law [OF db] e [unfolded uc']] r up have "up (w_pg w')"
    by (auto simp: env.sign_in_post_def store.after_def)
  with e r show ?thesis by blast
qed

lemma sign_in_uniform:
  assumes uc: "prod_sign_in drv cl ul kdf ps ttl w0 = (Ret (Inr uc), w1)"
    and db: "pg_db committed w s" and up: "up (w_pg w)"
    and hashes: "\<forall>u \<in> set (st_users s). made_by ps (user_passwordHash u)"
    and i: "\<not> tenant_IsZero (si_TenantID i)" "wrong_credentials (argon2_verifies kdf) s i"
  shows "\<exists>w'. sign_in_Execute ul uc i w = (Ret (Inl sign_in_ErrInvalidCredentials), w')
    \<and> pg_db committed w' s \<and> rt_kdf w' = rt_kdf w @ kdf_cost ps (si_Password i)"
proof -
  obtain dummy where uc: "uc = env.sign_in_uc ttl dummy" and d: "made_by ps dummy" using prod_sign_in_uc [OF uc] by blast
  note cost = made_by_cost [OF _ params]
  have "wp (sign_in_Execute ul uc i) (\<lambda>r w'. r = Ret (Inl sign_in_ErrInvalidCredentials)
      \<and> pg_db committed w' s \<and> rt_kdf w' = rt_kdf w @ kdf_cost ps (si_Password i)) w"
    unfolding uc by (rule env.sign_in_reject [OF db up i]) (use cost [OF d] cost hashes in auto)
  then show ?thesis by (cases "sign_in_Execute ul uc i w") (auto simp: wp_def)
qed

end

text \<open>C2: a sign-in is authentic and atomic. It succeeds only for a user of the database that has the
  normalised address in the tenant and whose stored hash verifies the password; the database then has
  gained exactly one session of that user, under the hash of the returned token, and its event. On
  failure the database is unchanged, except that a lost answer to \<open>Commit\<close> may leave the complete session
  behind while the caller sees \<open>ErrInternal\<close>.\<close>

theorem sign_in_authentic:
  assumes "production drv committed txview up rnd cl content kvup ul kdf ps"
    and "prod_sign_in drv cl ul kdf ps ttl w0 = (Ret (Inr uc), w1)"
    and "pg_db committed w s" and "sign_in_Execute ul uc i w = (r, w')"
  shows "case r of
      Ret (Inr out) \<Rightarrow> (\<exists>s'. sign_in_effect (argon2_verifies kdf) rnd ul ttl i out s s' \<and> pg_db committed w' s')
    | Ret (Inl e) \<Rightarrow> pg_db committed w' s \<or> e = sign_in_ErrInternal \<and> \<not> up (w_pg w) \<and>
        (\<exists>s' out. sign_in_effect (argon2_verifies kdf) rnd ul ttl i out s s' \<and> pg_db committed w' s')
    | Panic _ \<Rightarrow> pg_db committed w' s"
  using production.sign_in_prod [OF assms] .

text \<open>C6: wrong credentials cannot be told apart. With the database up and all stored hashes made with the
  current parameters, a malformed address, an unknown address and a wrong password all return
  \<open>ErrInvalidCredentials\<close>, leave the database as it is, and run the key-derivation function in the same
  way: once with the configured cost, or not at all when the password has more than 256 bytes.\<close>

theorem sign_in_no_enumeration:
  assumes "production drv committed txview up rnd cl content kvup ul kdf ps"
    and "prod_sign_in drv cl ul kdf ps ttl w0 = (Ret (Inr uc), w1)"
    and "pg_db committed w s" and "up (w_pg w)"
    and "\<forall>u \<in> set (st_users s). made_by ps (user_passwordHash u)"
    and "\<not> tenant_IsZero (si_TenantID i)" and "wrong_credentials (argon2_verifies kdf) s i"
  shows "\<exists>w'. sign_in_Execute ul uc i w = (Ret (Inl sign_in_ErrInvalidCredentials), w')
    \<and> pg_db committed w' s \<and> rt_kdf w' = rt_kdf w @ kdf_cost ps (si_Password i)"
  using production.sign_in_uniform [OF assms] .

text \<open>C15: a sign-in gets through. With the database up, a user whose stored hash was made with the current parameters and
  verifies the password is signed in, whatever the cache does, provided the random bytes and identifiers drawn
  are available and new and the clock shows a year of at most four digits.\<close>

theorem sign_in_succeeds:
  fixes w :: "('p, 'k) world" and cl :: "'k SessionCache"
  assumes "production drv committed txview up rnd cl content kvup ul kdf ps"
    and "prod_sign_in drv cl ul kdf ps ttl w0 = (Ret (Inr uc), w1)"
    and "pg_db committed w s" and "up (w_pg w)" and "\<not> tenant_IsZero (si_TenantID i)"
    and "NewEmail (si_Email i) = Inr email" and "find_user_by_email s (si_TenantID i) email = Some u"
    and "made_by ps (user_passwordHash u)" and "argon2_verifies kdf (user_passwordHash u) (si_Password i)"
    and "\<And>n. \<exists>f. rt_rand w n = Some f \<and>
      HashOf (base64_EncodeToString url_alphabet (map f [0..<32])) \<notin> session_tokenHash ` set (st_sessions s)"
    and "\<And>n. time_MarshalJSON (rt_clock w n) \<noteq> None"
    and "\<And>n. \<exists>u. rt_uuids w n = Some u \<and> u \<notin> event_id ` set (st_events s) \<and> u \<notin> session_id ` set (st_sessions s)"
  shows "\<exists>out w'. sign_in_Execute ul uc i w = (Ret (Inr out), w') \<and> up (w_pg w')"
  using production.sign_in_live_prod [OF assms] .

subsection \<open>Examples\<close>

text \<open>A database with a user who can sign in.\<close>

definition member_password :: string where
  "member_password = ''correct horse battery''"

definition member_salt :: string where
  "member_salt = ''0123456789abcdef''"

definition member_key :: string where
  "member_key = take 32 (member_salt @ member_password @ replicate 32 (CHR 0x00))"

definition member :: User where
  "member = sample_user\<lparr>user_passwordHash := PasswordHash (phc_string argon2_Default member_salt member_key)\<rparr>"

definition member_store :: store where
  "member_store = \<lparr>st_users = [member], st_sessions = [], st_events = []\<rparr>"

definition member_world :: "(server, kvserver) world" where
  "member_world = (sample_world (\<lambda>_. Served))\<lparr>rt_clock := \<lambda>_. 1780000000000000000,
     w_pg := (empty_server (\<lambda>_. Served))\<lparr>srv_tables := tables_of member_store\<rparr>\<rparr>"

definition member_sign_in :: sign_in_Input where
  "member_sign_in = \<lparr>si_TenantID = ID 1, si_Email = ''user@example.com'', si_Password = member_password\<rparr>"

lemma member_made: "made_by argon2_Default (user_passwordHash member)"
  unfolding made_by_def
  by (rule exI [where x = member_salt], rule exI [where x = member_key])
     (simp add: member_def argon2_Default_def member_key_def member_salt_def member_password_def)

lemma member_verifies: "argon2_verifies sample_kdf (user_passwordHash member) member_password"
  by (simp add: argon2_verifies_def member_def parse_phc_string argon2_Default_def member_key_def member_salt_def member_password_def
      PasswordMaxLen_def sample_kdf_def)

lemma member_world_db: "pg_db srv_tables member_world member_store"
  using valid_sample_user
  by (simp add: pg_db_def member_world_def consistent_def member_store_def member_def valid_user_def)

lemma member_email: "NewEmail (si_Email member_sign_in) = Inr (user_email member)"
  using valid_sample_user by (simp add: valid_user_def member_def sample_user_def member_sign_in_def)

lemma member_found: "find_user_by_email member_store (si_TenantID member_sign_in) (user_email member) = Some member"
  by (simp add: find_user_by_email_def member_store_def member_sign_in_def member_def sample_user_def)

lemma member_world_sel:
  "w_pg member_world = (empty_server (\<lambda>_. Served))\<lparr>srv_tables := tables_of member_store\<rparr>" "w_kv member_world = empty_cache"
  "rt_clock member_world = (\<lambda>_. 1780000000000000000)" "rt_rand member_world = rt_rand sample_rt" "rt_uuids member_world = rt_uuids sample_rt"
  by (simp_all add: member_world_def sample_world_def rt.extend_def)

lemma sample_sign_in:
  obtains uc w1 where "prod_sign_in (ref_pgx micros) ref_cache canonical_uuids sample_kdf argon2_Default 3600000000000
    (sample_world f) = (Ret (Inr uc), w1)"
  by (simp add: prod_sign_in_def sign_in_New_def tryg_def bindg_def ret_def argon2_Hasher_def argon2_Hash_def
      PasswordMaxLen_def rand_Read_def argon2_IDKey_def sample_world_def sample_rt_def rt.extend_def sample_kdf_def
      argon2_Default_def)

definition sample_credentials :: sign_in_Input where
  "sample_credentials = \<lparr>si_TenantID = ID 1, si_Email = ''nobody@example.com'', si_Password = ''correct horse battery''\<rparr>"

theorem sign_in_succeeds_witness:
  "\<exists>uc out w'. sign_in_Execute canonical_uuids uc member_sign_in member_world = (Ret (Inr out), w') \<and> ref_up (w_pg w')"
proof -
  obtain uc w1 where uc: "prod_sign_in (ref_pgx micros) ref_cache canonical_uuids sample_kdf argon2_Default 3600000000000
    (sample_world (\<lambda>_. Served)) = (Ret (Inr uc), w1)" by (rule sample_sign_in)
  have m: "time_MarshalJSON 1780000000000000000 \<noteq> None" by code_simp
  have "\<exists>out w'. sign_in_Execute canonical_uuids uc member_sign_in member_world = (Ret (Inr out), w') \<and> ref_up (w_pg w')"
    by (rule sign_in_succeeds [OF ref_production.production_axioms uc member_world_db _ _ member_email member_found member_made])
       (use m member_verifies in \<open>simp_all add: member_world_sel ref_up_def empty_server_def member_sign_in_def tenant_IsZero_def
          uuid_Nil_def member_store_def sample_rt_def\<close>)
  then show ?thesis by blast
qed

lemma member_signs_in:
  obtains uc w1 out w' where
    "prod_sign_in (ref_pgx micros) ref_cache canonical_uuids sample_kdf argon2_Default 3600000000000
      (sample_world (\<lambda>_. Served)) = (Ret (Inr uc), w1)"
    "sign_in_Execute canonical_uuids uc member_sign_in member_world = (Ret (Inr out), w')" "ref_up (w_pg w')"
proof -
  obtain uc w1 where uc: "prod_sign_in (ref_pgx micros) ref_cache canonical_uuids sample_kdf argon2_Default 3600000000000
    (sample_world (\<lambda>_. Served)) = (Ret (Inr uc), w1)" by (rule sample_sign_in)
  have m: "time_MarshalJSON 1780000000000000000 \<noteq> None" by code_simp
  have "\<exists>out w'. sign_in_Execute canonical_uuids uc member_sign_in member_world = (Ret (Inr out), w') \<and> ref_up (w_pg w')"
    by (rule ref_production.sign_in_live_prod [OF uc member_world_db _ _ member_email member_found member_made])
       (use m member_verifies in \<open>simp_all add: member_world_sel ref_up_def empty_server_def member_sign_in_def tenant_IsZero_def
          uuid_Nil_def member_store_def sample_rt_def\<close>)
  with uc that show ?thesis by blast
qed

theorem sign_in_authentic_witness:
  "\<exists>uc out w' s'. sign_in_Execute canonical_uuids uc member_sign_in member_world = (Ret (Inr out), w')
    \<and> sign_in_effect (argon2_verifies sample_kdf) micros canonical_uuids 3600000000000 member_sign_in out member_store s'
    \<and> pg_db srv_tables w' s'"
proof -
  obtain uc w1 out w' where uc: "prod_sign_in (ref_pgx micros) ref_cache canonical_uuids sample_kdf argon2_Default 3600000000000
      (sample_world (\<lambda>_. Served)) = (Ret (Inr uc), w1)"
    and e: "sign_in_Execute canonical_uuids uc member_sign_in member_world = (Ret (Inr out), w')"
    by (rule member_signs_in)
  from sign_in_authentic [OF ref_production.production_axioms uc member_world_db e] e show ?thesis by auto
qed

theorem sign_in_no_enumeration_witness:
  "\<exists>uc w'. sign_in_Execute canonical_uuids uc sample_credentials (sample_world (\<lambda>_. Served))
      = (Ret (Inl sign_in_ErrInvalidCredentials), w')
    \<and> rt_kdf w' = [(3, 65536, 1, 32)]"
proof -
  let ?w = "sample_world (\<lambda>_. Served)"
  obtain uc w1 where uc: "prod_sign_in (ref_pgx micros) ref_cache canonical_uuids sample_kdf argon2_Default 3600000000000 ?w
    = (Ret (Inr uc), w1)" by (rule sample_sign_in)
  have wrong: "wrong_credentials (argon2_verifies sample_kdf) empty_store sample_credentials"
    by (simp add: wrong_credentials_def find_user_by_email_def empty_store_def split: sum.split)
  have cost: "rt_kdf ?w @ kdf_cost argon2_Default (si_Password sample_credentials) = [(3, 65536, 1, 32)]"
    by (simp add: sample_world_def sample_rt_def rt.extend_def kdf_cost_def argon2_Default_def sample_credentials_def)
  have up: "ref_up (w_pg ?w)" and t: "\<not> tenant_IsZero (si_TenantID sample_credentials)"
    and hashes: "\<forall>u \<in> set (st_users empty_store). made_by argon2_Default (user_passwordHash u)"
    by (simp_all add: ref_up_def empty_server_def tenant_IsZero_def uuid_Nil_def sample_credentials_def empty_store_def)
  from sign_in_no_enumeration [OF ref_production.production_axioms uc sample_world_db up hashes t wrong]
  show ?thesis unfolding cost by blast
qed

end
