(* ===== verification/Sign_Out.thy ===== *)
theory Sign_Out
  imports Production
begin

text \<open>
  \<open>internal/usecase/sign_out\<close> and \<open>internal/usecase/get_me\<close>. Sign-out revokes the session in one
  transaction with its event and then deletes the cache entry; get-me reads the current user. Lemmas:
  a successful sign-out leaves the session revoked (and the time of the first revocation unchanged) and
  no cache entry behind when the cache works; the projection of get-me is the row of the user, and only
  of a user of the same tenant.
\<close>

datatype sign_out_error = sign_out_ErrInternal

record sign_out_Input =
  so_TenantID :: tenant_ID
  so_SessionID :: uuid
  so_UserID :: uuid
  so_TokenHashHex :: string

record 'w sign_out_UseCase =
  so_uow :: "'w UnitOfWork"
  so_sessions :: "'w SessionRepository"
  so_outbox :: "'w OutboxRepository"
  so_cache :: "'w Cache option"
  so_clock :: "'w Clock"

definition sign_out_New ::
  "'w UnitOfWork \<Rightarrow> 'w SessionRepository \<Rightarrow> 'w OutboxRepository \<Rightarrow> 'w Cache option \<Rightarrow> 'w Clock \<Rightarrow> 'w sign_out_UseCase" where
  "sign_out_New uow sessions outboxRepo cache clk =
    \<lparr>so_uow = uow, so_sessions = sessions, so_outbox = outboxRepo, so_cache = cache, so_clock = clk\<rparr>"

definition sign_out_tx ::
  "uuid_lib \<Rightarrow> ('a rt_scheme) sign_out_UseCase \<Rightarrow> sign_out_Input \<Rightarrow> time \<Rightarrow> Tx \<Rightarrow> ('a rt_scheme, sign_out_error + unit) go" where
  "sign_out_tx ul uc i now tx =
    tryg (sessions_RevokeTx (so_sessions uc) tx (so_TenantID i) (so_SessionID i)) (\<lambda>_. ret (Inl sign_out_ErrInternal)) (\<lambda>_.
    case session_revoked_payload ul (so_SessionID i) (so_UserID i) (so_TenantID i) now of
      None \<Rightarrow> ret (Inl sign_out_ErrInternal)
    | Some payload \<Rightarrow>
    bindg uuid_New (\<lambda>eid.
    tryg (outbox_WriteTx (so_outbox uc) tx
        (outbox_New eid (so_TenantID i) ''session'' (so_SessionID i) TopicSessionRevoked payload now))
      (\<lambda>_. ret (Inl sign_out_ErrInternal)) (\<lambda>_.
    tryg (uow_Commit (so_uow uc) tx) (\<lambda>_. ret (Inl sign_out_ErrInternal)) (\<lambda>_. ret (Inr ())))))"

definition sign_out_uncache ::
  "uuid_lib \<Rightarrow> ('a rt_scheme) sign_out_UseCase \<Rightarrow> sign_out_Input \<Rightarrow> ('a rt_scheme, unit) go" where
  "sign_out_uncache ul uc i =
    (case so_cache uc of None \<Rightarrow> ret ()
     | Some c \<Rightarrow>
       if so_TokenHashHex i \<noteq> '''' then
         tryg (cache_Delete c (so_TokenHashHex i))
           (\<lambda>e. slog Warn ''session cache delete failed after sign-out''
                  [(''session_id'', uuid_String ul (so_SessionID i)), (''err'', error_Error e)])
           (\<lambda>_. ret ())
       else ret ())"

definition sign_out_Execute ::
  "uuid_lib \<Rightarrow> ('a rt_scheme) sign_out_UseCase \<Rightarrow> sign_out_Input \<Rightarrow> ('a rt_scheme, sign_out_error + unit) go" where
  "sign_out_Execute ul uc i =
    (if tenant_IsZero (so_TenantID i) \<or> so_SessionID i = uuid_Nil then ret (Inl sign_out_ErrInternal)
     else
       bindg (clock_Now (so_clock uc)) (\<lambda>now.
       tryg (in_tx (so_uow uc) sign_out_ErrInternal (sign_out_tx ul uc i now)) (\<lambda>e. ret (Inl e)) (\<lambda>_.
       seqg (sign_out_uncache ul uc i) (ret (Inr ())))))"

subsection \<open>get\_me\<close>

datatype get_me_error = get_me_ErrNotFound | get_me_ErrInternal

record get_me_Input =
  gm_TenantID :: tenant_ID
  gm_UserID :: uuid

record get_me_Output =
  gm_OutUserID :: uuid
  gm_Email :: string
  gm_Status :: string
  gm_CreatedAt :: time

record 'w get_me_UseCase =
  gm_users :: "'w UserRepository"

definition get_me_New :: "'w UserRepository \<Rightarrow> 'w get_me_UseCase" where
  "get_me_New users = \<lparr>gm_users = users\<rparr>"

definition get_me_Execute :: "'w get_me_UseCase \<Rightarrow> get_me_Input \<Rightarrow> ('w, get_me_error + get_me_Output) go" where
  "get_me_Execute uc i =
    (if tenant_IsZero (gm_TenantID i) then ret (Inl get_me_ErrInternal)
     else tryg (users_FindByID (gm_users uc) (gm_TenantID i) (gm_UserID i))
       (\<lambda>e. if e = ErrUser user_ErrUserNotFound then ret (Inl get_me_ErrNotFound) else ret (Inl get_me_ErrInternal))
       (\<lambda>u. ret (Inr \<lparr>gm_OutUserID = user_id u, gm_Email = email_String (user_email u), gm_Status = user_status u,
                     gm_CreatedAt = user_createdAt u\<rparr>)))"

subsection \<open>What a sign-out does to the store\<close>

definition sign_out_effect ::
  "(time \<Rightarrow> time) \<Rightarrow> uuid_lib \<Rightarrow> sign_out_Input \<Rightarrow> store \<Rightarrow> store \<Rightarrow> bool" where
  "sign_out_effect rnd ul i s s' =
    (\<exists>t s1 now eid p.
       revoke_session (so_TenantID i) (so_SessionID i) t s = Some s1
       \<and> session_revoked_payload ul (so_SessionID i) (so_UserID i) (so_TenantID i) now = Some p
       \<and> s' = s1\<lparr>st_events := st_events s1 @
           [round_event rnd (outbox_New eid (so_TenantID i) ''session'' (so_SessionID i) TopicSessionRevoked p now)]\<rparr>)"

lemma revoke_session_find:
  assumes "revoke_session t sid now s = Some s'"
  shows "find_session s' h = map_option (\<lambda>x. if is_session t sid x then revoke_at now x else x) (find_session s h)"
proof -
  have "(session_tokenHash (if is_session t sid x then revoke_at now x else x) = h) = (session_tokenHash x = h)" for x
    by simp
  moreover from assms have "st_sessions s' = map (\<lambda>x. if is_session t sid x then revoke_at now x else x) (st_sessions s)"
    by (auto simp: revoke_session_def split: if_splits)
  ultimately show ?thesis
    by (simp only: find_session_def find_map)
qed

text \<open>The session is there and revoked, revoked sessions keep their time, and nothing else about any session
  changes.\<close>

lemma sign_out_effect_revokes:
  assumes "sign_out_effect rnd ul i s s'"
  shows "\<exists>x \<in> set (st_sessions s). is_session (so_TenantID i) (so_SessionID i) x"
    and "x \<in> set (st_sessions s') \<Longrightarrow> is_session (so_TenantID i) (so_SessionID i) x \<Longrightarrow> session_revokedAt x \<noteq> None"
    and "find_session s h = Some x \<Longrightarrow> \<exists>x'. find_session s' h = Some x' \<and> session_id x' = session_id x
      \<and> session_userID x' = session_userID x \<and> session_tenantID x' = session_tenantID x
      \<and> session_expiresAt x' = session_expiresAt x
      \<and> (session_revokedAt x \<noteq> None \<longrightarrow> session_revokedAt x' = session_revokedAt x)
      \<and> (\<not> is_session (so_TenantID i) (so_SessionID i) x \<longrightarrow> x' = x)"
    and "find_session s h = None \<Longrightarrow> find_session s' h = None"
    and "st_users s' = st_users s"
proof -
  from assms obtain t s1 es where r: "revoke_session (so_TenantID i) (so_SessionID i) t s = Some s1"
    and s': "s' = s1\<lparr>st_events := es\<rparr>"
    by (auto simp: sign_out_effect_def)
  have f: "find_session s' h = map_option (\<lambda>x. if is_session (so_TenantID i) (so_SessionID i) x then revoke_at t x else x)
      (find_session s h)" for h
    using revoke_session_find [OF r] by (simp add: s' find_session_def)
  from r show "\<exists>x \<in> set (st_sessions s). is_session (so_TenantID i) (so_SessionID i) x" "st_users s' = st_users s"
    by (auto simp: revoke_session_def s' split: if_splits)
  show "session_revokedAt x \<noteq> None"
    if "x \<in> set (st_sessions s')" "is_session (so_TenantID i) (so_SessionID i) x"
    using that r by (auto simp: s' revoke_session_def is_session_def revoke_at_def split: if_splits)
  show "find_session s h = None \<Longrightarrow> find_session s' h = None" by (simp add: f)
  show "\<exists>x'. find_session s' h = Some x' \<and> session_id x' = session_id x
      \<and> session_userID x' = session_userID x \<and> session_tenantID x' = session_tenantID x
      \<and> session_expiresAt x' = session_expiresAt x
      \<and> (session_revokedAt x \<noteq> None \<longrightarrow> session_revokedAt x' = session_revokedAt x)
      \<and> (\<not> is_session (so_TenantID i) (so_SessionID i) x \<longrightarrow> x' = x)" if "find_session s h = Some x"
    using that by (simp add: f) (simp add: revoke_at_def)
qed

subsection \<open>The use cases over any environment\<close>

context use_case_env
begin

abbreviation sign_out_uc :: "('a rt_scheme) sign_out_UseCase" where
  "sign_out_uc \<equiv> sign_out_New uow sessions outbox (Some cache) clk"

definition sign_out_post ::
  "uuid_lib \<Rightarrow> sign_out_Input \<Rightarrow> 'a rt_scheme \<Rightarrow> store \<Rightarrow> (sign_out_error + unit) outcome \<Rightarrow> 'a rt_scheme \<Rightarrow> bool" where
  "sign_out_post ul i w s r z =
    (case r of
       Ret (Inr _) \<Rightarrow> \<exists>s'. sign_out_effect rnd ul i s s' \<and> after w s' z
     | Ret (Inl _) \<Rightarrow> \<exists>s'. after w s' z \<and> (s' = s \<or> \<not> healthy w \<and> sign_out_effect rnd ul i s s')
     | Panic _ \<Rightarrow> after w s z)"

lemma sign_out_tx_law:
  assumes a: "after w s w'" and v: "view w' tx s"
  shows "wp (sign_out_tx ul sign_out_uc i now tx) (sign_out_post ul i w s) w'"
proof -
  note post = sign_out_post_def wp_ret
  have err: "wp (ret (Inl sign_out_ErrInternal)) (sign_out_post ul i w s) z" if "after w s z" for z
    using that by (auto simp: post)
  show ?thesis
    unfolding sign_out_tx_def sign_out_New_def sign_out_UseCase.select_convs
  proof (rule write_step [OF revoke_law a v], goal_cases)
    case (1 w1 v1)
    then obtain t where v1: "revoke_session (so_TenantID i) (so_SessionID i) t s = Some v1" by blast
    show ?case
    proof (cases "session_revoked_payload ul (so_SessionID i) (so_UserID i) (so_TenantID i) now")
      case None
      then show ?thesis using err 1(2) by simp
    next
      case (Some p)
      show ?thesis unfolding Some option.case
      proof (rule uuid_step [OF 1(2,3)], goal_cases)
        case (1 eid w3)
        show ?case
        proof (rule write_step [OF write_event_law 1], goal_cases)
          case (1 w4 v4)
          have E: "sign_out_effect rnd ul i s v4"
            unfolding sign_out_effect_def
            by (intro exI conjI, rule v1, rule Some, rule write_event_Some [OF 1(1)])
          show ?case
            by (rule commit_step [OF 1(2,3)]) (use E in \<open>auto simp: post\<close>)
        qed (use err in blast)
      qed (simp add: post)
    qed
  qed (use err in blast)
qed

lemma uncache_db:
  assumes "after w0 s w"
  shows "wp (sign_out_uncache ul sign_out_uc i) (\<lambda>r w'. r = Ret () \<and> after w0 s w') w"
proof (cases "so_TokenHashHex i = ''''")
  case True
  with assms show ?thesis by (simp add: sign_out_uncache_def sign_out_New_def wp_simps)
next
  case False
  show ?thesis
    unfolding sign_out_uncache_def sign_out_New_def sign_out_UseCase.select_convs option.case if_P [OF False] wp_tryg
  proof (rule wp_mono [OF cache.delete_law], goal_cases)
    case (1 r w')
    then have k: "after w0 s w'" using after_keeps assms by blast
    have l: "quiet w' (w'\<lparr>rt_logs := x\<rparr>)" for x by simp
    from 1 k after_frame [OF l k] show ?case
      by (auto simp: wp_simps split: outcome.splits sum.splits)
  qed
qed

lemma uncache_returns: "wp (sign_out_uncache ul sign_out_uc i) (\<lambda>r w'. r = Ret ()) w"
proof (cases "so_TokenHashHex i = ''''")
  case True
  then show ?thesis by (simp add: sign_out_uncache_def sign_out_New_def wp_simps)
next
  case False
  show ?thesis
    unfolding sign_out_uncache_def sign_out_New_def sign_out_UseCase.select_convs option.case if_P [OF False] wp_tryg
    by (rule wp_mono [OF cache.delete_law]) (auto simp: wp_simps split: outcome.splits sum.splits)
qed

lemma sign_out_law:
  assumes db: "db w s"
  shows "wp (sign_out_Execute ul sign_out_uc i) (sign_out_post ul i w s) w"
proof -
  have same: "still w s w" using db by (rule still_refl)
  note post = sign_out_post_def wp_ret
  show ?thesis
  proof (cases "tenant_IsZero (so_TenantID i) \<or> so_SessionID i = uuid_Nil")
    case True
    with still_after [OF same] show ?thesis by (auto simp: sign_out_Execute_def post)
  next
    case False
    have tx: "wp (in_tx uow sign_out_ErrInternal (sign_out_tx ul sign_out_uc i now)) (sign_out_post ul i w s) w1"
      if "after w s w1" for now w1
    proof (rule in_tx_rule [OF that], goal_cases)
      case (1 w' tx)
      show ?case
        by (rule wp_mono [OF sign_out_tx_law [OF 1]]) (auto simp: post split: outcome.splits sum.splits)
    qed (auto simp: post)
    have sel: "so_clock sign_out_uc = clk" "so_uow sign_out_uc = uow" by (simp_all add: sign_out_New_def)
    show ?thesis
      unfolding sign_out_Execute_def if_not_P [OF False] sel
    proof (rule clock_step [OF same], goal_cases)
      case (1 now w1)
      show ?case
        unfolding wp_tryg
      proof (rule wp_mono [OF tx [OF still_after [OF 1]]], goal_cases)
        case (1 r z)
        then show ?case
          by (auto simp: post wp_seqg split: outcome.splits sum.splits intro!: wp_mono [OF uncache_db])
      qed
    qed
  qed
qed

text \<open>On a healthy server a sign-out of a session that exists succeeds, provided the random source supplies a new
  identifier for the event and the time has a form that JSON can hold.\<close>

lemma sign_out_tx_live:
  assumes a: "after w s w'" and v: "view w' tx s" and up: "healthy w"
    and x: "x \<in> set (st_sessions s)" "is_session (so_TenantID i) (so_SessionID i) x"
    and ids: "\<And>n. \<exists>u. rt_uuids w n = Some u \<and> u \<notin> event_id ` set (st_events s)"
    and now: "time_MarshalJSON now \<noteq> None"
  shows "wp (sign_out_tx ul sign_out_uc i now tx) (\<lambda>r z. r = Ret (Inr ())) w'"
proof -
  have revoke: "\<exists>v'. revoke_session (so_TenantID i) (so_SessionID i) t s = Some v'" for t
    using x by (auto simp: revoke_session_def)
  obtain p where p: "session_revoked_payload ul (so_SessionID i) (so_UserID i) (so_TenantID i) now = Some p"
    using now by (auto simp: session_revoked_payload_def json_with_time_def)
  show ?thesis
    unfolding sign_out_tx_def sign_out_New_def sign_out_UseCase.select_convs p option.case
  proof (rule write_step [OF revoke_law a v], goal_cases)
    case (1 w1 v1)
    then have ev: "st_events v1 = st_events s" by (auto simp: revoke_session_def split: if_splits)
    show ?case by (rule event_commit_live [OF 1(2,3) up ev ids])
  next
    case (2 e w1)
    then show ?case using up revoke by blast
  qed
qed

lemma sign_out_live:
  assumes db: "db w s" and up: "healthy w"
    and x: "x \<in> set (st_sessions s)" "is_session (so_TenantID i) (so_SessionID i) x"
    and ids: "\<And>n. \<exists>u. rt_uuids w n = Some u \<and> u \<notin> event_id ` set (st_events s)"
    and now: "wp (clock_Now clk) (\<lambda>r w'. \<forall>t. r = Ret t \<longrightarrow> time_MarshalJSON t \<noteq> None) w"
    and i: "\<not> tenant_IsZero (so_TenantID i)" "so_SessionID i \<noteq> uuid_Nil"
  shows "wp (sign_out_Execute ul sign_out_uc i) (\<lambda>r z. r = Ret (Inr ())) w"
proof -
  have same: "after w s w" using db by (simp add: after_def)
  have False': "\<not> (tenant_IsZero (so_TenantID i) \<or> so_SessionID i = uuid_Nil)" using i by simp
  have tx: "wp (in_tx uow sign_out_ErrInternal (sign_out_tx ul sign_out_uc i t)) (\<lambda>r z. r = Ret (Inr ())) w1"
    if t: "time_MarshalJSON t \<noteq> None" and a: "after w s w1" for t w1
  proof (rule in_tx_rule [OF a], goal_cases)
    case (1 w' tx)
    show ?case by (rule wp_mono [OF sign_out_tx_live [OF 1 up x ids t]]) auto
  qed (use up in simp)
  have sel: "so_clock sign_out_uc = clk" "so_uow sign_out_uc = uow" by (simp_all add: sign_out_New_def)
  have un: "wp (seqg (sign_out_uncache ul sign_out_uc i) (ret (Inr ()))) (\<lambda>r z. r = Ret (Inr ())) z" for z
    unfolding wp_seqg by (rule wp_mono [OF uncache_returns]) (auto simp: wp_ret)
  show ?thesis
    unfolding sign_out_Execute_def if_not_P [OF False'] sel wp_bindg
  proof (rule wp_mono [OF wp_conj [OF clock_law now]], goal_cases)
    case (1 r w1)
    then obtain t where t: "r = Ret t" "time_MarshalJSON t \<noteq> None" by auto
    have "after w s w1" using 1 after_frame [OF _ same] by blast
    from tx [OF t(2) this] show ?case
      unfolding t(1) outcome.case wp_tryg by (rule wp_mono) (auto simp: un)
  qed
qed

text \<open>The cache: only a successful sign-out touches it, and it removes the one entry.\<close>

definition sign_out_cache_post ::
  "sign_out_Input \<Rightarrow> 'a rt_scheme \<Rightarrow> (sign_out_error + unit) outcome \<Rightarrow> 'a rt_scheme \<Rightarrow> bool" where
  "sign_out_cache_post i w r z =
    (case r of
       Ret (Inr _) \<Rightarrow> shrinks (cached w) (cached z) \<and> (working w \<longrightarrow> working z)
         \<and> (working w \<and> so_TokenHashHex i \<noteq> '''' \<longrightarrow> cached z = (cached w)(so_TokenHashHex i := None))
     | _ \<Rightarrow> cached z = cached w)"

lemma uncache_cached:
  "wp (sign_out_uncache ul sign_out_uc i) (\<lambda>r z. r = Ret () \<and> sign_out_cache_post i w (Ret (Inr ())) z) w"
proof (cases "so_TokenHashHex i = ''''")
  case True
  then show ?thesis by (simp add: sign_out_uncache_def sign_out_New_def wp_simps sign_out_cache_post_def shrinks_def)
next
  case False
  show ?thesis
    unfolding sign_out_uncache_def sign_out_New_def sign_out_UseCase.select_convs option.case if_P [OF False] wp_tryg
  proof (rule wp_mono [OF cache.delete_law], goal_cases)
    case (1 r w')
    have l: "rt.more (w'\<lparr>rt_logs := x\<rparr>) = rt.more w'" for x by simp
    from 1 cache.cached_frame [OF l] cache.working_frame [OF l] show ?case
      by (auto simp: wp_simps sign_out_cache_post_def split: outcome.splits sum.splits)
  qed
qed

lemma leaves_clock: "leaves cached (clock_Now clk)" "leaves working (clock_Now clk)"
  using leaves_more [OF wp_mono [OF clock_law]] quiet_more by blast+

lemma sign_out_cached: "wp (sign_out_Execute ul sign_out_uc i) (sign_out_cache_post i w) w"
proof (cases "tenant_IsZero (so_TenantID i) \<or> so_SessionID i = uuid_Nil")
  case True
  then show ?thesis by (auto simp: sign_out_Execute_def sign_out_cache_post_def wp_ret)
next
  case False
  have sel: "so_clock sign_out_uc = clk" "so_uow sign_out_uc = uow" "so_sessions sign_out_uc = sessions"
    "so_outbox sign_out_uc = outbox" by (simp_all add: sign_out_New_def)
  have c: "leaves cached (in_tx uow sign_out_ErrInternal (sign_out_tx ul sign_out_uc i now))"
    "leaves working (in_tx uow sign_out_ErrInternal (sign_out_tx ul sign_out_uc i now))" for now
    unfolding sign_out_tx_def sel
    by (intro leaves_intro leaves_store leaves_store_working leaves_rt)+
  show ?thesis
    unfolding sign_out_Execute_def if_not_P [OF False] sel wp_bindg
  proof (rule wp_mono [OF wp_conj [OF leavesD [OF leaves_clock(1)] leavesD [OF leaves_clock(2)]]], goal_cases)
    case (1 r w1)
    note e = 1
    show ?case
    proof (cases r)
      case (Panic p)
      with 1 show ?thesis by (simp add: sign_out_cache_post_def)
    next
      case (Ret now)
      show ?thesis
        unfolding Ret outcome.case wp_tryg
      proof (rule wp_mono [OF wp_conj [OF leavesD [OF c(1)] leavesD [OF c(2)]]], goal_cases)
        case (1 r w2)
        have "wp (seqg (sign_out_uncache ul sign_out_uc i) (ret (Inr ()))) (sign_out_cache_post i w) w2"
          unfolding wp_seqg
          by (rule wp_mono [OF uncache_cached]) (use 1 e in \<open>auto simp: wp_ret sign_out_cache_post_def\<close>)
        with 1 e show ?case
          by (auto simp: wp_ret sign_out_cache_post_def split: outcome.splits sum.splits)
      qed
    qed
  qed
qed

text \<open>Get-me reads the row of the user in the tenant.\<close>

lemma get_me_law:
  assumes "db w s"
  shows "wp (get_me_Execute (get_me_New users) i) (\<lambda>r w'. db w' s \<and> rt.truncate w' = rt.truncate w \<and> (case r of
      Ret (Inr out) \<Rightarrow> \<not> tenant_IsZero (gm_TenantID i) \<and> (\<exists>u. find_user_by_id s (gm_TenantID i) (gm_UserID i) = Some u
        \<and> out = \<lparr>gm_OutUserID = user_id u, gm_Email = email_String (user_email u), gm_Status = user_status u,
                 gm_CreatedAt = user_createdAt u\<rparr>)
    | Ret (Inl e) \<Rightarrow> (e = get_me_ErrNotFound \<longrightarrow> find_user_by_id s (gm_TenantID i) (gm_UserID i) = None)
        \<and> (healthy w \<and> \<not> tenant_IsZero (gm_TenantID i) \<longrightarrow> e = get_me_ErrNotFound)
    | Panic _ \<Rightarrow> False)) w"
proof (cases "tenant_IsZero (gm_TenantID i)")
  case True
  with assms show ?thesis by (simp add: get_me_Execute_def wp_ret)
next
  case False
  show ?thesis
    unfolding get_me_Execute_def if_not_P [OF False] get_me_New_def get_me_UseCase.select_convs wp_tryg
    by (rule wp_mono [OF find_by_id [unfolded lookup_ok_def, rule_format, OF assms]])
       (use False in \<open>auto simp: wp_simps split: outcome.splits sum.splits\<close>)
qed

end


subsection \<open>The use cases in production\<close>

definition prod_sign_out :: "'p pgx \<Rightarrow> 'k SessionCache \<Rightarrow> uuid_lib \<Rightarrow> (('p, 'k) world) sign_out_UseCase" where
  "prod_sign_out drv cl ul =
    sign_out_New (pg_UnitOfWork drv) (pg_SessionRepository drv) (pg_OutboxRepository drv)
      (Some (valkey_SessionCache cl ul)) clock_Real"

definition prod_get_me :: "'p pgx \<Rightarrow> (('p, 'k) world) get_me_UseCase" where
  "prod_get_me drv = get_me_New (pg_UserRepository drv)"

context production
begin

lemma sign_out_prod:
  assumes "pg_db committed w s" and "sign_out_Execute ul (prod_sign_out drv cl ul) i w = (r, w')"
  shows "case r of
      Ret (Inr _) \<Rightarrow> \<exists>s'. sign_out_effect rnd ul i s s' \<and> pg_db committed w' s'
    | Ret (Inl _) \<Rightarrow> pg_db committed w' s \<or> \<not> up (w_pg w) \<and> (\<exists>s'. sign_out_effect rnd ul i s s' \<and> pg_db committed w' s')
    | Panic _ \<Rightarrow> pg_db committed w' s"
  using wpD [OF env.sign_out_law [OF assms(1)] assms(2) [unfolded prod_sign_out_def]]
  unfolding env.sign_out_post_def store.after_def by (auto split: outcome.splits sum.splits)

lemma sign_out_live_prod:
  fixes w :: "('p, 'k) world"
  assumes "pg_db committed w s" and "up (w_pg w)"
    and "x \<in> set (st_sessions s)" and "is_session (so_TenantID i) (so_SessionID i) x"
    and "\<not> tenant_IsZero (so_TenantID i)" and "so_SessionID i \<noteq> uuid_Nil"
    and "\<And>n. \<exists>u. rt_uuids w n = Some u \<and> u \<notin> event_id ` set (st_events s)"
    and "\<And>n. time_MarshalJSON (rt_clock w n) \<noteq> None"
  shows "\<exists>w'. sign_out_Execute ul (prod_sign_out drv cl ul) i w = (Ret (Inr ()), w')"
proof -
  have now: "wp (clock_Now clock_Real) (\<lambda>r w'. \<forall>t. r = Ret t \<longrightarrow> time_MarshalJSON t \<noteq> None) w"
    using assms(8) by (simp add: clock_Real_def wp_simps)
  have "wp (sign_out_Execute ul (prod_sign_out drv cl ul) i) (\<lambda>r z. r = Ret (Inr ())) w"
    unfolding prod_sign_out_def by (rule env.sign_out_live [OF assms(1-4) assms(7) now assms(5,6)])
  then show ?thesis by (cases "sign_out_Execute ul (prod_sign_out drv cl ul) i w") (auto simp: wp_def)
qed

lemma sign_out_cache_prod:
  assumes "sign_out_Execute ul (prod_sign_out drv cl ul) i w = (r, w')"
  shows "case r of
      Ret (Inr _) \<Rightarrow> shrinks (kv_cached content ul w) (kv_cached content ul w')
        \<and> (kvup (w_kv w) \<and> so_TokenHashHex i \<noteq> '''' \<longrightarrow>
             kv_cached content ul w' = (kv_cached content ul w)(so_TokenHashHex i := None))
    | _ \<Rightarrow> kv_cached content ul w' = kv_cached content ul w"
  using wpD [OF env.sign_out_cached assms [unfolded prod_sign_out_def]]
  unfolding env.sign_out_cache_post_def by (auto split: outcome.splits sum.splits)

lemma get_me_prod:
  fixes w :: "('p, 'k) world"
  assumes "pg_db committed w s" and "get_me_Execute (prod_get_me drv) i w = (r, w')"
  shows "pg_db committed w' s \<and> (case r of
      Ret (Inr out) \<Rightarrow> (\<exists>u. find_user_by_id s (gm_TenantID i) (gm_UserID i) = Some u
        \<and> out = \<lparr>gm_OutUserID = user_id u, gm_Email = email_String (user_email u), gm_Status = user_status u,
                 gm_CreatedAt = user_createdAt u\<rparr>)
    | Ret (Inl e) \<Rightarrow> (e = get_me_ErrNotFound \<longrightarrow> find_user_by_id s (gm_TenantID i) (gm_UserID i) = None)
        \<and> (up (w_pg w) \<and> \<not> tenant_IsZero (gm_TenantID i) \<longrightarrow> e = get_me_ErrNotFound)
    | Panic _ \<Rightarrow> False)"
  using wpD [OF env.get_me_law [OF assms(1)] assms(2) [unfolded prod_get_me_def]]
  by (auto split: outcome.splits sum.splits)

end

text \<open>C4: a sign-out revokes. When it succeeds, the tenant had the session, every session row with that
  identifier is revoked afterwards, a row that was revoked already keeps its time, other rows and all
  users are untouched, and one event was appended; when it fails the database is unchanged, up to a
  \<open>Commit\<close> whose answer was lost.\<close>

theorem sign_out_revokes:
  assumes "production drv committed txview up rnd cl content kvup ul kdf ps"
    and "pg_db committed w s" and "sign_out_Execute ul (prod_sign_out drv cl ul) i w = (r, w')"
  shows "case r of
      Ret (Inr _) \<Rightarrow> \<exists>s'. pg_db committed w' s' \<and> st_users s' = st_users s
        \<and> (\<exists>x \<in> set (st_sessions s). is_session (so_TenantID i) (so_SessionID i) x)
        \<and> (\<forall>x \<in> set (st_sessions s'). is_session (so_TenantID i) (so_SessionID i) x \<longrightarrow> session_revokedAt x \<noteq> None)
        \<and> (\<forall>h x. find_session s h = Some x \<longrightarrow> (\<exists>x'. find_session s' h = Some x'
             \<and> (session_revokedAt x \<noteq> None \<longrightarrow> session_revokedAt x' = session_revokedAt x)
             \<and> (\<not> is_session (so_TenantID i) (so_SessionID i) x \<longrightarrow> x' = x)))
        \<and> (\<exists>e. st_events s' = st_events s @ [e] \<and> event_eventType e = TopicSessionRevoked
             \<and> event_aggregateID e = so_SessionID i)
    | Ret (Inl _) \<Rightarrow> pg_db committed w' s \<or> \<not> up (w_pg w)
    | Panic _ \<Rightarrow> pg_db committed w' s"
proof (cases r)
  case (Panic p)
  with production.sign_out_prod [OF assms] show ?thesis by simp
next
  case (Ret y)
  show ?thesis
  proof (cases y)
    case (Inl e)
    with production.sign_out_prod [OF assms] Ret show ?thesis by auto
  next
    case (Inr u)
    with production.sign_out_prod [OF assms] Ret obtain s' where e: "sign_out_effect rnd ul i s s'" and d: "pg_db committed w' s'"
      by auto
    note r = sign_out_effect_revokes [OF e]
    have "find_session s h = Some x \<Longrightarrow> \<exists>x'. find_session s' h = Some x'
             \<and> (session_revokedAt x \<noteq> None \<longrightarrow> session_revokedAt x' = session_revokedAt x)
             \<and> (\<not> is_session (so_TenantID i) (so_SessionID i) x \<longrightarrow> x' = x)" for h x
      using r(3) by blast
    moreover from e have "\<exists>e. st_events s' = st_events s @ [e] \<and> event_eventType e = TopicSessionRevoked
             \<and> event_aggregateID e = so_SessionID i"
      by (auto simp: sign_out_effect_def revoke_session_def outbox_New_def split: if_splits)
    ultimately show ?thesis using d r(1,2,5) Ret Inr by auto
  qed
qed

text \<open>C16: a sign-out gets through. With the database up, a session of the tenant that exists is revoked: the call
  returns no error, whatever the cache does, provided the identifiers drawn are new and the clock shows
  a year of at most four digits.\<close>

theorem sign_out_succeeds:
  fixes w :: "('p, 'k) world" and cl :: "'k SessionCache"
  assumes "production drv committed txview up rnd cl content kvup ul kdf ps"
    and "pg_db committed w s" and "up (w_pg w)"
    and "x \<in> set (st_sessions s)" and "is_session (so_TenantID i) (so_SessionID i) x"
    and "\<not> tenant_IsZero (so_TenantID i)" and "so_SessionID i \<noteq> uuid_Nil"
    and "\<And>n. \<exists>u. rt_uuids w n = Some u \<and> u \<notin> event_id ` set (st_events s)"
    and "\<And>n. time_MarshalJSON (rt_clock w n) \<noteq> None"
  shows "\<exists>w'. sign_out_Execute ul (prod_sign_out drv cl ul) i w = (Ret (Inr ()), w')"
  using production.sign_out_live_prod [OF assms] .

text \<open>C18: sign-out and the cache. Only a successful sign-out touches the cache; it never adds or changes
  an entry, and when the cache answers it removes exactly the entry of the token.\<close>

theorem sign_out_uncaches:
  assumes "production drv committed txview up rnd cl content kvup ul kdf ps"
    and "sign_out_Execute ul (prod_sign_out drv cl ul) i w = (r, w')"
  shows "case r of
      Ret (Inr _) \<Rightarrow> shrinks (kv_cached content ul w) (kv_cached content ul w')
        \<and> (kvup (w_kv w) \<and> so_TokenHashHex i \<noteq> '''' \<longrightarrow>
             kv_cached content ul w' = (kv_cached content ul w)(so_TokenHashHex i := None))
    | _ \<Rightarrow> kv_cached content ul w' = kv_cached content ul w"
  using production.sign_out_cache_prod [OF assms] .

text \<open>C27: the profile. \<open>get_me\<close> returns the row of the user in the tenant of the request and nothing else;
  it reports \<open>ErrNotFound\<close> only when there is no such row, and with the database up for no other reason
  than that.\<close>

theorem get_me_own_row:
  fixes cl :: "'k SessionCache" and w :: "('p, 'k) world"
  assumes "production drv committed txview up rnd cl content kvup ul kdf ps"
    and "pg_db committed w s" and "get_me_Execute (prod_get_me drv) i w = (r, w')"
  shows "pg_db committed w' s \<and> (case r of
      Ret (Inr out) \<Rightarrow> (\<exists>u. find_user_by_id s (gm_TenantID i) (gm_UserID i) = Some u
        \<and> out = \<lparr>gm_OutUserID = user_id u, gm_Email = email_String (user_email u), gm_Status = user_status u,
                 gm_CreatedAt = user_createdAt u\<rparr>)
    | Ret (Inl e) \<Rightarrow> (e = get_me_ErrNotFound \<longrightarrow> find_user_by_id s (gm_TenantID i) (gm_UserID i) = None)
        \<and> (up (w_pg w) \<and> \<not> tenant_IsZero (gm_TenantID i) \<longrightarrow> e = get_me_ErrNotFound)
    | Panic _ \<Rightarrow> False)"
  using production.get_me_prod [OF assms] .


subsection \<open>Examples\<close>

definition sample_sign_out :: sign_out_Input where
  "sample_sign_out = \<lparr>so_TenantID = ID 1, so_SessionID = 12, so_UserID = 11,
     so_TokenHashHex = hex_EncodeToString (HashOf sample_token)\<rparr>"

theorem sign_out_revokes_witness:
  "case sign_out_Execute canonical_uuids (prod_sign_out (ref_pgx micros) ref_cache canonical_uuids) sample_sign_out
      (seeded_world (\<lambda>_. Served)) of
     (Ret (Inr _), w') \<Rightarrow> (\<exists>s'. pg_db srv_tables w' s' \<and> st_users s' = [sample_user] \<and> length (st_events s') = 1
        \<and> (\<forall>x \<in> set (st_sessions s'). session_id x = 12 \<and> session_tenantID x = ID 1 \<longrightarrow> session_revokedAt x \<noteq> None))
   | (_, w') \<Rightarrow> pg_db srv_tables w' sample_store"
proof -
  let ?w = "seeded_world (\<lambda>_. Served)"
  obtain r w' where e: "sign_out_Execute canonical_uuids (prod_sign_out (ref_pgx micros) ref_cache canonical_uuids)
    sample_sign_out ?w = (r, w')" by fastforce
  have up: "ref_up (w_pg ?w)" by (simp add: ref_up_def empty_server_def)
  show ?thesis
    using sign_out_revokes [OF ref_production.production_axioms seeded_world_db e] up
    unfolding e by (auto simp: sample_sign_out_def sample_store_def is_session_def split: outcome.splits sum.splits)
qed

theorem sign_out_succeeds_witness:
  "\<exists>w'. sign_out_Execute canonical_uuids (prod_sign_out (ref_pgx micros) ref_cache canonical_uuids) sample_sign_out
      (seeded_world (\<lambda>_. Served)\<lparr>rt_clock := \<lambda>_. 1780000000000000000\<rparr>) = (Ret (Inr ()), w')"
proof (rule sign_out_succeeds [OF ref_production.production_axioms, where s = sample_store and x = sample_session])
  let ?w = "seeded_world (\<lambda>_. Served)\<lparr>rt_clock := \<lambda>_. 1780000000000000000\<rparr>"
  show "pg_db srv_tables ?w sample_store"
    using seeded_world_db [of "\<lambda>_. Served"] by (simp add: pg_db_def)
  show "ref_up (w_pg ?w)" by (simp add: ref_up_def empty_server_def)
  show "sample_session \<in> set (st_sessions sample_store)" by (simp add: sample_store_def)
  show "is_session (so_TenantID sample_sign_out) (so_SessionID sample_sign_out) sample_session"
    by (simp add: is_session_def sample_sign_out_def sample_session_def)
  show "\<not> tenant_IsZero (so_TenantID sample_sign_out)" "so_SessionID sample_sign_out \<noteq> uuid_Nil"
    by (simp_all add: sample_sign_out_def tenant_IsZero_def uuid_Nil_def)
  fix n
  show "\<exists>u. rt_uuids ?w n = Some u \<and> u \<notin> event_id ` set (st_events sample_store)"
    by (simp add: seeded_world_def sample_world_def sample_rt_def rt.extend_def sample_store_def)
  have "time_MarshalJSON 1780000000000000000 \<noteq> None" by code_simp
  then show "time_MarshalJSON (rt_clock ?w n) \<noteq> None" by simp
qed

theorem sign_out_uncaches_witness:
  "case sign_out_Execute canonical_uuids (prod_sign_out (ref_pgx micros) ref_cache canonical_uuids) sample_sign_out
      (seeded_world (\<lambda>_. Served)) of
     (Ret (Inr _), w') \<Rightarrow> kv_cached kvs_content canonical_uuids w' (hex_EncodeToString (HashOf sample_token)) = None
   | (_, w') \<Rightarrow> kv_cached kvs_content canonical_uuids w' = kv_cached kvs_content canonical_uuids (seeded_world (\<lambda>_. Served))"
proof -
  let ?w = "seeded_world (\<lambda>_. Served)"
  obtain r w' where e: "sign_out_Execute canonical_uuids (prod_sign_out (ref_pgx micros) ref_cache canonical_uuids)
    sample_sign_out ?w = (r, w')" by fastforce
  have "kv_cached kvs_content canonical_uuids ?w h = None" for h
    by (simp add: kv_cached_def kvs_content_def empty_cache_def)
  then show ?thesis
    using sign_out_uncaches [OF ref_production.production_axioms e]
    unfolding e by (auto simp: sample_sign_out_def shrinks_def split: outcome.splits sum.splits)
qed

theorem get_me_own_row_witness:
  "\<exists>w'. get_me_Execute (prod_get_me (ref_pgx micros)) \<lparr>gm_TenantID = ID 1, gm_UserID = 11\<rparr> (seeded_world (\<lambda>_. Served))
     = (Ret (Inr \<lparr>gm_OutUserID = 11, gm_Email = ''user@example.com'', gm_Status = ''active'',
          gm_CreatedAt = 1770000000000000000\<rparr>), w')"
proof -
  let ?w = "seeded_world (\<lambda>_. Served)" and ?i = "\<lparr>gm_TenantID = ID 1, gm_UserID = 11\<rparr>"
  obtain r w' where e: "get_me_Execute (prod_get_me (ref_pgx micros)) ?i ?w = (r, w')" by fastforce
  have up: "ref_up (w_pg ?w)" by (simp add: ref_up_def empty_server_def)
  have t: "\<not> tenant_IsZero (ID 1)" by (simp add: tenant_IsZero_def uuid_Nil_def)
  have f: "find_user_by_id sample_store (ID 1) 11 = Some sample_user"
    by (simp add: find_user_by_id_def sample_store_def sample_user_def)
  show ?thesis
    using get_me_own_row [OF ref_production.production_axioms seeded_world_db e] up t f
    unfolding e by (auto simp: sample_user_def split: outcome.splits sum.splits)
qed

end
