(* ===== verification/Http.thy ===== *)
theory Http
  imports Sign_Up Sign_In Sign_Out Go_Net Complex_Main
begin

text \<open>
  What the files of \<open>internal/transport/http\<close> share: the request context, the response helpers
  (\<open>json.go\<close>), the error responses (\<open>errors/mapper.go\<close>) and the session cookie
  (\<open>cookies/session_cookie.go\<close>).

  The HTTP engine is \<open>fasthttp\<close>, which is not part of the repository. What it has parsed out of a
  request is a parameter: the fields of the record \<open>request\<close>, two of them functions (the header and the
  cookie with a name). What the program stores in a \<open>RequestCtx\<close> is the rest of the record \<open>rctx\<close>: the
  user values and the last value given to each setter of the response. A handler is a call on the pair
  of such a context and the world of the use cases, so that a panic keeps both as they were.
\<close>

subsection \<open>The context of a request\<close>

record request =
  req_Method :: string
  req_Path :: string
  req_Peek :: "string \<Rightarrow> string"
  req_Cookie :: "string \<Rightarrow> string"
  req_UserAgent :: string
  req_PostBody :: string
  req_RemoteAddr :: string

datatype user_value = UVText string | UVUuid uuid | UVTenant tenant_ID

datatype cookie_expire = ExpireAt time | CookieExpireDelete

datatype same_site = CookieSameSiteLaxMode

record cookie =
  ck_Key :: string
  ck_Value :: string
  ck_Path :: string
  ck_Expire :: cookie_expire
  ck_MaxAge :: int
  ck_HTTPOnly :: bool
  ck_Secure :: bool
  ck_SameSite :: same_site

record span =
  span_name :: string
  span_attrs :: "(string \<times> string) list"
  span_ended :: bool

record rctx =
  rc_req :: request
  rc_user :: "string \<Rightarrow> user_value option"
  rc_status :: int
  rc_type :: string
  rc_headers :: "string \<Rightarrow> string option"
  rc_cookies :: "cookie list"
  rc_body :: string
  rc_spans :: "span list"

text \<open>A context as the engine hands it over: status 200, nothing set.\<close>

definition fresh_ctx :: "request \<Rightarrow> rctx" where
  "fresh_ctx q = \<lparr>rc_req = q, rc_user = (\<lambda>_. None), rc_status = 200, rc_type = '''', rc_headers = (\<lambda>_. None),
     rc_cookies = [], rc_body = '''', rc_spans = []\<rparr>"

type_synonym 'w RequestHandler = "(rctx \<times> 'w, unit) go"

definition use :: "('w, 'a) go \<Rightarrow> (rctx \<times> 'w, 'a) go" where
  "use m cw = (case m (snd cw) of (r, w') \<Rightarrow> (r, (fst cw, w')))"

definition ctx_get :: "(rctx \<Rightarrow> 'a) \<Rightarrow> (rctx \<times> 'w, 'a) go" where
  "ctx_get f = reads (\<lambda>cw. f (fst cw))"

definition ctx_set :: "(rctx \<Rightarrow> rctx) \<Rightarrow> (rctx \<times> 'w, unit) go" where
  "ctx_set f = modifies (\<lambda>cw. (f (fst cw), snd cw))"

lemma wp_use [wp_simps]: "wp (use m) Q (c, w) = wp m (\<lambda>r w'. Q r (c, w')) w"
  by (simp add: wp_def use_def split: prod.split)

lemma wp_ctx_get [wp_simps]: "wp (ctx_get f) Q (c, w) = Q (Ret (f c)) (c, w)"
  by (simp add: ctx_get_def wp_simps)

lemma wp_ctx_set [wp_simps]: "wp (ctx_set f) Q (c, w) = Q (Ret ()) (f c, w)"
  by (simp add: ctx_set_def wp_simps)

definition SetUserValue :: "string \<Rightarrow> user_value \<Rightarrow> rctx \<Rightarrow> rctx" where
  "SetUserValue k v c = c\<lparr>rc_user := (rc_user c)(k \<mapsto> v)\<rparr>"

definition SetCookie :: "cookie \<Rightarrow> rctx \<Rightarrow> rctx" where
  "SetCookie k c = c\<lparr>rc_cookies := filter (\<lambda>k'. ck_Key k' \<noteq> ck_Key k) (rc_cookies c) @ [k]\<rparr>"

definition respond :: "string \<Rightarrow> int \<Rightarrow> string \<Rightarrow> rctx \<Rightarrow> rctx" where
  "respond ty status body c = c\<lparr>rc_type := ty, rc_status := status, rc_body := body\<rparr>"

subsection \<open>\<open>json.go\<close>\<close>

text \<open>The argument is the result of \<open>json.Marshal\<close>.\<close>

definition WriteJSON :: "int \<Rightarrow> string option \<Rightarrow> 'w RequestHandler" where
  "WriteJSON status v =
    (case v of
       None \<Rightarrow> ctx_set (respond ''application/json'' 500
         (json_object [(''error'', json_strings [(''code'', ''internal''), (''message'', ''Internal server error'')])]))
     | Some buf \<Rightarrow> ctx_set (respond ''application/json'' status buf))"

subsection \<open>\<open>errors/mapper.go\<close>\<close>

record Response =
  resp_Status :: int
  resp_Code :: string
  resp_Message :: string

definition InvalidBody :: Response where
  "InvalidBody = \<lparr>resp_Status = 400, resp_Code = ''invalid_body'', resp_Message = ''Invalid request body''\<rparr>"

definition SessionRequired :: Response where
  "SessionRequired = \<lparr>resp_Status = 401, resp_Code = ''session_required'', resp_Message = ''Authentication required''\<rparr>"

definition SessionInvalid :: Response where
  "SessionInvalid = \<lparr>resp_Status = 401, resp_Code = ''session_invalid'', resp_Message = ''Session is invalid''\<rparr>"

definition Internal :: Response where
  "Internal = \<lparr>resp_Status = 500, resp_Code = ''internal'', resp_Message = ''Internal server error''\<rparr>"

definition Forbidden :: Response where
  "Forbidden = \<lparr>resp_Status = 403, resp_Code = ''forbidden'', resp_Message = ''Request forbidden''\<rparr>"

definition FromSignUp :: "sign_up_error \<Rightarrow> Response" where
  "FromSignUp err = (case err of
     sign_up_ErrInvalidEmail \<Rightarrow> \<lparr>resp_Status = 400, resp_Code = ''invalid_email'', resp_Message = ''Email is invalid''\<rparr>
   | sign_up_ErrWeakPassword \<Rightarrow> \<lparr>resp_Status = 400, resp_Code = ''weak_password'', resp_Message = ''Password does not meet policy''\<rparr>
   | sign_up_ErrEmailTaken \<Rightarrow> \<lparr>resp_Status = 409, resp_Code = ''email_taken'', resp_Message = ''Email already in use''\<rparr>
   | sign_up_ErrInternal \<Rightarrow> Internal)"

definition FromSignIn :: "sign_in_error \<Rightarrow> Response" where
  "FromSignIn err =
    (if err = sign_in_ErrInvalidCredentials \<or> err = sign_in_ErrInvalidEmail
     then \<lparr>resp_Status = 401, resp_Code = ''invalid_credentials'', resp_Message = ''Invalid credentials''\<rparr>
     else Internal)"

definition FromSignOut :: "sign_out_error \<Rightarrow> Response" where
  "FromSignOut err = Internal"

definition FromGetMe :: "get_me_error \<Rightarrow> Response" where
  "FromGetMe err = (case err of
     get_me_ErrNotFound \<Rightarrow> \<lparr>resp_Status = 401, resp_Code = ''session_invalid'', resp_Message = ''Session is invalid''\<rparr>
   | get_me_ErrInternal \<Rightarrow> Internal)"

definition error_body :: "Response \<Rightarrow> string" where
  "error_body r = json_object [(''error'', json_strings [(''code'', resp_Code r), (''message'', resp_Message r)])]"

definition WriteFast :: "Response \<Rightarrow> 'w RequestHandler" where
  "WriteFast r = ctx_set (respond ''application/json'' (resp_Status r) (error_body r))"

lemma wp_WriteFast [wp_simps]:
  "wp (WriteFast r) Q (c, w) = Q (Ret ()) (respond ''application/json'' (resp_Status r) (error_body r) c, w)"
  by (simp add: WriteFast_def wp_simps)

subsection \<open>\<open>cookies/session_cookie.go\<close>\<close>

text \<open>\<open>time.Duration.Seconds\<close> is a \<open>float64\<close>: the rational number that the rounding to 53 bits of the exact
  result gives, ties to even. Whole seconds of a duration are exact.\<close>

definition round_half_even :: "rat \<Rightarrow> int" where
  "round_half_even m =
    (let f = \<lfloor>m\<rfloor>; d = m - of_int f in
     if d < 1 / 2 then f else if d > 1 / 2 then f + 1 else if even f then f else f + 1)"

function ilog2 :: "int \<Rightarrow> int" where
  "ilog2 n = (if n \<le> 1 then 0 else 1 + ilog2 (n div 2))"
  by pat_completeness auto
termination
  by (relation "measure nat") auto

declare ilog2.simps [simp del]

definition fl_exp :: "rat \<Rightarrow> int" where
  "fl_exp x =
    (let (p, q) = quotient_of x; k = ilog2 \<bar>p\<bar> - ilog2 q in
     if 2 powi k \<le> \<bar>x\<bar> then k else k - 1)"

definition fl :: "rat \<Rightarrow> rat" where
  "fl x =
    (if x = 0 then 0
     else let e = fl_exp x - 52 in sgn x * of_int (round_half_even (\<bar>x\<bar> / 2 powi e)) * 2 powi e)"

definition go_quot :: "int \<Rightarrow> int \<Rightarrow> int" where
  "go_quot a b = sgn a * sgn b * (\<bar>a\<bar> div \<bar>b\<bar>)"

definition dur_Seconds :: "duration \<Rightarrow> rat" where
  "dur_Seconds d =
    (let sec = go_quot d 1000000000; nsec = d - sec * 1000000000 in
     fl (of_int sec + fl (of_int nsec / 1000000000)))"

definition float_to_int :: "rat \<Rightarrow> int" where
  "float_to_int x = (if 0 \<le> x then \<lfloor>x\<rfloor> else \<lceil>x\<rceil>)"

record cookie_Config =
  cookie_Secure :: bool

definition NameSecure :: string where "NameSecure = ''__Host-session''"
definition NameInsecure :: string where "NameInsecure = ''session''"

definition cookie_Name :: "cookie_Config \<Rightarrow> string" where
  "cookie_Name cfg = (if cookie_Secure cfg then NameSecure else NameInsecure)"

definition SetFast :: "cookie_Config \<Rightarrow> string \<Rightarrow> time \<Rightarrow> ('a rt_scheme) RequestHandler" where
  "SetFast cfg token expiresAt =
    bindg (use (time_Until expiresAt)) (\<lambda>d.
      ctx_set (SetCookie \<lparr>ck_Key = cookie_Name cfg, ck_Value = token, ck_Path = ''/'', ck_Expire = ExpireAt expiresAt,
        ck_MaxAge = float_to_int (dur_Seconds d), ck_HTTPOnly = True, ck_Secure = cookie_Secure cfg,
        ck_SameSite = CookieSameSiteLaxMode\<rparr>))"

definition ClearFast :: "cookie_Config \<Rightarrow> 'w RequestHandler" where
  "ClearFast cfg =
    ctx_set (SetCookie \<lparr>ck_Key = cookie_Name cfg, ck_Value = '''', ck_Path = ''/'', ck_Expire = CookieExpireDelete,
      ck_MaxAge = - 1, ck_HTTPOnly = True, ck_Secure = cookie_Secure cfg, ck_SameSite = CookieSameSiteLaxMode\<rparr>)"

text \<open>The pair of the value and \<open>ok\<close>; the secure name comes first, and an empty value counts as absent.\<close>

definition ReadSessionCookieFast :: "rctx \<Rightarrow> string \<times> bool" where
  "ReadSessionCookieFast c =
    (let v = req_Cookie (rc_req c) NameSecure in
     if length v > 0 then (v, True)
     else let v = req_Cookie (rc_req c) NameInsecure in
       if length v > 0 then (v, True) else ('''', False))"

subsection \<open>The lifetime of the cookie\<close>

lemma ilog2_bounds: "1 \<le> n \<Longrightarrow> 0 \<le> ilog2 n \<and> 2 ^ nat (ilog2 n) \<le> n \<and> n < 2 ^ Suc (nat (ilog2 n))"
proof (induction n rule: ilog2.induct)
  case (1 n)
  show ?case
  proof (cases "n \<le> 1")
    case True
    with 1(2) have "n = 1" by simp
    then show ?thesis by (simp add: ilog2.simps [of 1])
  next
    case False
    then have ih: "0 \<le> ilog2 (n div 2)" "2 ^ nat (ilog2 (n div 2)) \<le> n div 2" "n div 2 < 2 ^ Suc (nat (ilog2 (n div 2)))"
      using 1(1) by auto
    moreover have "nat (ilog2 n) = Suc (nat (ilog2 (n div 2)))" "0 \<le> ilog2 n"
      using False ih(1) by (simp_all add: ilog2.simps [of n])
    moreover have "2 * c \<le> n \<and> n < 2 * (2 * c)" if "c \<le> n div 2" "n div 2 < 2 * c" for c
      using that by presburger
    ultimately show ?thesis by simp
  qed
qed

lemma ilog2_powi:
  assumes "1 \<le> n"
  shows "(2 :: rat) powi ilog2 n \<le> of_int n" "of_int n < (2 :: rat) powi (ilog2 n + 1)"
proof -
  note b = ilog2_bounds [OF assms]
  then have e: "ilog2 n = int (nat (ilog2 n))" by simp
  have "(2 :: rat) powi ilog2 n = of_int (2 ^ nat (ilog2 n))"
    by (subst e) (simp only: power_int_of_nat of_int_power of_int_numeral)
  moreover have "(2 :: rat) powi (ilog2 n + 1) = of_int (2 ^ Suc (nat (ilog2 n)))"
    using calculation by (simp add: power_int_add)
  ultimately show "(2 :: rat) powi ilog2 n \<le> of_int n" "of_int n < (2 :: rat) powi (ilog2 n + 1)"
    using b by (simp_all only: of_int_le_iff of_int_less_iff)
qed

text \<open>The exponent of a float: \<open>2 ^ fl_exp x\<close> does not exceed the number.\<close>

lemma fl_exp_le:
  assumes "x \<noteq> 0"
  shows "2 powi fl_exp x \<le> \<bar>x\<bar>"
proof -
  obtain p q where pq: "quotient_of x = (p, q)" by fastforce
  then have q: "0 < q" and x: "x = of_int p / of_int q"
    using quotient_of_denom_pos quotient_of_div by blast+
  with assms have p: "1 \<le> \<bar>p\<bar>" by (cases "p = 0") auto
  let ?k = "ilog2 \<bar>p\<bar> - ilog2 q"
  have "2 powi (?k - 1) * of_int q \<le> 2 powi (?k - 1) * (2 :: rat) powi (ilog2 q + 1)"
    using ilog2_powi(2) [of q] q by (intro mult_left_mono) (auto intro: less_imp_le)
  also have "\<dots> = 2 powi ilog2 \<bar>p\<bar>"
    by (simp add: power_int_add [symmetric])
  also have "\<dots> \<le> of_int \<bar>p\<bar>" by (rule ilog2_powi(1) [OF p])
  finally have "2 powi (?k - 1) \<le> \<bar>x\<bar>"
    using q by (simp add: x abs_divide le_divide_eq)
  then show ?thesis by (simp add: fl_exp_def pq Let_def)
qed

lemma round_half_even_between: "of_int a \<le> m \<Longrightarrow> m \<le> of_int b \<Longrightarrow> a \<le> round_half_even m \<and> round_half_even m \<le> b"
proof -
  assume a: "of_int a \<le> m" and b: "m \<le> of_int b"
  have f: "(of_int \<lfloor>m\<rfloor> :: rat) \<le> m" by (rule of_int_floor_le)
  have "a \<le> \<lfloor>m\<rfloor>" using a by (simp add: le_floor_iff)
  moreover have "\<lfloor>m\<rfloor> \<le> b"
    using order_trans [OF f b] by (simp only: of_int_le_iff)
  moreover have "\<lfloor>m\<rfloor> < b" if "m - of_int \<lfloor>m\<rfloor> \<ge> 1 / 2"
  proof -
    have "(of_int \<lfloor>m\<rfloor> :: rat) < of_int b" using that b by linarith
    then show ?thesis by (simp only: of_int_less_iff)
  qed
  ultimately show ?thesis by (auto simp: round_half_even_def Let_def)
qed

text \<open>Rounding to 53 bits does not cross an integer below \<open>2 ^ 53\<close>.\<close>

lemma fl_between:
  assumes "of_int n \<le> x" "x \<le> of_int n + 1" "0 \<le> n" "n < 2 ^ 53 - 1"
  shows "of_int n \<le> fl x \<and> fl x \<le> of_int n + 1"
proof (cases "x = 0")
  case False
  have "0 \<le> x" using assms(1,3) by (meson of_int_0_le_iff order_trans)
  with False have pos: "0 < x" by simp
  have lt: "x < 2 ^ 53"
  proof -
    have "x \<le> of_int (n + 1)" using assms(2) by simp
    also have "\<dots> < of_int (2 ^ 53)" using assms(4) by (simp only: of_int_less_iff)
    finally show ?thesis by simp
  qed
  let ?e = "fl_exp x - 52"
  have "(2 :: rat) powi fl_exp x < 2 powi 53"
    using fl_exp_le [OF False] pos lt by simp
  then have "fl_exp x < 53"
    using power_int_increasing [of 53 "fl_exp x" "2 :: rat"] by (cases "fl_exp x < 53") auto
  then have e: "- ?e = int (nat (- ?e))" by simp
  then have s: "(1 :: rat) / 2 powi ?e = of_int (2 ^ nat (- ?e))"
    by (metis of_int_numeral of_int_power power_int_minus_divide power_int_of_nat)
  define c :: int where "c = 2 ^ nat (- ?e)"
  have c: "0 < c" by (simp add: c_def)
  have "of_int (n * c) \<le> x * of_int c" "x * of_int c \<le> of_int ((n + 1) * c)"
    using assms(1,2) c by (simp_all add: mult_right_mono)
  from round_half_even_between [OF this]
  have "of_int (n * c) \<le> (of_int (round_half_even (x * of_int c)) :: rat)"
    "(of_int (round_half_even (x * of_int c)) :: rat) \<le> of_int ((n + 1) * c)"
    by (simp_all only: of_int_le_iff)
  moreover have "fl x = of_int (round_half_even (x * of_int c)) / of_int c"
  proof -
    have "x / 2 powi ?e = x * of_int c" "y * 2 powi ?e = y / of_int c" for y :: rat
      using s by (simp_all add: c_def divide_simps mult.commute)
    then show ?thesis using False pos by (simp add: fl_def Let_def)
  qed
  ultimately show ?thesis using c by (simp add: le_divide_eq divide_le_eq)
qed (use assms in \<open>simp add: fl_def\<close>)

lemma dur_Seconds_between:
  assumes "0 \<le> d" "d < 2 ^ 63"
  shows "of_int (d div 1000000000) \<le> dur_Seconds d \<and> dur_Seconds d \<le> of_int (d div 1000000000) + 1"
proof -
  let ?s = "d div 1000000000"
  have sec: "go_quot d 1000000000 = ?s"
    using assms(1) by (cases "d = 0") (auto simp: go_quot_def)
  have ns: "d - ?s * 1000000000 = d mod 1000000000" by (simp add: minus_div_mult_eq_mod)
  have "0 \<le> (of_int (d mod 1000000000) / 1000000000 :: rat)" "(of_int (d mod 1000000000) / 1000000000 :: rat) \<le> 1"
    by simp_all
  then have "0 \<le> fl (of_int (d mod 1000000000) / 1000000000)" "fl (of_int (d mod 1000000000) / 1000000000) \<le> 1"
    using fl_between [of 0 "of_int (d mod 1000000000) / 1000000000"] by simp_all
  moreover have "0 \<le> ?s" "?s < 2 ^ 53 - 1" using assms by (auto simp: pos_imp_zdiv_nonneg_iff)
  ultimately show ?thesis
    unfolding dur_Seconds_def Let_def sec ns by (intro fl_between) auto
qed
text \<open>C39: The lifetime of the cookie is that of the session. When the session has not expired, \<open>Max-Age\<close> is the whole number of
  seconds that remain (at most \<open>2 ^ 63 - 1\<close> nanoseconds, what a \<open>Duration\<close> can hold), or one more where the
  conversion to a floating-point number rounds up to the next second; it is never negative, which would delete
  the cookie. The cookie carries the token and the expiry and is always HttpOnly, SameSite=Lax and valid for the whole site.\<close>

theorem cookie_lifetime:
  fixes w :: "'a rt_scheme"
  assumes "rt_clock w (rt_clock_i w) \<le> expiresAt"
  shows "\<exists>m w'. SetFast cfg token expiresAt (c, w) = (Ret (), (SetCookie \<lparr>ck_Key = cookie_Name cfg, ck_Value = token, ck_Path = ''/'',
        ck_Expire = ExpireAt expiresAt, ck_MaxAge = m, ck_HTTPOnly = True, ck_Secure = cookie_Secure cfg,
        ck_SameSite = CookieSameSiteLaxMode\<rparr> c, w'))
    \<and> 0 \<le> m \<and> m - 1 \<le> min (2 ^ 63 - 1) (expiresAt - rt_clock w (rt_clock_i w)) div 1000000000
    \<and> min (2 ^ 63 - 1) (expiresAt - rt_clock w (rt_clock_i w)) div 1000000000 \<le> m"
proof -
  let ?d = "time_Sub expiresAt (rt_clock w (rt_clock_i w))"
  have d: "?d = min (2 ^ 63 - 1) (expiresAt - rt_clock w (rt_clock_i w))" "0 \<le> ?d" "?d < 2 ^ 63"
    using assms by (auto simp: time_Sub_def)
  have run: "SetFast cfg token expiresAt (c, w) = (Ret (), (SetCookie \<lparr>ck_Key = cookie_Name cfg, ck_Value = token, ck_Path = ''/'',
        ck_Expire = ExpireAt expiresAt, ck_MaxAge = float_to_int (dur_Seconds ?d), ck_HTTPOnly = True, ck_Secure = cookie_Secure cfg,
        ck_SameSite = CookieSameSiteLaxMode\<rparr> c, w\<lparr>rt_clock_i := Suc (rt_clock_i w)\<rparr>))"
    by (simp add: SetFast_def bindg_def use_def time_Until_def time_Now_def ctx_set_def ret_def modifies_def)
  have s: "0 \<le> ?d div 1000000000" using d(2) by simp
  note b = dur_Seconds_between [OF d(2,3)]
  have "0 \<le> dur_Seconds ?d" using b s by (meson of_int_0_le_iff order_trans)
  then have f: "float_to_int (dur_Seconds ?d) = \<lfloor>dur_Seconds ?d\<rfloor>" by (simp add: float_to_int_def)
  have lo: "?d div 1000000000 \<le> \<lfloor>dur_Seconds ?d\<rfloor>" using b by (simp add: le_floor_iff)
  have hi: "\<lfloor>dur_Seconds ?d\<rfloor> \<le> ?d div 1000000000 + 1"
    using b by (metis floor_mono floor_of_int of_int_1 of_int_add)
  show ?thesis
    unfolding d(1) [symmetric]
    by (rule exI, rule exI, rule conjI, rule run) (use f lo hi s in linarith)
qed

theorem cookie_lifetime_witness:
  "\<forall>c0. \<exists>m w'. SetFast \<lparr>cookie_Secure = True\<rparr> ''t'' (1780000000000000000 + 3600000000000) (c0, sample_rt)
      = (Ret (), (SetCookie \<lparr>ck_Key = NameSecure, ck_Value = ''t'', ck_Path = ''/'',
        ck_Expire = ExpireAt (1780000000000000000 + 3600000000000), ck_MaxAge = m, ck_HTTPOnly = True, ck_Secure = True,
        ck_SameSite = CookieSameSiteLaxMode\<rparr> c0, w')) \<and> 3600 \<le> m \<and> m \<le> 3601"
proof
  fix c0
  have "rt_clock sample_rt (rt_clock_i sample_rt) = 1780000000000000000" by (simp add: sample_rt_def)
  with cookie_lifetime [of sample_rt "1780000000000000000 + 3600000000000" "\<lparr>cookie_Secure = True\<rparr>" "''t''" c0]
  show "\<exists>m w'. SetFast \<lparr>cookie_Secure = True\<rparr> ''t'' (1780000000000000000 + 3600000000000) (c0, sample_rt)
      = (Ret (), (SetCookie \<lparr>ck_Key = NameSecure, ck_Value = ''t'', ck_Path = ''/'',
        ck_Expire = ExpireAt (1780000000000000000 + 3600000000000), ck_MaxAge = m, ck_HTTPOnly = True, ck_Secure = True,
        ck_SameSite = CookieSameSiteLaxMode\<rparr> c0, w')) \<and> 3600 \<le> m \<and> m \<le> 3601"
    by (fastforce simp: cookie_Name_def)
qed

end
