(* ===== verification/Middleware.thy ===== *)
theory Middleware
  imports Http
begin

text \<open>
  \<open>internal/transport/http/middleware\<close>: the wrappers around the handlers, in the order of the files.
  \<open>Chain\<close> composes them, \<open>Recover\<close> turns a panic into a 500, \<open>AccessLog\<close> writes one line after the
  handler, \<open>OTelTrace\<close> keeps a span open around it, \<open>RequestID\<close> and \<open>Tenancy\<close> set user values,
  \<open>OriginCheck\<close> guards the mutating routes and \<open>Session\<close> authenticates. Lemmas: what each one does on every
  path and, for \<open>Session\<close>, over any cache and repository that keep their contracts.
\<close>

subsection \<open>\<open>chain.go\<close>, \<open>clock.go\<close>, \<open>context.go\<close>\<close>

type_synonym 'w Middleware = "'w RequestHandler \<Rightarrow> 'w RequestHandler"

text \<open>The loop from the last element to the first.\<close>

definition Chain :: "'w Middleware list \<Rightarrow> 'w Middleware" where
  "Chain ms h = foldr (\<lambda>m h. m h) ms h"

definition nowFn :: "('a rt_scheme, time) go" where
  "nowFn = time_Now"

definition UVRequestID :: string where "UVRequestID = ''1klas.request_id''"
definition UVTenantID :: string where "UVTenantID = ''1klas.tenant_id''"
definition UVUserID :: string where "UVUserID = ''1klas.user_id''"
definition UVSessionID :: string where "UVSessionID = ''1klas.session_id''"
definition UVTokenHashHex :: string where "UVTokenHashHex = ''1klas.token_hash_hex''"

lemmas UV_defs = UVRequestID_def UVTenantID_def UVUserID_def UVSessionID_def UVTokenHashHex_def

text \<open>The context keys with their typed values, and the pairs of setters and getters.\<close>

datatype contextKey = requestIDKey | tenantIDKey | userIDKey | sessionIDKey | tokenHashHexKey

type_synonym go_context = "contextKey \<Rightarrow> user_value option"

definition WithRequestID :: "go_context \<Rightarrow> string \<Rightarrow> go_context" where
  "WithRequestID ctx i = ctx(requestIDKey \<mapsto> UVText i)"

definition RequestIDFrom :: "go_context \<Rightarrow> string" where
  "RequestIDFrom ctx = (case ctx requestIDKey of Some (UVText s) \<Rightarrow> s | _ \<Rightarrow> '''')"

definition WithTenantID :: "go_context \<Rightarrow> tenant_ID \<Rightarrow> go_context" where
  "WithTenantID ctx t = ctx(tenantIDKey \<mapsto> UVTenant t)"

definition TenantIDFrom :: "uuid_lib \<Rightarrow> go_context \<Rightarrow> tenant_ID" where
  "TenantIDFrom ul ctx = (case ctx tenantIDKey of Some (UVTenant t) \<Rightarrow> t | _ \<Rightarrow> tenant_DefaultID ul)"

definition WithUserID :: "go_context \<Rightarrow> uuid \<Rightarrow> go_context" where
  "WithUserID ctx u = ctx(userIDKey \<mapsto> UVUuid u)"

definition UserIDFrom :: "go_context \<Rightarrow> uuid" where
  "UserIDFrom ctx = (case ctx userIDKey of Some (UVUuid u) \<Rightarrow> u | _ \<Rightarrow> uuid_Nil)"

definition WithSessionID :: "go_context \<Rightarrow> uuid \<Rightarrow> go_context" where
  "WithSessionID ctx u = ctx(sessionIDKey \<mapsto> UVUuid u)"

definition SessionIDFrom :: "go_context \<Rightarrow> uuid" where
  "SessionIDFrom ctx = (case ctx sessionIDKey of Some (UVUuid u) \<Rightarrow> u | _ \<Rightarrow> uuid_Nil)"

definition WithTokenHashHex :: "go_context \<Rightarrow> string \<Rightarrow> go_context" where
  "WithTokenHashHex ctx h = ctx(tokenHashHexKey \<mapsto> UVText h)"

definition TokenHashHexFrom :: "go_context \<Rightarrow> string" where
  "TokenHashHexFrom ctx = (case ctx tokenHashHexKey of Some (UVText s) \<Rightarrow> s | _ \<Rightarrow> '''')"

subsection \<open>\<open>recover.go\<close>\<close>

text \<open>\<open>stack\<close> is the text of \<open>debug.Stack()\<close>.\<close>

definition Recover :: "string \<Rightarrow> ('a rt_scheme) Middleware" where
  "Recover stack next =
    recoverg (\<lambda>rec.
      bindg (ctx_get (\<lambda>c. (req_Path (rc_req c), req_Method (rc_req c)))) (\<lambda>(path, method).
      seqg (use (slog Error ''panic recovered''
              [(''panic'', rec), (''path'', path), (''method'', method), (''stack'', stack)]))
        (WriteFast Internal))) next"

subsection \<open>\<open>access\_log.go\<close>\<close>

definition int_string :: "int \<Rightarrow> string" where
  "int_string n = (if n < 0 then CHR ''-'' # itoa (nat (- n)) else itoa (nat n))"

definition clientIP :: "rctx \<Rightarrow> string" where
  "clientIP c =
    (let xff = req_Peek (rc_req c) ''X-Forwarded-For'' in
     if xff \<noteq> '''' then
       (case strings_IndexByte xff (CHR '','') of
          Some i \<Rightarrow> if i > 0 then strings_TrimSpace (take i xff) else strings_TrimSpace xff
        | None \<Rightarrow> strings_TrimSpace xff)
     else
       let addr = req_RemoteAddr (rc_req c) in
       case net_SplitHostPort addr of None \<Rightarrow> addr | Some (host, _) \<Rightarrow> host)"

text \<open>The user values that have a \<open>String\<close> method are the tenant and the UUIDs.\<close>

definition value_String :: "uuid_lib \<Rightarrow> user_value option \<Rightarrow> string" where
  "value_String ul v =
    (case v of Some (UVTenant t) \<Rightarrow> tenant_String ul t | Some (UVUuid u) \<Rightarrow> uuid_String ul u | _ \<Rightarrow> '''')"

definition ctxTenantString :: "uuid_lib \<Rightarrow> rctx \<Rightarrow> string" where
  "ctxTenantString ul c = value_String ul (rc_user c UVTenantID)"

definition ctxUserIDString :: "uuid_lib \<Rightarrow> rctx \<Rightarrow> string" where
  "ctxUserIDString ul c = value_String ul (rc_user c UVUserID)"

definition status_level :: "int \<Rightarrow> level" where
  "status_level status = (if status \<ge> 500 then Error else if status \<ge> 400 then Warn else Info)"

definition text_value :: "user_value option \<Rightarrow> string" where
  "text_value v = (case v of Some (UVText s) \<Rightarrow> s | _ \<Rightarrow> '''')"

definition access_attrs :: "uuid_lib \<Rightarrow> rctx \<Rightarrow> rctx \<Rightarrow> duration \<Rightarrow> (string \<times> string) list" where
  "access_attrs ul c0 c elapsed =
    [(''request_id'', text_value (rc_user c UVRequestID)),
     (''tenant_id'', ctxTenantString ul c),
     (''user_id'', let uid = ctxUserIDString ul c in
        if uid \<noteq> '''' \<and> uid \<noteq> ''00000000-0000-0000-0000-000000000000'' then uid else ''''),
     (''method'', req_Method (rc_req c0)),
     (''path'', req_Path (rc_req c0)),
     (''status'', int_string (rc_status c)),
     (''duration_ms'', int_string (go_quot elapsed 1000000)),
     (''client_ip'', clientIP c0),
     (''user_agent'', req_UserAgent (rc_req c0))]"

definition AccessLog :: "uuid_lib \<Rightarrow> ('a rt_scheme) Middleware" where
  "AccessLog ul next =
    bindg (use time_Now) (\<lambda>start.
    bindg (ctx_get id) (\<lambda>c0.
    seqg next
    (bindg (ctx_get id) (\<lambda>c.
     bindg (use time_Now) (\<lambda>now.
       use (slog (status_level (rc_status c)) ''request'' (access_attrs ul c0 c (time_Sub now start))))))))"

subsection \<open>\<open>otel.go\<close>\<close>

text \<open>The tracing library is outside the repository; the context records the calls that are made on a span.\<close>

definition update_span :: "nat \<Rightarrow> (span \<Rightarrow> span) \<Rightarrow> rctx \<Rightarrow> rctx" where
  "update_span n f c = c\<lparr>rc_spans := (rc_spans c)[n := f (rc_spans c ! n)]\<rparr>"

definition OTelTrace :: "'w Middleware" where
  "OTelTrace next =
    bindg (ctx_get id) (\<lambda>c.
      let method = req_Method (rc_req c); path = req_Path (rc_req c); n = length (rc_spans c) in
      seqg (ctx_set (\<lambda>c. c\<lparr>rc_spans := rc_spans c @
              [\<lparr>span_name = method @ '' '' @ path, span_attrs = [(''http.method'', method), (''http.target'', path)],
                span_ended = False\<rparr>]\<rparr>))
      (deferg (\<lambda>_. ctx_set (update_span n (\<lambda>s. s\<lparr>span_ended := True\<rparr>)))
        (seqg next
          (bindg (ctx_get rc_status) (\<lambda>status.
            ctx_set (update_span n (\<lambda>s. s\<lparr>span_attrs := span_attrs s @ [(''http.status_code'', int_string status)]\<rparr>)))))))"

subsection \<open>\<open>request\_id.go\<close> and \<open>tenancy.go\<close>\<close>

definition headerRequestID :: string where
  "headerRequestID = ''X-Request-Id''"

definition RequestID :: "uuid_lib \<Rightarrow> ('a rt_scheme) Middleware" where
  "RequestID ul next =
    bindg (ctx_get (\<lambda>c. req_Peek (rc_req c) headerRequestID)) (\<lambda>h.
    bindg (if h = '''' then bindg (use uuid_New) (\<lambda>u. ret (uuid_String ul u)) else ret h) (\<lambda>i.
    seqg (ctx_set (SetUserValue UVRequestID (UVText i)))
    (seqg (ctx_set (\<lambda>c. c\<lparr>rc_headers := (rc_headers c)(headerRequestID \<mapsto> i)\<rparr>))
      next)))"

definition Tenancy :: "uuid_lib \<Rightarrow> 'w Middleware" where
  "Tenancy ul next = seqg (ctx_set (SetUserValue UVTenantID (UVTenant (tenant_DefaultID ul)))) next"

subsection \<open>\<open>origin.go\<close>\<close>

definition originFromReferer :: "string \<Rightarrow> string option" where
  "originFromReferer referer =
    (case url_Parse referer of
       None \<Rightarrow> None
     | Some u \<Rightarrow> if url_Scheme u = '''' \<or> url_Host u = '''' then None else Some (url_Scheme u @ ''://'' @ url_Host u))"

definition OriginCheck :: "string list \<Rightarrow> ('a rt_scheme) Middleware" where
  "OriginCheck allowed next =
    (let allow = filter (\<lambda>o'. o' \<noteq> '''') allowed in
     bindg (ctx_get rc_req) (\<lambda>q.
       let path = req_Path q;
           reject = (\<lambda>msg attrs. seqg (use (slog Warn msg attrs)) (WriteFast Forbidden)) in
       if allow = [] then reject ''origin check rejected: empty allow-list'' [(''path'', path)]
       else
         let origin = req_Peek q ''Origin'' in
         if origin \<noteq> '''' then
           (if origin \<notin> set allow then reject ''origin check rejected'' [(''origin'', origin), (''path'', path)]
            else next)
         else
           let referer = req_Peek q ''Referer'' in
           if referer = '''' then reject ''origin check rejected: missing Origin and Referer'' [(''path'', path)]
           else case originFromReferer referer of
             None \<Rightarrow> reject ''origin check rejected: malformed Referer'' [(''referer'', referer), (''path'', path)]
           | Some refOrigin \<Rightarrow>
             if refOrigin \<notin> set allow then
               reject ''origin check rejected via Referer'' [(''referer_origin'', refOrigin), (''path'', path)]
             else next))"

subsection \<open>\<open>session.go\<close>\<close>

definition set_identity :: "uuid \<Rightarrow> uuid \<Rightarrow> tenant_ID \<Rightarrow> string \<Rightarrow> rctx \<Rightarrow> rctx" where
  "set_identity userID sessionID t h =
    SetUserValue UVTokenHashHex (UVText h) \<circ> SetUserValue UVTenantID (UVTenant t)
      \<circ> SetUserValue UVSessionID (UVUuid sessionID) \<circ> SetUserValue UVUserID (UVUuid userID)"

text \<open>The cache probe: \<open>Some\<close> of an entry that is not expired is the hot path, \<open>None\<close> falls through.\<close>

definition session_probe :: "('a rt_scheme) Cache option \<Rightarrow> string \<Rightarrow> ('a rt_scheme, CachedSession option) go" where
  "session_probe cache h =
    (case cache of None \<Rightarrow> ret None
     | Some c \<Rightarrow>
       tryg (cache_Get c h)
         (\<lambda>e. if e = ErrSession session_ErrCacheMiss then ret None
              else seqg (slog Warn ''session cache get failed; falling through to postgres'' [(''err'', error_Error e)])
                (ret None))
         (\<lambda>cached. bindg nowFn (\<lambda>now. ret (if cs_ExpiresAt cached > now then Some cached else None))))"

definition session_repopulate ::
  "('a rt_scheme) Cache option \<Rightarrow> string \<Rightarrow> Session \<Rightarrow> ('a rt_scheme, unit) go" where
  "session_repopulate cache h s =
    (case cache of None \<Rightarrow> ret ()
     | Some c \<Rightarrow>
       bindg (time_Until (session_expiresAt s)) (\<lambda>remaining.
         if remaining > 0 then
           tryg (cache_Set c h \<lparr>cs_SessionID = session_id s, cs_UserID = session_userID s,
                   cs_TenantID = session_tenantID s, cs_ExpiresAt = session_expiresAt s\<rparr> remaining)
             (\<lambda>e. slog Warn ''session cache repopulate failed'' [(''err'', error_Error e)]) (\<lambda>_. ret ())
         else ret ()))"

definition SessionMW ::
  "('a rt_scheme) SessionRepository \<Rightarrow> ('a rt_scheme) Cache option \<Rightarrow> ('a rt_scheme) Middleware" where
  "SessionMW repo cache next =
    bindg (ctx_get ReadSessionCookieFast) (\<lambda>(raw, ok).
      if \<not> ok \<or> raw = '''' then WriteFast SessionRequired
      else
        let hash = HashOf raw; tokenHashHex = hex_EncodeToString hash in
        bindg (use (session_probe cache tokenHashHex)) (\<lambda>hit.
        case hit of
          Some cached \<Rightarrow>
            seqg (ctx_set (set_identity (cs_UserID cached) (cs_SessionID cached) (cs_TenantID cached) tokenHashHex)) next
        | None \<Rightarrow>
            tryg (use (sessions_FindByTokenHash repo hash))
              (\<lambda>e. if e = ErrSession session_ErrSessionNotFound then WriteFast SessionInvalid else WriteFast Internal)
              (\<lambda>s. bindg (use nowFn) (\<lambda>now.
                if \<not> IsActive s now then WriteFast SessionInvalid
                else
                  seqg (use (session_repopulate cache tokenHashHex s))
                  (seqg (ctx_set (set_identity (session_userID s) (session_id s) (session_tenantID s) tokenHashHex))
                    next)))))"

definition uuid_value :: "user_value option \<Rightarrow> uuid" where
  "uuid_value v = (case v of Some (UVUuid u) \<Rightarrow> u | _ \<Rightarrow> uuid_Nil)"

definition SessionUserID :: "rctx \<Rightarrow> uuid" where
  "SessionUserID c = uuid_value (rc_user c UVUserID)"

definition SessionID :: "rctx \<Rightarrow> uuid" where
  "SessionID c = uuid_value (rc_user c UVSessionID)"

definition SessionTokenHashHex :: "rctx \<Rightarrow> string" where
  "SessionTokenHashHex c = text_value (rc_user c UVTokenHashHex)"

subsection \<open>What each wrapper does\<close>

lemma Chain_order: "Chain [] h = h" "Chain (m # ms) h = m (Chain ms h)"
  by (simp_all add: Chain_def)

definition failed :: "Response \<Rightarrow> rctx \<Rightarrow> rctx" where
  "failed r = respond ''application/json'' (resp_Status r) (error_body r)"

lemma failed_sel [simp]:
  "rc_status (failed r c) = resp_Status r" "rc_body (failed r c) = error_body r" "rc_req (failed r c) = rc_req c"
  "rc_user (failed r c) = rc_user c" "rc_cookies (failed r c) = rc_cookies c" "rc_headers (failed r c) = rc_headers c"
  "rc_spans (failed r c) = rc_spans c"
  by (simp_all add: failed_def respond_def)

lemma WriteFast_failed: "WriteFast r (c, w) = (Ret (), (failed r c, w))"
  by (simp add: WriteFast_def ctx_set_def modifies_def failed_def)

definition log_to :: "level \<Rightarrow> string \<Rightarrow> (string \<times> string) list \<Rightarrow> 'a rt_scheme \<Rightarrow> 'a rt_scheme" where
  "log_to l msg attrs w = w\<lparr>rt_logs := rt_logs w @ [\<lparr>log_level = l, log_msg = msg, log_attrs = attrs\<rparr>]\<rparr>"

lemma log_to_more [simp]: "rt.more (log_to l msg attrs w) = rt.more w" "quiet w (log_to l msg attrs w)"
  by (simp_all add: log_to_def)

lemma use_slog: "use (slog l msg attrs) (c, w) = (Ret (), (c, log_to l msg attrs w))"
  by (simp add: use_def slog_def modifies_def log_to_def)

lemma Recover_result:
  "Recover stack next (c, w) =
    (case next (c, w) of
       (Ret u, cw) \<Rightarrow> (Ret u, cw)
     | (Panic p, (c', w')) \<Rightarrow> (Ret (), (failed Internal c', log_to Error ''panic recovered''
         [(''panic'', p), (''path'', req_Path (rc_req c')), (''method'', req_Method (rc_req c')), (''stack'', stack)] w')))"
  by (auto simp: Recover_def recoverg_def bindg_def seqg_def ctx_get_def reads_def use_slog WriteFast_failed
      split: prod.splits outcome.splits)

subsubsection \<open>The origin check\<close>

definition origin_ok :: "string list \<Rightarrow> request \<Rightarrow> bool" where
  "origin_ok allowed q =
    (if req_Peek q ''Origin'' \<noteq> '''' then req_Peek q ''Origin'' \<in> set allowed
     else case originFromReferer (req_Peek q ''Referer'') of None \<Rightarrow> False | Some x \<Rightarrow> x \<in> set allowed)"

lemma originFromReferer_nonempty: "originFromReferer r = Some x \<Longrightarrow> x \<noteq> ''''"
  by (auto simp: originFromReferer_def split: option.splits if_splits)

lemma originFromReferer_empty: "originFromReferer '''' = None"
  by (simp add: originFromReferer_def url_Parse_def url_parse_def strings_Cut_def getScheme_def strings_HasPrefix_def
      strings_ToLower_def runes.simps split: option.split)

lemma OriginCheck_result:
  "if origin_ok allowed (rc_req c) then OriginCheck allowed next (c, w) = next (c, w)
   else \<exists>msg attrs. OriginCheck allowed next (c, w) = (Ret (), (failed Forbidden c, log_to Warn msg attrs w))"
proof -
  let ?allow = "filter (\<lambda>x. x \<noteq> '''') allowed"
  have mem: "x \<noteq> '''' \<Longrightarrow> (x \<in> set ?allow) = (x \<in> set allowed)" for x by simp
  have nil: "?allow = [] \<Longrightarrow> \<not> origin_ok allowed (rc_req c)"
    using mem originFromReferer_nonempty by (auto simp: origin_ok_def split: option.splits)
  have run: "seqg (use (slog Warn msg attrs)) (WriteFast Forbidden) (c, w) = (Ret (), (failed Forbidden c, log_to Warn msg attrs w))"
    for msg attrs
    by (simp add: seqg_def bindg_def use_slog WriteFast_failed)
  have "OriginCheck allowed next (c, w) = next (c, w) \<and> origin_ok allowed (rc_req c)
    \<or> (\<exists>msg attrs. OriginCheck allowed next (c, w) = (Ret (), (failed Forbidden c, log_to Warn msg attrs w)))
        \<and> \<not> origin_ok allowed (rc_req c)"
  proof (cases "?allow = []")
    case True
    with nil show ?thesis by (auto simp: OriginCheck_def Let_def bindg_def ctx_get_def reads_def run)
  next
    case False
    show ?thesis
    proof (cases "req_Peek (rc_req c) ''Origin'' = ''''")
      case True
      then show ?thesis
        using False mem originFromReferer_nonempty [of "req_Peek (rc_req c) ''Referer''"]
        by (cases "originFromReferer (req_Peek (rc_req c) ''Referer'')")
           (auto simp: OriginCheck_def Let_def bindg_def ctx_get_def reads_def run origin_ok_def originFromReferer_empty)
    next
      case nonempty: False
      then show ?thesis
        using False by (auto simp: OriginCheck_def Let_def bindg_def ctx_get_def reads_def run origin_ok_def)
    qed
  qed
  then show ?thesis by auto
qed

subsubsection \<open>Authentication\<close>

text \<open>What \<open>Session\<close> decides about a token before it calls the next handler: a response, or the identity.\<close>

definition authenticate ::
  "('a rt_scheme) SessionRepository \<Rightarrow> ('a rt_scheme) Cache option \<Rightarrow> string \<Rightarrow>
    ('a rt_scheme, Response + (uuid \<times> uuid \<times> tenant_ID)) go" where
  "authenticate repo cache raw =
    (let h = hex_EncodeToString (HashOf raw) in
     bindg (session_probe cache h) (\<lambda>hit.
     case hit of
       Some c \<Rightarrow> ret (Inr (cs_UserID c, cs_SessionID c, cs_TenantID c))
     | None \<Rightarrow>
       tryg (sessions_FindByTokenHash repo (HashOf raw))
         (\<lambda>e. ret (Inl (if e = ErrSession session_ErrSessionNotFound then SessionInvalid else Internal)))
         (\<lambda>s. bindg nowFn (\<lambda>now.
           if \<not> IsActive s now then ret (Inl SessionInvalid)
           else seqg (session_repopulate cache h s) (ret (Inr (session_userID s, session_id s, session_tenantID s)))))))"

lemma use_bindg: "use (bindg m f) (c, w) = bindg (use m) (\<lambda>a. use (f a)) (c, w)"
  by (simp add: use_def bindg_def split: prod.splits outcome.splits)

lemma SessionMW_result:
  "SessionMW repo cache next (c, w) =
    (case ReadSessionCookieFast c of (raw, ok) \<Rightarrow>
       if \<not> ok \<or> raw = '''' then (Ret (), (failed SessionRequired c, w))
       else case authenticate repo cache raw w of
         (Ret (Inl r), w') \<Rightarrow> (Ret (), (failed r c, w'))
       | (Ret (Inr (u, s, t)), w') \<Rightarrow> next (set_identity u s t (hex_EncodeToString (HashOf raw)) c, w')
       | (Panic p, w') \<Rightarrow> (Panic p, (c, w')))"
  unfolding SessionMW_def authenticate_def
  by (auto simp: Let_def bindg_def tryg_def seqg_def ctx_get_def reads_def ret_def ctx_set_def modifies_def use_def
      WriteFast_failed split: prod.splits outcome.splits option.splits sum.splits)

context use_case_env
begin

definition auth_post ::
  "string \<Rightarrow> 'a rt_scheme \<Rightarrow> store \<Rightarrow> (Response + (uuid \<times> uuid \<times> tenant_ID)) outcome \<Rightarrow> 'a rt_scheme \<Rightarrow> bool" where
  "auth_post raw w s r z =
    (after w s z \<and> (case r of
       Ret (Inr (u, sid, t)) \<Rightarrow>
         (\<exists>p n. cached w (hex_EncodeToString (HashOf raw)) = Some p \<and> rt_clock_i w \<le> n \<and> rt_clock w n < cs_ExpiresAt p
            \<and> u = cs_UserID p \<and> sid = cs_SessionID p \<and> t = cs_TenantID p)
         \<or> (\<exists>x n. find_session s (HashOf raw) = Some x \<and> rt_clock_i w \<le> n \<and> IsActive x (rt_clock w n)
            \<and> u = session_userID x \<and> sid = session_id x \<and> t = session_tenantID x)
     | Ret (Inl e) \<Rightarrow>
         (e = SessionInvalid \<and> (find_session s (HashOf raw) = None
            \<or> (\<exists>x n. find_session s (HashOf raw) = Some x \<and> rt_clock_i w \<le> n \<and> \<not> IsActive x (rt_clock w n))))
         \<or> e = Internal \<and> \<not> healthy w
     | Panic _ \<Rightarrow> False))"

lemma probe_law:
  assumes a: "after w0 s w"
  shows "wp (session_probe (Some cache) h) (\<lambda>r w'. after w0 s w' \<and> later w w'
    \<and> (\<exists>x. r = Ret x) \<and> (\<forall>p. r = Ret (Some p) \<longrightarrow> cached w h = Some p \<and>
        (\<exists>n \<ge> rt_clock_i w. rt_clock w n < cs_ExpiresAt p))) w"
  unfolding session_probe_def option.case wp_tryg
proof (rule wp_mono [OF cache.get_law], goal_cases)
  case (1 r w')
  then have k: "after w0 s w'" and l: "later w w'"
    using after_keeps [OF _ a] cache_keeps [of w w' s] by auto
  have q: "quiet w' (w'\<lparr>rt_logs := x\<rparr>)" "quiet w' (w'\<lparr>rt_clock_i := Suc (rt_clock_i w')\<rparr>)" for x by simp_all
  note f = after_frame [OF q(1) k] after_frame [OF q(2) k] later_trans [OF l quiet_later [OF q(1)]]
    later_trans [OF l quiet_later [OF q(2)]]
  show ?case
  proof (cases r)
    case (Ret x)
    show ?thesis
    proof (cases x)
      case (Inl e)
      with Ret k l f show ?thesis by (auto simp: wp_simps)
    next
      case (Inr p)
      with Ret 1 have "cached w h = Some p" by simp
      moreover have "rt_clock w' = rt_clock w" "rt_clock_i w \<le> rt_clock_i w'" using l by (simp_all add: later_def)
      ultimately show ?thesis using Ret Inr f by (auto simp: wp_simps nowFn_def)
    qed
  qed (use 1 in auto)
qed

lemma repopulate_law:
  assumes a: "after w0 s w"
  shows "wp (session_repopulate (Some cache) h x) (\<lambda>r w'. r = Ret () \<and> after w0 s w') w"
proof -
  let ?w = "w\<lparr>rt_clock_i := Suc (rt_clock_i w)\<rparr>"
  have q: "quiet w ?w" by simp
  note a1 = after_frame [OF q a]
  show ?thesis
  proof (cases "time_Sub (session_expiresAt x) (rt_clock w (rt_clock_i w)) > 0")
    case True
    show ?thesis
      unfolding session_repopulate_def option.case wp_bindg wp_time_Until outcome.case if_P [OF True] wp_tryg
    proof (rule wp_mono [OF cache.set_quiet], goal_cases)
      case (1 r w')
      then have k: "after w0 s w'" using after_keeps [OF _ a1] by blast
      have l: "quiet w' (w'\<lparr>rt_logs := y\<rparr>)" for y by simp
      from 1 k after_frame [OF l k] show ?case
        by (auto simp: wp_simps split: outcome.splits sum.splits)
    qed
  next
    case False
    with a1 show ?thesis by (simp add: session_repopulate_def wp_simps)
  qed
qed

lemma authenticate_law:
  assumes db: "db w s"
  shows "wp (authenticate sessions (Some cache) raw) (auth_post raw w s) w"
proof -
  have same: "after w s w" using db by (simp add: after_def)
  show ?thesis
    unfolding authenticate_def Let_def wp_bindg
  proof (rule wp_mono [OF probe_law [OF same]], goal_cases)
    case (1 r w1)
    then obtain y where r: "r = Ret y" and a: "after w s w1" by auto
    show ?case
    proof (cases y)
      case (Some p)
      with 1 r show ?thesis by (auto simp: wp_ret auth_post_def)
    next
      case None
      show ?thesis
        unfolding r None outcome.case option.case wp_tryg
      proof (rule wp_mono [OF find_by_token_hash [unfolded lookup_ok_def, rule_format, OF after_db [OF a]]], goal_cases)
        case (1 r2 w2)
        then have a2: "after w s w2" using later_truncate by (intro after_step [OF a]) auto
        have clk: "rt_clock w2 = rt_clock w" "rt_clock_i w \<le> rt_clock_i w2" using a2 by (simp_all add: after_def later_def)
        let ?w = "w2\<lparr>rt_clock_i := Suc (rt_clock_i w2)\<rparr>"
        have q: "quiet w2 ?w" by simp
        note a3 = after_frame [OF q a2]
        have up: "healthy w \<longrightarrow> healthy w1" using a by (simp add: after_def)
        show ?case
        proof (cases r2)
          case (Ret z)
          show ?thesis
          proof (cases z)
            case (Inl e)
            with Ret 1 a2 up show ?thesis by (auto simp: wp_ret auth_post_def)
          next
            case (Inr x)
            with Ret 1 have x: "find_session s (HashOf raw) = Some x" by simp
            show ?thesis
            proof (cases "IsActive x (rt_clock w (rt_clock_i w2))")
              case True
              with x clk have post: "auth_post raw w s (Ret (Inr (session_userID x, session_id x, session_tenantID x))) z'"
                if "after w s z'" for z'
                using that by (auto simp: auth_post_def)
              have "wp (seqg (session_repopulate (Some cache) (hex_EncodeToString (HashOf raw)) x)
                  (ret (Inr (session_userID x, session_id x, session_tenantID x)))) (auth_post raw w s) ?w"
                unfolding wp_seqg by (rule wp_mono [OF repopulate_law [OF a3]]) (auto simp: wp_ret intro: post)
              with True show ?thesis by (simp add: Ret Inr wp_simps nowFn_def clk)
            next
              case False
              with x clk a3 show ?thesis by (auto simp: Ret Inr wp_simps nowFn_def auth_post_def)
            qed
          qed
        qed (use 1 in simp)
      qed
    qed
  qed
qed

text \<open>A session that is active at every reading of the clock gets in whatever the cache does.\<close>

lemma authenticate_live:
  assumes db: "db w s" and up: "healthy w" and x: "find_session s (HashOf raw) = Some x"
    and act: "\<And>n. rt_clock_i w \<le> n \<Longrightarrow> IsActive x (rt_clock w n)"
  shows "wp (authenticate sessions (Some cache) raw) (\<lambda>r z. \<exists>y. r = Ret (Inr y)) w"
  by (rule wp_mono [OF authenticate_law [OF db]])
     (use up x act in \<open>auto simp: auth_post_def split: outcome.splits sum.splits\<close>)

end

subsection \<open>The wrappers in production\<close>

lemma cookie_found: "ReadSessionCookieFast c = (raw, True) \<Longrightarrow> raw \<noteq> ''''"
  by (auto simp: ReadSessionCookieFast_def Let_def split: if_splits)

lemma cookie_missing: "ReadSessionCookieFast c = (raw, False) \<Longrightarrow> raw = ''''"
  by (auto simp: ReadSessionCookieFast_def Let_def split: if_splits)

definition prod_session :: "'p pgx \<Rightarrow> 'k SessionCache \<Rightarrow> uuid_lib \<Rightarrow> (('p, 'k) world) Middleware" where
  "prod_session drv cl ul = SessionMW (pg_SessionRepository drv) (Some (valkey_SessionCache cl ul))"

context production
begin

lemma session_gate_prod:
  assumes "pg_db committed w s"
  shows "case ReadSessionCookieFast c of (raw, ok) \<Rightarrow>
    if \<not> ok then prod_session drv cl ul next (c, w) = (Ret (), (failed SessionRequired c, w))
    else (\<exists>u sid t w'. prod_session drv cl ul next (c, w) = next (set_identity u sid t (hex_EncodeToString (HashOf raw)) c, w')
        \<and> pg_db committed w' s
        \<and> ((\<exists>p n. kv_cached content ul w (hex_EncodeToString (HashOf raw)) = Some p \<and> rt_clock_i w \<le> n
              \<and> rt_clock w n < cs_ExpiresAt p \<and> u = cs_UserID p \<and> sid = cs_SessionID p \<and> t = cs_TenantID p)
           \<or> (\<exists>x n. find_session s (HashOf raw) = Some x \<and> rt_clock_i w \<le> n \<and> IsActive x (rt_clock w n)
              \<and> u = session_userID x \<and> sid = session_id x \<and> t = session_tenantID x)))
      \<or> (\<exists>w'. prod_session drv cl ul next (c, w) = (Ret (), (failed SessionInvalid c, w')) \<and> pg_db committed w' s
        \<and> (find_session s (HashOf raw) = None
           \<or> (\<exists>x n. find_session s (HashOf raw) = Some x \<and> rt_clock_i w \<le> n \<and> \<not> IsActive x (rt_clock w n))))
      \<or> (\<exists>w'. prod_session drv cl ul next (c, w) = (Ret (), (failed Internal c, w')) \<and> pg_db committed w' s \<and> \<not> up (w_pg w))"
proof -
  obtain raw ok where ck: "ReadSessionCookieFast c = (raw, ok)" by fastforce
  show ?thesis
  proof (cases ok)
    case False
    with ck show ?thesis by (simp add: prod_session_def SessionMW_result)
  next
    case True
    with ck have raw: "raw \<noteq> ''''" using cookie_found [of c raw] True by simp
    obtain r w' where e: "authenticate (pg_SessionRepository drv) (Some (valkey_SessionCache cl ul)) raw w = (r, w')" by fastforce
    note post = wpD [OF env.authenticate_law [OF assms] e, unfolded env.auth_post_def]
    have run: "prod_session drv cl ul next (c, w) = (case (r, w') of
         (Ret (Inl r), w') \<Rightarrow> (Ret (), (failed r c, w'))
       | (Ret (Inr (u, s, t)), w') \<Rightarrow> next (set_identity u s t (hex_EncodeToString (HashOf raw)) c, w')
       | (Panic p, w') \<Rightarrow> (Panic p, (c, w')))"
      using True raw by (simp add: prod_session_def SessionMW_result ck e)
    have d: "pg_db committed w' s" using post by (simp add: store.after_def)
    show ?thesis
    proof (cases r)
      case (Ret y)
      show ?thesis
      proof (cases y)
        case (Inl e)
        with post Ret d show ?thesis unfolding ck run using True by auto
      next
        case (Inr z)
        obtain u sid t where z: "z = (u, sid, t)" by (cases z)
        have i: "(\<exists>p n. kv_cached content ul w (hex_EncodeToString (HashOf raw)) = Some p \<and> rt_clock_i w \<le> n
              \<and> rt_clock w n < cs_ExpiresAt p \<and> u = cs_UserID p \<and> sid = cs_SessionID p \<and> t = cs_TenantID p)
           \<or> (\<exists>x n. find_session s (HashOf raw) = Some x \<and> rt_clock_i w \<le> n \<and> IsActive x (rt_clock w n)
              \<and> u = session_userID x \<and> sid = session_id x \<and> t = session_tenantID x)"
          using post unfolding Ret Inr z by simp
        have "prod_session drv cl ul next (c, w) = next (set_identity u sid t (hex_EncodeToString (HashOf raw)) c, w')"
          by (simp add: run Ret Inr z)
        with i d True show ?thesis unfolding ck by (simp only: prod.case not_True_eq_False if_False) blast
      qed
    qed (use post in simp)
  qed
qed

lemma outage_prod:
  assumes "pg_db committed w s" "up (w_pg w)" "ReadSessionCookieFast c = (raw, True)"
    "find_session s (HashOf raw) = Some x" "\<And>n. rt_clock_i w \<le> n \<Longrightarrow> IsActive x (rt_clock w n)"
  shows "\<exists>u sid t w'. prod_session drv cl ul next (c, w) = next (set_identity u sid t (hex_EncodeToString (HashOf raw)) c, w')
    \<and> pg_db committed w' s"
proof -
  obtain r w' where e: "authenticate (pg_SessionRepository drv) (Some (valkey_SessionCache cl ul)) raw w = (r, w')" by fastforce
  from wpD [OF env.authenticate_live [OF assms(1,2,4,5)] e] obtain u sid t where r: "r = Ret (Inr (u, sid, t))" by auto
  have d: "pg_db committed w' s"
    using wpD [OF env.authenticate_law [OF assms(1)] e] by (simp add: env.auth_post_def store.after_def)
  have "prod_session drv cl ul next (c, w) = next (set_identity u sid t (hex_EncodeToString (HashOf raw)) c, w')"
    using cookie_found [OF assms(3)] by (simp add: prod_session_def SessionMW_result assms(3) e r)
  with d show ?thesis by blast
qed

end

text \<open>A panic becomes a 500: \<open>Recover\<close> passes on what a handler returns, and when the handler panics it
  returns normally with the status 500 and the fixed body, logs the panic, and keeps everything else of the
  response and of the world as the handler left it; nothing of the panic reaches the response.\<close>

lemma panic_becomes_500:
  "case next (c, w) of
     (Ret u, cw) \<Rightarrow> Recover stack next (c, w) = (Ret u, cw)
   | (Panic p, (c', w')) \<Rightarrow> Recover stack next (c, w) =
       (Ret (), (respond ''application/json'' 500
            (json_object [(''error'', json_strings [(''code'', ''internal''), (''message'', ''Internal server error'')])]) c',
          log_to Error ''panic recovered''
            [(''panic'', p), (''path'', req_Path (rc_req c')), (''method'', req_Method (rc_req c')), (''stack'', stack)] w'))"
  by (simp add: Recover_result failed_def Internal_def error_body_def split: prod.split outcome.split)

text \<open>C21: the origin check is exact. The handler behind it runs, on the unchanged request and world, exactly when
  the \<open>Origin\<close> header, or without one the origin of the \<open>Referer\<close>, is a member of the allow-list; otherwise
  the response is a 403, the handler does not run, and only a warning has been written.\<close>

theorem origin_check_exact:
  "if origin_ok allowed (rc_req c) then OriginCheck allowed next (c, w) = next (c, w)
   else \<exists>msg attrs. OriginCheck allowed next (c, w) = (Ret (), (failed Forbidden c, log_to Warn msg attrs w))"
  by (rule OriginCheck_result)

text \<open>C22: the origin of a \<open>Referer\<close> is that of its authority: if \<open>originFromReferer\<close> answers, the header has the form
  \<open>scheme://authority...\<close> where the authority ends at the first \<open>/\<close>, \<open>?\<close> or \<open>#\<close>, and the answer is the lower-case
  scheme with the host that the part of the authority behind its last \<open>@\<close> denotes. No path, query, fragment or user name
  can pass for the host.\<close>

theorem referer_origin_sound:
  assumes "originFromReferer referer = Some orig"
  shows "\<exists>scheme auth rest host. referer = scheme @ ''://'' @ auth @ rest
    \<and> list_all (\<lambda>c. \<not> authority_end c) auth \<and> (rest = [] \<or> authority_end (hd rest))
    \<and> parseHost (after_last (CHR ''@'') auth) = Some host \<and> host \<noteq> ''''
    \<and> orig = strings_ToLower scheme @ ''://'' @ host"
proof -
  from assms obtain u where u: "url_Parse referer = Some u" "url_Scheme u \<noteq> ''''" "url_Host u \<noteq> ''''"
    and orig: "orig = url_Scheme u @ ''://'' @ url_Host u"
    by (auto simp: originFromReferer_def split: option.splits if_splits)
  from url_Parse_authority [OF u] obtain scheme auth rest where
    "referer = scheme @ ''://'' @ auth @ rest" "url_Scheme u = strings_ToLower scheme"
    "list_all (\<lambda>c. \<not> authority_end c) auth" "rest = [] \<or> authority_end (hd rest)"
    "parseHost (after_last (CHR ''@'') auth) = Some (url_Host u)" by blast
  with u(3) orig show ?thesis by metis
qed

text \<open>C3: the session middleware admits a request only with the identity of a cache entry that is not expired, or of a
  database row that is neither revoked nor expired; otherwise it answers 401 (no cookie; or no such row, or
  one that is no longer active) or, with the database down, 500, and the handler does not run. It never
  panics and never changes the database.\<close>

theorem session_gate:
  fixes w :: "('p, 'k) world" and cl :: "'k SessionCache"
  assumes "production drv committed txview up rnd cl content kvup ul kdf ps"
    and "pg_db committed w s"
  shows "case ReadSessionCookieFast c of (raw, ok) \<Rightarrow>
    if \<not> ok then prod_session drv cl ul next (c, w) = (Ret (), (failed SessionRequired c, w))
    else (\<exists>u sid t w'. prod_session drv cl ul next (c, w) = next (set_identity u sid t (hex_EncodeToString (HashOf raw)) c, w')
        \<and> pg_db committed w' s
        \<and> ((\<exists>p n. kv_cached content ul w (hex_EncodeToString (HashOf raw)) = Some p \<and> rt_clock_i w \<le> n
              \<and> rt_clock w n < cs_ExpiresAt p \<and> u = cs_UserID p \<and> sid = cs_SessionID p \<and> t = cs_TenantID p)
           \<or> (\<exists>x n. find_session s (HashOf raw) = Some x \<and> rt_clock_i w \<le> n \<and> IsActive x (rt_clock w n)
              \<and> u = session_userID x \<and> sid = session_id x \<and> t = session_tenantID x)))
      \<or> (\<exists>w'. prod_session drv cl ul next (c, w) = (Ret (), (failed SessionInvalid c, w')) \<and> pg_db committed w' s
        \<and> (find_session s (HashOf raw) = None
           \<or> (\<exists>x n. find_session s (HashOf raw) = Some x \<and> rt_clock_i w \<le> n \<and> \<not> IsActive x (rt_clock w n))))
      \<or> (\<exists>w'. prod_session drv cl ul next (c, w) = (Ret (), (failed Internal c, w')) \<and> pg_db committed w' s \<and> \<not> up (w_pg w))"
  using production.session_gate_prod [OF assms] .

text \<open>C17: a cache outage never blocks authentication. With the database up, a request that carries the token of a
  session that is active whenever the clock is read reaches its handler with an identity, whatever the
  cache does.\<close>

theorem cache_outage_never_blocks:
  fixes w :: "('p, 'k) world" and cl :: "'k SessionCache"
  assumes "production drv committed txview up rnd cl content kvup ul kdf ps"
    and "pg_db committed w s" "up (w_pg w)" "ReadSessionCookieFast c = (raw, True)"
    and "find_session s (HashOf raw) = Some x" "\<And>n. rt_clock_i w \<le> n \<Longrightarrow> IsActive x (rt_clock w n)"
  shows "\<exists>u sid t w'. prod_session drv cl ul next (c, w) = next (set_identity u sid t (hex_EncodeToString (HashOf raw)) c, w')
    \<and> pg_db committed w' s"
  using production.outage_prod [OF assms] .

subsection \<open>Examples\<close>

definition sample_request :: request where
  "sample_request = \<lparr>req_Method = ''GET'', req_Path = ''/'', req_Peek = (\<lambda>_. ''''),
     req_Cookie = (\<lambda>k. if k = NameInsecure then sample_token else ''''), req_UserAgent = '''', req_PostBody = '''',
     req_RemoteAddr = ''10.0.0.1:5000''\<rparr>"

lemma sample_cookie: "ReadSessionCookieFast (fresh_ctx sample_request) = (sample_token, True)"
  by (simp add: ReadSessionCookieFast_def fresh_ctx_def sample_request_def NameSecure_def NameInsecure_def sample_token_def)

definition outage_world :: "(server, kvserver) world" where
  "outage_world = seeded_world (\<lambda>_. Served)\<lparr>rt_clock := \<lambda>_. 1780000000000000000, w_kv := \<lparr>kvs_map = [], kvs_down = True\<rparr>\<rparr>"

lemma outage_world_db: "pg_db srv_tables outage_world sample_store" "ref_up (w_pg outage_world)"
  using seeded_world_db [of "\<lambda>_. Served"] by (simp_all add: pg_db_def outage_world_def ref_up_def empty_server_def)

lemma outage_find: "find_session sample_store (HashOf sample_token) = Some sample_session"
  by (simp add: find_session_def sample_store_def sample_session_def)

theorem referer_origin_sound_witness:
  "originFromReferer ''HTTPS://crm.example.com@evil.example/crm.example.com'' = Some ''https://evil.example''
   \<and> (\<exists>scheme auth rest host. ''HTTPS://crm.example.com@evil.example/crm.example.com'' = scheme @ ''://'' @ auth @ rest
    \<and> list_all (\<lambda>c. \<not> authority_end c) auth \<and> (rest = [] \<or> authority_end (hd rest))
    \<and> parseHost (after_last (CHR ''@'') auth) = Some host \<and> host \<noteq> ''''
    \<and> ''https://evil.example'' = strings_ToLower scheme @ ''://'' @ host)"
proof -
  have e: "originFromReferer ''HTTPS://crm.example.com@evil.example/crm.example.com'' = Some ''https://evil.example''"
    by code_simp
  from referer_origin_sound [OF e] e show ?thesis by blast
qed

theorem session_gate_witness:
  "\<exists>u sid t w'. prod_session (ref_pgx micros) ref_cache canonical_uuids (ret ()) (fresh_ctx sample_request, outage_world)
    = (Ret (), (set_identity u sid t (hex_EncodeToString (HashOf sample_token)) (fresh_ctx sample_request), w'))
    \<and> pg_db srv_tables w' sample_store"
proof -
  have "\<not> (\<exists>x n. find_session sample_store (HashOf sample_token) = Some x \<and> \<not> IsActive x (rt_clock outage_world n))"
    by (simp add: outage_find IsActive_iff sample_session_def outage_world_def)
  then show ?thesis
    using session_gate [OF ref_production.production_axioms outage_world_db(1), of "ret ()" "fresh_ctx sample_request"]
    by (auto simp: sample_cookie outage_find outage_world_db(2) ret_def)
qed

theorem cache_outage_never_blocks_witness:
  "\<exists>u sid t w'. prod_session (ref_pgx micros) ref_cache canonical_uuids (ret ()) (fresh_ctx sample_request, outage_world)
    = (Ret (), (set_identity u sid t (hex_EncodeToString (HashOf sample_token)) (fresh_ctx sample_request), w'))
    \<and> pg_db srv_tables w' sample_store"
proof -
  have "IsActive sample_session (rt_clock outage_world n)" for n
    by (simp add: IsActive_iff sample_session_def outage_world_def)
  from cache_outage_never_blocks [OF ref_production.production_axioms outage_world_db sample_cookie outage_find this, of "ret ()"]
  show ?thesis by (simp add: ret_def)
qed

end
