(* ===== verification/Handlers.thy ===== *)
theory Handlers
  imports Middleware
begin

text \<open>
  \<open>internal/transport/http/dto\<close>, \<open>internal/transport/http/handlers\<close> and \<open>internal/transport/http/router.go\<close>: the
  bodies of requests and responses, the handlers, and the dispatch on method and path with the chain of
  wrappers of each route. \<open>NewHandler\<close> is the whole HTTP surface. The document served under
  \<open>/openapi.json\<close> is a file that the build embeds; its bytes are the parameter \<open>spec\<close>.
\<close>

subsection \<open>Bodies\<close>

record SignUpRequest =
  sureq_Email :: string
  sureq_Password :: string

record SignInRequest =
  sireq_Email :: string
  sireq_Password :: string

record SignUpResponse =
  suresp_UserID :: string

record SignInResponse =
  siresp_UserID :: string

record MeResponse =
  me_UserID :: string
  me_Email :: string
  me_Status :: string
  me_CreatedAt :: time

definition decode_SignUpRequest :: "string \<Rightarrow> SignUpRequest option" where
  "decode_SignUpRequest body =
    map_option (\<lambda>m. \<lparr>sureq_Email = m ''email'', sureq_Password = m ''password''\<rparr>) (json_Unmarshal [''email'', ''password''] body)"

definition decode_SignInRequest :: "string \<Rightarrow> SignInRequest option" where
  "decode_SignInRequest body =
    map_option (\<lambda>m. \<lparr>sireq_Email = m ''email'', sireq_Password = m ''password''\<rparr>) (json_Unmarshal [''email'', ''password''] body)"

definition marshal_SignUpResponse :: "SignUpResponse \<Rightarrow> string" where
  "marshal_SignUpResponse r = json_strings [(''user_id'', suresp_UserID r)]"

definition marshal_SignInResponse :: "SignInResponse \<Rightarrow> string" where
  "marshal_SignInResponse r = json_strings [(''user_id'', siresp_UserID r)]"

text \<open>\<open>json.Marshal\<close> fails on a time whose year has more than four digits; the handler then writes \<open>nil\<close>.\<close>

definition marshal_MeResponse :: "MeResponse \<Rightarrow> string option" where
  "marshal_MeResponse r =
    json_with_time [(''user_id'', me_UserID r), (''email'', me_Email r), (''status'', me_Status r)] ''created_at'' (me_CreatedAt r)"

subsection \<open>\<open>handlers/context.go\<close>\<close>

definition mustTenant :: "uuid_lib \<Rightarrow> rctx \<Rightarrow> tenant_ID" where
  "mustTenant ul c = (case rc_user c UVTenantID of Some (UVTenant t) \<Rightarrow> t | _ \<Rightarrow> tenant_DefaultID ul)"

definition userIDOrNil :: "rctx \<Rightarrow> uuid" where
  "userIDOrNil c = uuid_value (rc_user c UVUserID)"

definition sessionIDOrNil :: "rctx \<Rightarrow> uuid" where
  "sessionIDOrNil c = uuid_value (rc_user c UVSessionID)"

definition tokenHashHex :: "rctx \<Rightarrow> string" where
  "tokenHashHex c = text_value (rc_user c UVTokenHashHex)"

subsection \<open>The handlers\<close>

definition maxBodyBytes :: nat where
  "maxBodyBytes = 16384"

record 'w SignUpHandler =
  suh_uc :: "'w sign_up_UseCase"
  suh_cookie :: cookie_Config

definition NewSignUpHandler :: "'w sign_up_UseCase \<Rightarrow> cookie_Config \<Rightarrow> 'w SignUpHandler" where
  "NewSignUpHandler uc cookie = \<lparr>suh_uc = uc, suh_cookie = cookie\<rparr>"

definition SignUp_Handle :: "uuid_lib \<Rightarrow> ('a rt_scheme) SignUpHandler \<Rightarrow> ('a rt_scheme) RequestHandler" where
  "SignUp_Handle ul h =
    bindg (ctx_get id) (\<lambda>c.
      let body = req_PostBody (rc_req c) in
      if length body > maxBodyBytes then WriteFast InvalidBody
      else case decode_SignUpRequest body of
        None \<Rightarrow> WriteFast InvalidBody
      | Some req \<Rightarrow>
        tryg (use (sign_up_Execute ul (suh_uc h)
                \<lparr>su_TenantID = mustTenant ul c, su_Email = sureq_Email req, su_Password = sureq_Password req\<rparr>))
          (\<lambda>err. WriteFast (FromSignUp err))
          (\<lambda>out.
            seqg (SetFast (suh_cookie h) (su_SessionToken out) (su_SessionExpiresAt out))
              (ctx_set (respond ''application/json'' 201
                (marshal_SignUpResponse \<lparr>suresp_UserID = uuid_String ul (su_UserID out)\<rparr>)))))"

record 'w SignInHandler =
  sih_uc :: "'w sign_in_UseCase"
  sih_cookie :: cookie_Config

definition NewSignInHandler :: "'w sign_in_UseCase \<Rightarrow> cookie_Config \<Rightarrow> 'w SignInHandler" where
  "NewSignInHandler uc cookie = \<lparr>sih_uc = uc, sih_cookie = cookie\<rparr>"

definition SignIn_Handle :: "uuid_lib \<Rightarrow> ('a rt_scheme) SignInHandler \<Rightarrow> ('a rt_scheme) RequestHandler" where
  "SignIn_Handle ul h =
    bindg (ctx_get id) (\<lambda>c.
      let body = req_PostBody (rc_req c) in
      if length body > maxBodyBytes then WriteFast InvalidBody
      else case decode_SignInRequest body of
        None \<Rightarrow> WriteFast InvalidBody
      | Some req \<Rightarrow>
        tryg (use (sign_in_Execute ul (sih_uc h)
                \<lparr>si_TenantID = mustTenant ul c, si_Email = sireq_Email req, si_Password = sireq_Password req\<rparr>))
          (\<lambda>err. WriteFast (FromSignIn err))
          (\<lambda>out.
            seqg (SetFast (sih_cookie h) (si_SessionToken out) (si_SessionExpiresAt out))
              (ctx_set (respond ''application/json'' 200
                (marshal_SignInResponse \<lparr>siresp_UserID = uuid_String ul (si_UserID out)\<rparr>)))))"

record 'w SignOutHandler =
  soh_uc :: "'w sign_out_UseCase"
  soh_cookie :: cookie_Config

definition NewSignOutHandler :: "'w sign_out_UseCase \<Rightarrow> cookie_Config \<Rightarrow> 'w SignOutHandler" where
  "NewSignOutHandler uc cookie = \<lparr>soh_uc = uc, soh_cookie = cookie\<rparr>"

definition SignOut_Handle :: "uuid_lib \<Rightarrow> ('a rt_scheme) SignOutHandler \<Rightarrow> ('a rt_scheme) RequestHandler" where
  "SignOut_Handle ul h =
    bindg (ctx_get id) (\<lambda>c.
      tryg (use (sign_out_Execute ul (soh_uc h)
              \<lparr>so_TenantID = mustTenant ul c, so_SessionID = sessionIDOrNil c, so_UserID = userIDOrNil c,
               so_TokenHashHex = tokenHashHex c\<rparr>))
        (\<lambda>err. WriteFast (FromSignOut err))
        (\<lambda>_. seqg (ClearFast (soh_cookie h)) (ctx_set (\<lambda>c. c\<lparr>rc_status := 204\<rparr>))))"

record 'w GetMeHandler =
  gmh_uc :: "'w get_me_UseCase"

definition NewGetMeHandler :: "'w get_me_UseCase \<Rightarrow> 'w GetMeHandler" where
  "NewGetMeHandler uc = \<lparr>gmh_uc = uc\<rparr>"

definition GetMe_Handle :: "uuid_lib \<Rightarrow> 'w GetMeHandler \<Rightarrow> 'w RequestHandler" where
  "GetMe_Handle ul h =
    bindg (ctx_get id) (\<lambda>c.
      tryg (use (get_me_Execute (gmh_uc h) \<lparr>gm_TenantID = mustTenant ul c, gm_UserID = userIDOrNil c\<rparr>))
        (\<lambda>err. WriteFast (FromGetMe err))
        (\<lambda>out. ctx_set (respond ''application/json'' 200
           (case marshal_MeResponse \<lparr>me_UserID = uuid_String ul (gm_OutUserID out), me_Email = gm_Email out,
                  me_Status = gm_Status out, me_CreatedAt = gm_CreatedAt out\<rparr> of
              None \<Rightarrow> '''' | Some resp \<Rightarrow> resp))))"

definition Healthz :: "'w RequestHandler" where
  "Healthz = ctx_set (respond ''application/json'' 200 (json_strings [(''status'', ''ok'')]))"

definition OpenAPI :: "string \<Rightarrow> 'w RequestHandler" where
  "OpenAPI spec = ctx_set (respond ''application/json'' 200 spec)"

subsection \<open>\<open>router.go\<close>\<close>

record 'w Deps =
  dep_SignUp :: "'w sign_up_UseCase"
  dep_SignIn :: "'w sign_in_UseCase"
  dep_SignOut :: "'w sign_out_UseCase"
  dep_GetMe :: "'w get_me_UseCase"
  dep_Sessions :: "'w SessionRepository"
  dep_Cache :: "'w Cache option"
  dep_Cookie :: cookie_Config
  dep_Recover :: "'w Middleware"
  dep_AccessLog :: "'w Middleware"
  dep_Origin :: "'w Middleware"
  dep_OTel :: "'w Middleware"
  dep_SessionMW :: "'w Middleware"

definition publicMutatingChain :: "uuid_lib \<Rightarrow> ('a rt_scheme) Deps \<Rightarrow> ('a rt_scheme) Middleware" where
  "publicMutatingChain ul d =
    Chain [dep_Recover d, dep_AccessLog d, dep_OTel d, RequestID ul, Tenancy ul, dep_Origin d]"

text \<open>Reserved for public reads; no route uses it.\<close>

definition publicReadChain :: "uuid_lib \<Rightarrow> ('a rt_scheme) Deps \<Rightarrow> ('a rt_scheme) Middleware" where
  "publicReadChain ul d = Chain [dep_Recover d, dep_AccessLog d, dep_OTel d, RequestID ul, Tenancy ul]"

definition protectedMutatingChain :: "uuid_lib \<Rightarrow> ('a rt_scheme) Deps \<Rightarrow> ('a rt_scheme) Middleware" where
  "protectedMutatingChain ul d =
    Chain [dep_Recover d, dep_AccessLog d, dep_OTel d, RequestID ul, Tenancy ul, dep_SessionMW d, dep_Origin d]"

definition protectedReadChain :: "uuid_lib \<Rightarrow> ('a rt_scheme) Deps \<Rightarrow> ('a rt_scheme) Middleware" where
  "protectedReadChain ul d =
    Chain [dep_Recover d, dep_AccessLog d, dep_OTel d, RequestID ul, Tenancy ul, dep_SessionMW d]"

definition infraChain :: "'w Deps \<Rightarrow> 'w Middleware" where
  "infraChain d = Chain [dep_Recover d, dep_AccessLog d]"

definition not_found_body :: string where
  "not_found_body = json_object [(''error'', json_strings [(''code'', ''not_found''), (''message'', ''Route not found'')])]"

definition NewHandler :: "uuid_lib \<Rightarrow> string \<Rightarrow> ('a rt_scheme) Deps \<Rightarrow> ('a rt_scheme) RequestHandler" where
  "NewHandler ul spec d =
    (let signUpH = NewSignUpHandler (dep_SignUp d) (dep_Cookie d);
         signInH = NewSignInHandler (dep_SignIn d) (dep_Cookie d);
         signOutH = NewSignOutHandler (dep_SignOut d) (dep_Cookie d);
         getMeH = NewGetMeHandler (dep_GetMe d);
         signUpRoute = publicMutatingChain ul d (SignUp_Handle ul signUpH);
         signInRoute = publicMutatingChain ul d (SignIn_Handle ul signInH);
         signOutRoute = protectedMutatingChain ul d (SignOut_Handle ul signOutH);
         getMeRoute = protectedReadChain ul d (GetMe_Handle ul getMeH);
         healthzRoute = infraChain d Healthz;
         openapiRoute = infraChain d (OpenAPI spec)
     in bindg (ctx_get rc_req) (\<lambda>q.
          let method = req_Method q; path = req_Path q in
          if method = ''GET'' \<and> path = ''/healthz'' then healthzRoute
          else if method = ''GET'' \<and> path = ''/openapi.json'' then openapiRoute
          else if method = ''POST'' \<and> path = ''/api/v1/crm/public/identity/sign-up'' then signUpRoute
          else if method = ''POST'' \<and> path = ''/api/v1/crm/public/identity/sessions'' then signInRoute
          else if method = ''DELETE'' \<and> path = ''/api/v1/crm/public/identity/sessions/current'' then signOutRoute
          else if method = ''GET'' \<and> path = ''/api/v1/crm/public/identity/profile/me'' then getMeRoute
          else WriteJSON 404 (Some not_found_body)))"

end
