(* ===== verification/Migrate.thy ===== *)
theory Migrate
  imports Ports
begin

text \<open>
  \<open>cmd/migrate\<close> and \<open>internal/infrastructure/postgres/migrate.go\<close>: the two drivers of the schema migrations.
  \<open>database/sql\<close> with its driver and goose are outside the repository, so what they answer is a
  parameter, \<open>host\<close>, a function of the call; the calls with their arguments and the time their context leaves
  to them are the data type \<open>host_call\<close>. A call whose Go function returns no error is made for its effect only (\<open>effect\<close>). \<open>os.Exit(c)\<close> is
  the result \<open>Inl c\<close> of \<open>main\<close>. Lemmas: which calls are made, in which order, up to which failure, and
  with which exit status, for all answers of the outside code as functions of the calls so far.
\<close>

subsection \<open>The calls\<close>

datatype host_call =
    SqlOpen string string
  | OpenDBFromPool
  | DbPing ctx_timeout
  | DbExec ctx_timeout string
  | DbClose
  | GooseSetBaseFS string
  | GooseSetDialect string
  | GooseSetTableName string
  | GooseUp ctx_timeout string
  | GooseRun ctx_timeout string string "string list"
  | FprintStderr string

type_synonym 'w host = "host_call \<Rightarrow> ('w, error + unit) go"

definition effect :: "('w, error + unit) go \<Rightarrow> ('w, unit) go" where
  "effect m = bindg m (\<lambda>_. ret ())"

text \<open>\<open>fmt.Errorf("...: %w", err)\<close>; no caller looks behind the text.\<close>

definition fmt_Errorf :: "string \<Rightarrow> error \<Rightarrow> error" where
  "fmt_Errorf msg e = ErrOther (msg @ '': '' @ error_Error e)"

subsection \<open>\<open>postgres.Migrate\<close>\<close>

text \<open>The package has its own copy of the two names that \<open>cmd/migrate\<close> uses. An embedded file system is the pattern of the files in it.\<close>

definition migrationsFS :: string where "migrationsFS = ''migrations/*.sql''"
definition MigrationsFS :: string where "MigrationsFS = migrationsFS"
definition postgres_schemaName :: string where "postgres_schemaName = ''identity''"
definition postgres_gooseVersionTable :: string where "postgres_gooseVersionTable = postgres_schemaName @ ''.goose_db_version''"

definition postgres_Migrate :: "ctx_timeout \<Rightarrow> 'w host \<Rightarrow> ('w, error + unit) go" where
  "postgres_Migrate ctx host =
    seqg (effect (host OpenDBFromPool))
    (deferg (\<lambda>_. effect (host DbClose))
      (tryg (host (DbExec ctx (''CREATE SCHEMA IF NOT EXISTS '' @ postgres_schemaName))) (\<lambda>e. ret (Inl e)) (\<lambda>_.
       seqg (effect (host (GooseSetBaseFS migrationsFS)))
      (tryg (host (GooseSetDialect ''postgres'')) (\<lambda>e. ret (Inl e)) (\<lambda>_.
       seqg (effect (host (GooseSetTableName postgres_gooseVersionTable)))
       (host (GooseUp ctx ''migrations'')))))))"

subsection \<open>\<open>cmd/migrate\<close>\<close>

definition migrationsDir :: string where "migrationsDir = ''migrations''"
definition migrateTimeout :: duration where "migrateTimeout = 300 * Second"
definition schemaName :: string where "schemaName = ''identity''"
definition gooseVersionTable :: string where "gooseVersionTable = schemaName @ ''.goose_db_version''"

definition createSchema :: string where
  "createSchema = ''CREATE SCHEMA IF NOT EXISTS '' @ schemaName"

definition usage :: string where
  "usage = concat (map (\<lambda>l. l @ [CHR 10])
    [''migrate '' @ [CHR 0xE2, CHR 0x80, CHR 0x94] @ '' 1klas-identity migration runner'',
     '''',
     ''Usage:'',
     ''  migrate              # equivalent to '' @ [CHR 0x22] @ ''migrate up'' @ [CHR 0x22],
     ''  migrate up           # apply all pending migrations'',
     ''  migrate up-to <ver>  # apply through the given version'',
     ''  migrate down         # roll back the most recent migration'',
     ''  migrate status       # print applied / pending state'',
     ''  migrate version      # print current schema version'',
     '''',
     ''Env:'',
     ''  POSTGRES_URL  required, pgx-compatible DSN'',
     '''',
     ''Exits non-zero on any failure (so DO pre-deploy job blocks the release).'',
     ''A 5-minute deadline is applied to the whole operation.''])"

fun parseArgs :: "string list \<Rightarrow> string \<times> string list" where
  "parseArgs [] = (''up'', [])"
| "parseArgs (cmd # rest) = (if cmd = '''' then (''up'', []) else (cmd, rest))"

text \<open>The attributes of a log line are texts; a slice is the text that \<open>fmt\<close> gives it.\<close>

fun args_text :: "string list \<Rightarrow> string" where
  "args_text [] = ''''"
| "args_text [a] = a"
| "args_text (a # b # rest) = a @ '' '' @ args_text (b # rest)"

definition migrate_run :: "('a rt_scheme) host \<Rightarrow> (string \<Rightarrow> string) \<Rightarrow> string list \<Rightarrow> ('a rt_scheme, error + unit) go" where
  "migrate_run host getenv osArgs =
    (let dsn = getenv ''POSTGRES_URL''; ctx = WithTimeout None migrateTimeout in
     if dsn = '''' then ret (Inl (ErrOther ''POSTGRES_URL is required''))
     else
       tryg (host (SqlOpen ''pgx'' dsn)) (\<lambda>e. ret (Inl (fmt_Errorf ''opening database'' e))) (\<lambda>_.
       deferg (\<lambda>_. effect (host DbClose))
        (tryg (host (DbPing ctx)) (\<lambda>e. ret (Inl (fmt_Errorf ''pinging database'' e))) (\<lambda>_.
         tryg (host (DbExec ctx createSchema))
           (\<lambda>e. ret (Inl (fmt_Errorf (''bootstrapping schema '' @ [CHR 0x22] @ schemaName @ [CHR 0x22]) e))) (\<lambda>_.
         seqg (effect (host (GooseSetBaseFS MigrationsFS)))
        (tryg (host (GooseSetDialect ''postgres'')) (\<lambda>e. ret (Inl (fmt_Errorf ''setting goose dialect'' e))) (\<lambda>_.
         seqg (effect (host (GooseSetTableName gooseVersionTable)))
        (if osArgs = [] then panicg ''runtime error: slice bounds out of range [1:0]''
         else let (command, args) = parseArgs (tl osArgs) in
           seqg (slog Info ''starting migration'' [(''command'', command), (''args'', ''['' @ args_text args @ '']''), (''timeout'', ''5m0s'')])
          (tryg (host (GooseRun ctx command migrationsDir args))
             (\<lambda>e. ret (Inl (fmt_Errorf (''goose '' @ command) e))) (\<lambda>_.
           seqg (slog Info ''migration completed'' [(''command'', command)]) (ret (Inr ()))))))))))))"

definition migrate_main :: "('a rt_scheme) host \<Rightarrow> (string \<Rightarrow> string) \<Rightarrow> string list \<Rightarrow> ('a rt_scheme, int + unit) go" where
  "migrate_main host getenv osArgs =
    (if length osArgs > 1 \<and> osArgs ! 1 \<in> set [''-h'', ''--help'', ''help'']
     then seqg (effect (host (FprintStderr usage))) (ret (Inr ()))
     else
       tryg (migrate_run host getenv osArgs)
         (\<lambda>e. seqg (slog Error ''migration failed'' [(''error'', error_Error e)]) (ret (Inl 1)))
         (\<lambda>_. ret (Inr ())))"

subsection \<open>The calls that are made\<close>

text \<open>A world that remembers the calls. \<open>answer\<close>, any function of the calls so far and of the call, says what the
  outside code does: it may return an error or panic at any point.\<close>

record hosted = rt +
  ho_calls :: "host_call list"

type_synonym answers = "host_call list \<Rightarrow> host_call \<Rightarrow> (error + unit) outcome"

definition traced :: "answers \<Rightarrow> hosted host" where
  "traced answer c w = (answer (ho_calls w) c, w\<lparr>ho_calls := ho_calls w @ [c]\<rparr>)"

text \<open>A call goes well if it returns, and without an error where the code looks at the error.\<close>

definition for_effect :: "host_call \<Rightarrow> bool" where
  "for_effect c = (case c of OpenDBFromPool \<Rightarrow> True | GooseSetBaseFS _ \<Rightarrow> True | GooseSetTableName _ \<Rightarrow> True
     | DbClose \<Rightarrow> True | FprintStderr _ \<Rightarrow> True | _ \<Rightarrow> False)"

definition goes_well :: "answers \<Rightarrow> host_call list \<Rightarrow> host_call \<Rightarrow> bool" where
  "goes_well answer h c = (case answer h c of Ret (Inr _) \<Rightarrow> True | Ret (Inl _) \<Rightarrow> for_effect c | Panic _ \<Rightarrow> False)"

text \<open>The reference: a script is carried out up to and including its first call that does not go well.\<close>

fun carried_out :: "answers \<Rightarrow> host_call list \<Rightarrow> host_call list \<Rightarrow> host_call list" where
  "carried_out answer h [] = []"
| "carried_out answer h (c # cs) = c # (if goes_well answer h c then carried_out answer (h @ [c]) cs else [])"

fun all_well :: "answers \<Rightarrow> host_call list \<Rightarrow> host_call list \<Rightarrow> bool" where
  "all_well answer h [] = True"
| "all_well answer h (c # cs) = (goes_well answer h c \<and> all_well answer (h @ [c]) cs)"

definition bootstrap :: "ctx_timeout \<Rightarrow> host_call list" where
  "bootstrap ctx = [DbExec ctx ''CREATE SCHEMA IF NOT EXISTS identity'', GooseSetBaseFS ''migrations/*.sql'', GooseSetDialect ''postgres'',
     GooseSetTableName ''identity.goose_db_version'']"

lemma constants:
  "createSchema = ''CREATE SCHEMA IF NOT EXISTS identity''" "gooseVersionTable = ''identity.goose_db_version''"
  "''CREATE SCHEMA IF NOT EXISTS '' @ postgres_schemaName = ''CREATE SCHEMA IF NOT EXISTS identity''"
  "postgres_gooseVersionTable = ''identity.goose_db_version''" "MigrationsFS = ''migrations/*.sql''" "migrationsFS = ''migrations/*.sql''"
  "WithTimeout None migrateTimeout = Some 300000000000"
  by (simp_all add: createSchema_def gooseVersionTable_def schemaName_def postgres_gooseVersionTable_def postgres_schemaName_def
      MigrationsFS_def migrationsFS_def WithTimeout_def migrateTimeout_def Second_def)

text \<open>A computation follows a script when it makes the calls of the script in order, stops at the first one that does not
  go well, and succeeds exactly when all went well.\<close>

definition follows :: "answers \<Rightarrow> host_call list \<Rightarrow> (hosted, error + unit) go \<Rightarrow> bool" where
  "follows answer cs m = (\<forall>w. case m w of (r, w') \<Rightarrow>
     ho_calls w' = ho_calls w @ carried_out answer (ho_calls w) cs \<and> (r = Ret (Inr ()) \<longleftrightarrow> all_well answer (ho_calls w) cs))"

lemma follows_call: "\<not> for_effect c \<Longrightarrow> follows answer [c] (traced answer c)"
  by (auto simp: follows_def traced_def goes_well_def split: outcome.splits sum.splits)

lemma follows_ret: "follows answer [] (ret (Inr ()))"
  by (simp add: follows_def ret_def)

lemma follows_slog: "follows answer cs m \<Longrightarrow> follows answer cs (seqg (slog l msg attrs) m)"
  by (auto simp: follows_def seqg_def bindg_def slog_def modifies_def split: prod.splits)

lemma follows_try:
  assumes "\<not> for_effect c" "follows answer cs m"
  shows "follows answer (c # cs) (tryg (traced answer c) (\<lambda>e. ret (Inl (f e))) (\<lambda>_. m))"
  using assms by (auto simp: follows_def tryg_def bindg_def ret_def traced_def goes_well_def split: outcome.splits sum.splits prod.splits)

lemma follows_effect:
  assumes "for_effect c" "follows answer cs m"
  shows "follows answer (c # cs) (seqg (effect (traced answer c)) m)"
  using assms
  by (auto simp: follows_def seqg_def effect_def bindg_def ret_def traced_def goes_well_def split: outcome.splits sum.splits prod.splits)

lemma outcome_sum_cases: "(\<And>e. r = Ret (Inl e) \<Longrightarrow> P) \<Longrightarrow> (\<And>x. r = Ret (Inr x) \<Longrightarrow> P) \<Longrightarrow> (\<And>p. r = Panic p \<Longrightarrow> P) \<Longrightarrow> P"
  by (metis outcome.exhaust sum.exhaust)

lemma run_effect:
  "seqg (effect (traced answer c)) m w =
    (case answer (ho_calls w) c of Ret _ \<Rightarrow> m (w\<lparr>ho_calls := ho_calls w @ [c]\<rparr>)
     | Panic p \<Rightarrow> (Panic p, w\<lparr>ho_calls := ho_calls w @ [c]\<rparr>))"
  by (simp add: seqg_def effect_def bindg_def ret_def traced_def split: outcome.split)

lemma run_try:
  "tryg (traced answer c) f k w =
    (case answer (ho_calls w) c of Ret (Inl e) \<Rightarrow> f e (w\<lparr>ho_calls := ho_calls w @ [c]\<rparr>)
     | Ret (Inr _) \<Rightarrow> k () (w\<lparr>ho_calls := ho_calls w @ [c]\<rparr>) | Panic p \<Rightarrow> (Panic p, w\<lparr>ho_calls := ho_calls w @ [c]\<rparr>))"
  by (simp add: tryg_def bindg_def traced_def split: outcome.split sum.split)

lemma follows_closing:
  assumes "follows answer cs m" "deferg (\<lambda>_. effect (traced answer DbClose)) m w = (r, w')"
  shows "ho_calls w' = ho_calls w @ carried_out answer (ho_calls w) cs @ [DbClose]
    \<and> (r = Ret (Inr ()) \<longleftrightarrow> all_well answer (ho_calls w) cs
         \<and> goes_well answer (ho_calls w @ carried_out answer (ho_calls w) cs) DbClose)"
proof -
  obtain r1 w1 where m: "m w = (r1, w1)" by fastforce
  with assms(1) have f: "ho_calls w1 = ho_calls w @ carried_out answer (ho_calls w) cs"
    "r1 = Ret (Inr ()) \<longleftrightarrow> all_well answer (ho_calls w) cs"
    by (auto simp: follows_def split: prod.splits)
  from assms(2) m f(2) show ?thesis
    by (auto simp: deferg_def effect_def bindg_def ret_def traced_def f(1) goes_well_def for_effect_def
        split: outcome.splits sum.splits)
qed

definition migrate_script :: "string list \<Rightarrow> host_call list" where
  "migrate_script argv = (let ctx = Some 300000000000 in
     DbPing ctx # bootstrap ctx @ [case parseArgs argv of (command, args) \<Rightarrow> GooseRun ctx command ''migrations'' args])"

lemma checked:
  "\<not> for_effect (SqlOpen d s)" "\<not> for_effect (DbPing x)" "\<not> for_effect (DbExec x s)" "\<not> for_effect (GooseSetDialect s)" "\<not> for_effect (GooseUp x s)"
  "\<not> for_effect (GooseRun x s d args)" "for_effect OpenDBFromPool" "for_effect (GooseSetBaseFS s)" "for_effect (GooseSetTableName s)"
  "for_effect DbClose" "for_effect (FprintStderr s)"
  by (simp_all add: for_effect_def)

lemma migrate_run_traced:
  assumes "getenv ''POSTGRES_URL'' \<noteq> ''''"
  defines "c \<equiv> SqlOpen ''pgx'' (getenv ''POSTGRES_URL'')"
  shows "\<exists>m e. migrate_run (traced answer) getenv (prog # argv) =
      tryg (traced answer c) (\<lambda>x. ret (Inl (e x))) (\<lambda>_. deferg (\<lambda>_. effect (traced answer DbClose)) m)
    \<and> follows answer (migrate_script argv) m"
proof -
  obtain command args where p: "parseArgs argv = (command, args)" by fastforce
  show ?thesis
    using assms(1) unfolding migrate_run_def Let_def c_def constants if_not_P [OF assms(1)]
    apply (intro exI conjI)
     apply (rule refl)
    by (simp add: migrate_script_def Let_def bootstrap_def p migrationsDir_def)
       (intro follows_try follows_effect follows_slog follows_ret checked)
qed

text \<open>C37: the migration job does its calls in order and reports the truth. For all answers of the database and of
  goose, panics included: without a help flag, \<open>migrate\<close> makes exactly the calls of its script (open, ping, create the
  schema, the settings of goose with the version table inside that schema, the command) up to and
  including the first one that fails, all of them under the same deadline of five minutes, and closes the database on every path once it is open. The exit
  status is 0 exactly when everything went well (or the usage was printed), and otherwise 1 unless outside code
  panicked.\<close>

theorem migrate_script_exit:
  "case migrate_main (traced answer) getenv (prog # argv) w of (r, w') \<Rightarrow>
    let h = ho_calls w; dsn = getenv ''POSTGRES_URL''; opening = SqlOpen ''pgx'' dsn; opened = goes_well answer h opening;
        made = carried_out answer (h @ [opening]) (migrate_script argv)
    in if argv \<noteq> [] \<and> hd argv \<in> {''-h'', ''--help'', ''help''}
       then ho_calls w' = h @ [FprintStderr usage] \<and> (r = Ret (Inr ()) \<longleftrightarrow> goes_well answer h (FprintStderr usage))
       else ho_calls w' = h @ (if dsn = '''' then [] else if opened then opening # made @ [DbClose] else [opening])
         \<and> (r = Ret (Inr ()) \<longleftrightarrow> dsn \<noteq> '''' \<and> opened \<and> all_well answer (h @ [opening]) (migrate_script argv)
              \<and> goes_well answer (h @ opening # made) DbClose)
         \<and> (r = Ret (Inr ()) \<or> r = Ret (Inl 1) \<or> (\<exists>p. r = Panic p))"
proof (cases "argv \<noteq> [] \<and> hd argv \<in> {''-h'', ''--help'', ''help''}")
  case True
  then show ?thesis
    by (cases argv) (auto simp: migrate_main_def effect_def seqg_def bindg_def ret_def traced_def goes_well_def checked
        split: outcome.splits sum.splits)
next
  case False
  then have "\<not> (length (prog # argv) > 1 \<and> (prog # argv) ! 1 \<in> set [''-h'', ''--help'', ''help''])" by (cases argv) auto
  note main = migrate_main_def [of "traced answer" getenv "prog # argv", unfolded if_not_P [OF this]]
  show ?thesis
  proof (cases "getenv ''POSTGRES_URL'' = ''''")
    case True
    with False show ?thesis
      by (simp add: main migrate_run_def tryg_def bindg_def seqg_def slog_def modifies_def ret_def)
  next
    case dsn: False
    let ?c = "SqlOpen ''pgx'' (getenv ''POSTGRES_URL'')"
    let ?w = "w\<lparr>ho_calls := ho_calls w @ [?c]\<rparr>"
    from migrate_run_traced [of getenv, OF dsn, of answer prog argv] obtain m e where
      run: "migrate_run (traced answer) getenv (prog # argv) =
        tryg (traced answer ?c) (\<lambda>x. ret (Inl (e x))) (\<lambda>_. deferg (\<lambda>_. effect (traced answer DbClose)) m)"
      and f: "follows answer (migrate_script argv) m" by blast
    obtain r1 w1 where d: "deferg (\<lambda>_. effect (traced answer DbClose)) m ?w = (r1, w1)" by fastforce
    note close = follows_closing [OF f d]
    define S where "S = migrate_script argv"
    note close' = close [folded S_def]
    have "case migrate_run (traced answer) getenv (prog # argv) w of (r2, w2) \<Rightarrow>
        ho_calls w2 = ho_calls w @ (if goes_well answer (ho_calls w) ?c
           then ?c # carried_out answer (ho_calls w @ [?c]) S @ [DbClose] else [?c])
        \<and> (r2 = Ret (Inr ()) \<longleftrightarrow> goes_well answer (ho_calls w) ?c \<and> all_well answer (ho_calls w @ [?c]) S
              \<and> goes_well answer (ho_calls w @ ?c # carried_out answer (ho_calls w @ [?c]) S) DbClose)"
      using close'
      by (cases "answer (ho_calls w) ?c" rule: outcome_sum_cases)
         (simp_all add: run run_try d ret_def goes_well_def [of answer "ho_calls w" ?c] checked)
    moreover obtain r2 w2 where "migrate_run (traced answer) getenv (prog # argv) w = (r2, w2)" by fastforce
    ultimately show ?thesis
      using dsn False unfolding main Let_def tryg_def bindg_def S_def [symmetric]
      by (cases r2 rule: outcome_sum_cases) (simp_all add: seqg_def bindg_def slog_def modifies_def ret_def)
  qed
qed

text \<open>C38: migrations on boot. \<open>postgres.Migrate\<close> makes the same bootstrap calls as the migration job (the
  schema and the version table that the two packages name separately agree), then \<open>goose up\<close> under the deadline of its caller, stops at the first failure, always closes its handle, and succeeds exactly when all went well.\<close>

theorem boot_migrations:
  "case postgres_Migrate ctx (traced answer) w of (r, w') \<Rightarrow>
    let h = ho_calls w; script = bootstrap ctx @ [GooseUp ctx ''migrations'']; made = carried_out answer (h @ [OpenDBFromPool]) script
    in ho_calls w' = h @ OpenDBFromPool # (if goes_well answer h OpenDBFromPool then made @ [DbClose] else [])
       \<and> (r = Ret (Inr ()) \<longleftrightarrow> goes_well answer h OpenDBFromPool \<and> all_well answer (h @ [OpenDBFromPool]) script
            \<and> goes_well answer (h @ OpenDBFromPool # made) DbClose)"
proof -
  let ?w = "w\<lparr>ho_calls := ho_calls w @ [OpenDBFromPool]\<rparr>"
  have "\<exists>m. postgres_Migrate ctx (traced answer) = seqg (effect (traced answer OpenDBFromPool))
      (deferg (\<lambda>_. effect (traced answer DbClose)) m) \<and> follows answer (bootstrap ctx @ [GooseUp ctx ''migrations'']) m"
    unfolding postgres_Migrate_def constants unfolding bootstrap_def append.simps
    by (intro exI conjI, rule refl) (intro follows_try follows_effect follows_call checked)
  then obtain m where run: "postgres_Migrate ctx (traced answer) = seqg (effect (traced answer OpenDBFromPool))
      (deferg (\<lambda>_. effect (traced answer DbClose)) m)"
    and f: "follows answer (bootstrap ctx @ [GooseUp ctx ''migrations'']) m" by blast
  obtain r1 w1 where d: "deferg (\<lambda>_. effect (traced answer DbClose)) m ?w = (r1, w1)" by fastforce
  note close = follows_closing [OF f d]
  show ?thesis
  proof (cases "answer (ho_calls w) OpenDBFromPool")
    case (Ret x)
    then have "goes_well answer (ho_calls w) OpenDBFromPool" by (simp add: goes_well_def checked split: sum.split)
    with Ret close show ?thesis by (simp add: run Let_def run_effect d)
  qed (simp add: run Let_def run_effect goes_well_def)
qed

end
