(* ===== verification/Server.thy ===== *)
theory Server
  imports Handlers Migrate Config
begin

text \<open>
  \<open>cmd/server\<close>: the process that loads the configuration, connects, wires the components and serves. What the
  process finds outside the repository is the record \<open>environment\<close>: the environment variables, the
  global tracer of OpenTelemetry, the connection pool of pgx, the parser of URLs and the constructor of go-redis, \<open>database/sql\<close> with goose, and the
  HTTP engine (\<open>listen\<close> runs a server until a signal arrives, \<open>None\<close>, or the engine fails). \<open>InitTracing\<close> is \<open>internal/observability\<close>. \<open>os.Exit(c)\<close> is the
  result \<open>Inl c\<close>; it skips the deferred calls, which a return and a panic run. Lemmas: the process serves only
  when everything it needs is there, and then the handler is that of the router over the production adapters.
\<close>

subsection \<open>The wiring\<close>

definition config_Error :: "config_error \<Rightarrow> string" where
  "config_Error e = (case e of
     config_ErrMissingPostgresURL \<Rightarrow> ''config: POSTGRES_URL is required''
   | config_ErrInvalidInt \<Rightarrow> ''config: invalid integer env var''
   | config_ErrMissingAllowedOrigins \<Rightarrow> ''config: ALLOWED_ORIGINS is required (CSRF allow-list)''
   | config_ErrMissingValkeyURL \<Rightarrow> ''config: VALKEY_URL is required (session cache)'')"

definition sign_in_Error :: "sign_in_error \<Rightarrow> string" where
  "sign_in_Error e = (case e of
     sign_in_ErrInvalidCredentials \<Rightarrow> ''sign_in: invalid credentials''
   | sign_in_ErrInvalidEmail \<Rightarrow> ''sign_in: invalid email''
   | sign_in_ErrInternal \<Rightarrow> ''sign_in: internal'')"

definition server_valkey :: "Config \<Rightarrow> valkey_Config" where
  "server_valkey cfg = \<lparr>vc_URL = ValkeyURL cfg, vc_DialTimeout = ValkeyDialTimeout cfg, vc_OpTimeout = ValkeyOpTimeout cfg,
     vc_Logger = False\<rparr>"

definition server_params :: "Config \<Rightarrow> Params" where
  "server_params cfg = \<lparr>MemoryKiB = Argon2MemoryKiB cfg, Time = Argon2Time cfg, Parallelism = Argon2Parallel cfg,
     SaltLen = 16, KeyLen = 32\<rparr>"

definition server_Deps ::
  "uuid_lib \<Rightarrow> argon2_kdf \<Rightarrow> string \<Rightarrow> Config \<Rightarrow> 'p pgx \<Rightarrow> 'k SessionCache \<Rightarrow> (('p, 'k) world) sign_in_UseCase \<Rightarrow>
    (('p, 'k) world) Deps" where
  "server_Deps ul kdf stack cfg pool cache signInUC =
    (let uow = pg_UnitOfWork pool; userRepo = pg_UserRepository pool; sessionRepo = pg_SessionRepository pool;
         outboxRepo = pg_OutboxRepository pool; cache = Some (valkey_SessionCache cache ul);
         hasher = argon2_Hasher kdf (server_params cfg); tokGen = opaque_Generator; clk = clock_Real
     in \<lparr>dep_SignUp = sign_up_New uow userRepo sessionRepo outboxRepo cache hasher tokGen clk (SessionTTL cfg),
         dep_SignIn = signInUC,
         dep_SignOut = sign_out_New uow sessionRepo outboxRepo cache clk,
         dep_GetMe = get_me_New userRepo,
         dep_Sessions = sessionRepo,
         dep_Cache = cache,
         dep_Cookie = \<lparr>cookie_Secure = CookieSecure cfg\<rparr>,
         dep_Recover = Recover stack,
         dep_AccessLog = AccessLog ul,
         dep_Origin = OriginCheck (AllowedOrigins cfg),
         dep_OTel = OTelTrace,
         dep_SessionMW = SessionMW sessionRepo cache\<rparr>)"

definition server_sign_in ::
  "uuid_lib \<Rightarrow> argon2_kdf \<Rightarrow> Config \<Rightarrow> 'p pgx \<Rightarrow> 'k SessionCache \<Rightarrow>
    (('p, 'k) world, sign_in_error + (('p, 'k) world) sign_in_UseCase) go" where
  "server_sign_in ul kdf cfg pool cache =
    sign_in_New (pg_UnitOfWork pool) (pg_UserRepository pool) (pg_SessionRepository pool) (pg_OutboxRepository pool)
      (Some (valkey_SessionCache cache ul)) (argon2_Hasher kdf (server_params cfg)) opaque_Generator
      clock_Real (SessionTTL cfg)"

subsection \<open>The process\<close>

text \<open>The HTTP server with its settings.\<close>

record 'w fasthttp_Server =
  fs_Handler :: "'w RequestHandler"
  fs_Name :: string
  fs_ReadTimeout :: duration
  fs_WriteTimeout :: duration
  fs_IdleTimeout :: duration
  fs_MaxRequestBodySize :: int

definition server_srv :: "'w RequestHandler \<Rightarrow> 'w fasthttp_Server" where
  "server_srv handler = \<lparr>fs_Handler = handler, fs_Name = ''1klas-identity'', fs_ReadTimeout = 35 * Second,
     fs_WriteTimeout = 35 * Second, fs_IdleTimeout = 120 * Second, fs_MaxRequestBodySize = 1048576\<rparr>"

datatype TracerProvider = NoopTracerProvider

record ('p, 'k, 'o) environment =
  os_Getenv :: "string \<Rightarrow> string"
  otel_SetTracerProvider :: "TracerProvider \<Rightarrow> (('p, 'k) world, unit) go"
  pgxpool_New :: "string \<Rightarrow> (('p, 'k) world, error + 'p pgx) go"
  pool_Close :: "(('p, 'k) world, unit) go"
  sql_host :: "(('p, 'k) world) host"
  redis_ParseURL :: "string \<Rightarrow> error + 'o redis_Options"
  redis_NewClient :: "'o redis_Options \<Rightarrow> 'k redis"
  listen :: "(('p, 'k) world) fasthttp_Server \<Rightarrow> string \<Rightarrow> (('p, 'k) world, error option) go"
  shutdown :: "(('p, 'k) world) fasthttp_Server \<Rightarrow> ctx_timeout \<Rightarrow> (('p, 'k) world, error + unit) go"
  deadline_exceeded :: "error \<Rightarrow> bool"

definition InitTracing :: "('p, 'k, 'o) environment \<Rightarrow> (('p, 'k) world, TracerProvider) go" where
  "InitTracing env = (let tp = NoopTracerProvider in seqg (otel_SetTracerProvider env tp) (ret tp))"

definition die :: "string \<Rightarrow> string \<Rightarrow> ('a rt_scheme, int + 'b) go" where
  "die msg err = seqg (slog Error msg [(''error'', err)]) (ret (Inl 1))"

text \<open>A deferred call of \<open>main\<close>.\<close>

definition defer_main :: "('w, unit) go \<Rightarrow> ('w, int + 'a) go \<Rightarrow> ('w, int + 'a) go" where
  "defer_main d = deferg (\<lambda>r. case r of Ret (Inl _) \<Rightarrow> ret () | _ \<Rightarrow> d)"

definition server_boot ::
  "('p, 'k, 'o) environment \<Rightarrow> uuid_lib \<Rightarrow> argon2_kdf \<Rightarrow> string \<Rightarrow> string \<Rightarrow>
    (Config \<Rightarrow> (('p, 'k) world) RequestHandler \<Rightarrow> (('p, 'k) world, int + unit) go) \<Rightarrow> (('p, 'k) world, int + unit) go" where
  "server_boot env ul kdf spec stack run =
    bindg (InitTracing env) (\<lambda>_.
     case Load (os_Getenv env) of
       Inl err \<Rightarrow> die ''config load failed'' (config_Error err)
     | Inr cfg \<Rightarrow>
       tryg (pgxpool_New env (PostgresURL cfg)) (\<lambda>err. die ''pgx pool init failed'' (error_Error err)) (\<lambda>pool.
       defer_main (pool_Close env)
        (tryg (if RunMigrationsOnBoot cfg then postgres_Migrate (WithTimeout None (60 * Second)) (sql_host env) else ret (Inr ()))
           (\<lambda>err. die ''migrations failed'' (error_Error err)) (\<lambda>_.
         case valkey_New (redis_ParseURL env) (redis_NewClient env) (server_valkey cfg) of
           Inl err \<Rightarrow> die ''valkey init failed'' (error_Error err)
         | Inr cache \<Rightarrow>
           defer_main (bindg (valkey_Close cache) (\<lambda>_. ret ()))
            (tryg (valkey_Ping cache (WithTimeout None (3 * Second))) (\<lambda>err. die ''valkey ping failed'' (error_Error err)) (\<lambda>_.
             tryg (server_sign_in ul kdf cfg pool cache) (\<lambda>err. die ''sign_in init failed'' (sign_in_Error err)) (\<lambda>signInUC.
             run cfg (NewHandler ul spec (server_Deps ul kdf stack cfg pool cache signInUC)))))))))"

definition shutdownGrace :: duration where
  "shutdownGrace = 10 * Second"

definition server_serve ::
  "('p, 'k, 'o) environment \<Rightarrow> Config \<Rightarrow> (('p, 'k) world) RequestHandler \<Rightarrow> (('p, 'k) world, int + unit) go" where
  "server_serve env cfg handler =
    (let srv = server_srv handler in
    seqg (slog Info ''identity listening'' [(''addr'', Addr cfg)])
    (bindg (listen env srv (Addr cfg)) (\<lambda>failure.
     case failure of
       Some err \<Rightarrow> die ''server error'' (error_Error err)
     | None \<Rightarrow>
       seqg (slog Info ''shutting down'' [])
       (tryg (shutdown env srv (WithTimeout None shutdownGrace))
         (\<lambda>err. if deadline_exceeded env err then ret (Inr ()) else die ''graceful shutdown failed'' (error_Error err))
         (\<lambda>_. ret (Inr ()))))))"

definition server_main ::
  "('p, 'k, 'o) environment \<Rightarrow> uuid_lib \<Rightarrow> argon2_kdf \<Rightarrow> string \<Rightarrow> string \<Rightarrow> (('p, 'k) world, int + unit) go" where
  "server_main env ul kdf spec stack = server_boot env ul kdf spec stack (server_serve env)"

subsection \<open>What the process serves\<close>

lemma die_result: "die msg err w = (Ret (Inl 1), w\<lparr>rt_logs := rt_logs w @ [\<lparr>log_level = Error, log_msg = msg, log_attrs = [(''error'', err)]\<rparr>]\<rparr>)"
  by (simp add: die_def seqg_def bindg_def slog_def modifies_def ret_def)

text \<open>A cost of zero passes or zero lanes does not survive the hash that \<open>sign_in.New\<close> computes.\<close>

lemma server_sign_in_params:
  assumes "\<And>pw salt t m p n. t = 0 \<or> p = 0 \<Longrightarrow> kdf pw salt t m p n = None"
    and "server_sign_in ul kdf cfg pool cache w = (Ret (Inr uc), w')"
  shows "Argon2Time cfg \<noteq> 0 \<and> Argon2Parallel cfg \<noteq> 0"
proof (rule ccontr)
  assume "\<not> ?thesis"
  then have "kdf pw salt (Time (server_params cfg)) m (Parallelism (server_params cfg)) n = None" for pw salt m n
    using assms(1) by (auto simp: server_params_def)
  then have "wp (server_sign_in ul kdf cfg pool cache) (\<lambda>r _. \<forall>uc. r \<noteq> Ret (Inr uc)) w"
    by (auto simp: server_sign_in_def sign_in_New_def argon2_Hasher_def argon2_Hash_def wp_simps PasswordMaxLen_def split: option.splits)
  with assms(2) show False by (simp add: wp_def)
qed

text \<open>\<open>stops F w\<close>: the process ends before it calls its continuation, with exit status 1 or a panic.\<close>

definition stops :: "(('c \<Rightarrow> ('w, int + 'a) go)) \<Rightarrow> 'w \<Rightarrow> bool" where
  "stops F w = (\<exists>r w'. (r = Ret (Inl 1) \<or> (\<exists>p. r = Panic p)) \<and> (\<forall>k. F k w = (r, w')))"

lemma stops_die: "stops (\<lambda>k. die msg err) w"
  by (auto simp: stops_def die_result)

lemma not_stops_try:
  assumes "\<not> stops (\<lambda>k. tryg m (\<lambda>e. die msg (txt e)) (f k)) w"
  obtains a w' where "m w = (Ret (Inr a), w')" "\<not> stops (\<lambda>k. f k a) w'"
proof -
  obtain r w' where m: "m w = (r, w')" by fastforce
  show ?thesis
  proof (cases r rule: outcome_sum_cases)
    case (2 a)
    with m assms have "\<not> stops (\<lambda>k. f k a) w'" by (simp add: stops_def tryg_def bindg_def)
    with m 2 that show ?thesis by blast
  qed (use assms m in \<open>auto simp: stops_def tryg_def bindg_def die_result\<close>)
qed

lemma not_stops_defer:
  assumes "\<not> stops (\<lambda>k. defer_main d (F k)) w"
  shows "\<not> stops F w"
proof
  assume "stops F w"
  then obtain r w' where r: "r = Ret (Inl 1) \<or> (\<exists>p. r = Panic p)" and F: "\<And>k. F k w = (r, w')" by (auto simp: stops_def)
  obtain x w'' where d: "d w' = (x, w'')" by fastforce
  from r have "stops (\<lambda>k. defer_main d (F k)) w"
  proof
    assume "r = Ret (Inl 1)"
    then show ?thesis by (auto simp: stops_def defer_main_def deferg_def F ret_def)
  next
    assume "\<exists>p. r = Panic p"
    then show ?thesis by (cases x) (auto simp: stops_def defer_main_def deferg_def F d)
  qed
  with assms show False by blast
qed

lemma defer_main_cong: "m w = m' w' \<Longrightarrow> defer_main d m w = defer_main d m' w'"
  by (simp add: defer_main_def deferg_def)

lemma try_ok: "m w = (Ret (Inr a), w') \<Longrightarrow> tryg m e f w = f a w'"
  by (simp add: tryg_def bindg_def)

text \<open>C34: fail fast. The process either ends, with exit status 1 or a panic, before anything is served, or everything it
  needs is there: a valid configuration with at least one pass and one lane of Argon2id, a pool, the
  migrations if they were asked for, a cache client that has answered a ping, and the hash for the timing
  protection of sign-in. In the second case what it serves is the router over the adapters of the production
  environment with the parameters of the configuration, and on return the cache and then the pool are
  closed. The hypothesis is the documented behaviour of the KDF: it panics on zero passes or lanes.\<close>

theorem boot_fails_fast:
  fixes env :: "('p, 'k, 'o) environment" and w :: "('p, 'k) world"
  assumes "\<And>pw salt t m p n. t = 0 \<or> p = 0 \<Longrightarrow> kdf pw salt t m p n = None"
  shows "(\<exists>r w'. (r = Ret (Inl 1) \<or> (\<exists>p. r = Panic p)) \<and> (\<forall>run. server_boot env ul kdf spec stack run w = (r, w')))
    \<or> (\<exists>cfg pool cache uc w0 w1 w2 w3 w4.
        InitTracing env w = (Ret NoopTracerProvider, w0) \<and> Load (os_Getenv env) = Inr cfg \<and> Argon2Time cfg \<noteq> 0 \<and> Argon2Parallel cfg \<noteq> 0
      \<and> pgxpool_New env (PostgresURL cfg) w0 = (Ret (Inr pool), w1)
      \<and> (if RunMigrationsOnBoot cfg then postgres_Migrate (WithTimeout None (60 * Second)) (sql_host env) else ret (Inr ())) w1 = (Ret (Inr ()), w2)
      \<and> valkey_New (redis_ParseURL env) (redis_NewClient env) (server_valkey cfg) = Inr cache
      \<and> valkey_Ping cache (WithTimeout None (3 * Second)) w2 = (Ret (Inr ()), w3)
      \<and> server_sign_in ul kdf cfg pool cache w3 = (Ret (Inr uc), w4)
      \<and> (\<forall>run. server_boot env ul kdf spec stack run w =
          defer_main (pool_Close env) (defer_main (bindg (valkey_Close cache) (\<lambda>_. ret ()))
            (run cfg (NewHandler ul spec (server_Deps ul kdf stack cfg pool cache uc)))) w4))"
proof (cases "stops (\<lambda>run. server_boot env ul kdf spec stack run) w")
  case True
  then show ?thesis unfolding stops_def by (rule disjI1)
next
  case False
  obtain w0 where tracing: "InitTracing env w = (Ret NoopTracerProvider, w0)"
    using False by (auto simp: server_boot_def stops_def InitTracing_def seqg_def bindg_def ret_def split: prod.splits outcome.splits)
  from False have n0: "\<not> stops (\<lambda>run :: Config \<Rightarrow> (('p, 'k) world) RequestHandler \<Rightarrow> (('p, 'k) world, int + unit) go.
      case Load (os_Getenv env) of
       Inl err \<Rightarrow> die ''config load failed'' (config_Error err)
     | Inr cfg \<Rightarrow>
       tryg (pgxpool_New env (PostgresURL cfg)) (\<lambda>err. die ''pgx pool init failed'' (error_Error err)) (\<lambda>pool.
       defer_main (pool_Close env)
        (tryg (if RunMigrationsOnBoot cfg then postgres_Migrate (WithTimeout None (60 * Second)) (sql_host env) else ret (Inr ()))
           (\<lambda>err. die ''migrations failed'' (error_Error err)) (\<lambda>_.
         case valkey_New (redis_ParseURL env) (redis_NewClient env) (server_valkey cfg) of
           Inl err \<Rightarrow> die ''valkey init failed'' (error_Error err)
         | Inr cache \<Rightarrow>
           defer_main (bindg (valkey_Close cache) (\<lambda>_. ret ()))
            (tryg (valkey_Ping cache (WithTimeout None (3 * Second))) (\<lambda>err. die ''valkey ping failed'' (error_Error err)) (\<lambda>_.
             tryg (server_sign_in ul kdf cfg pool cache) (\<lambda>err. die ''sign_in init failed'' (sign_in_Error err)) (\<lambda>signInUC.
             run cfg (NewHandler ul spec (server_Deps ul kdf stack cfg pool cache signInUC))))))))) w0"
    by (simp add: server_boot_def stops_def bindg_def tracing)
  then obtain cfg where load: "Load (os_Getenv env) = Inr cfg"
    by (cases "Load (os_Getenv env)") (simp_all add: stops_die)
  from n0 [unfolded load sum.case]
  obtain pool w1 where pool: "pgxpool_New env (PostgresURL cfg) w0 = (Ret (Inr pool), w1)"
    and n1: "\<not> stops (\<lambda>run :: Config \<Rightarrow> (('p, 'k) world) RequestHandler \<Rightarrow> (('p, 'k) world, int + unit) go.
        defer_main (pool_Close env)
        (tryg (if RunMigrationsOnBoot cfg then postgres_Migrate (WithTimeout None (60 * Second)) (sql_host env) else ret (Inr ()))
           (\<lambda>err. die ''migrations failed'' (error_Error err)) (\<lambda>_.
         case valkey_New (redis_ParseURL env) (redis_NewClient env) (server_valkey cfg) of
           Inl err \<Rightarrow> die ''valkey init failed'' (error_Error err)
         | Inr cache \<Rightarrow>
           defer_main (bindg (valkey_Close cache) (\<lambda>_. ret ()))
            (tryg (valkey_Ping cache (WithTimeout None (3 * Second))) (\<lambda>err. die ''valkey ping failed'' (error_Error err)) (\<lambda>_.
             tryg (server_sign_in ul kdf cfg pool cache) (\<lambda>err. die ''sign_in init failed'' (sign_in_Error err)) (\<lambda>signInUC.
             run cfg (NewHandler ul spec (server_Deps ul kdf stack cfg pool cache signInUC)))))))) w1"
    by (rule not_stops_try) (erule (1) that)
  from not_stops_defer [OF n1] obtain u w2 where
    mig: "(if RunMigrationsOnBoot cfg then postgres_Migrate (WithTimeout None (60 * Second)) (sql_host env) else ret (Inr ())) w1 = (Ret (Inr u), w2)"
    and n2: "\<not> stops (\<lambda>run :: Config \<Rightarrow> (('p, 'k) world) RequestHandler \<Rightarrow> (('p, 'k) world, int + unit) go.
        case valkey_New (redis_ParseURL env) (redis_NewClient env) (server_valkey cfg) of
           Inl err \<Rightarrow> die ''valkey init failed'' (error_Error err)
         | Inr cache \<Rightarrow>
           defer_main (bindg (valkey_Close cache) (\<lambda>_. ret ()))
            (tryg (valkey_Ping cache (WithTimeout None (3 * Second))) (\<lambda>err. die ''valkey ping failed'' (error_Error err)) (\<lambda>_.
             tryg (server_sign_in ul kdf cfg pool cache) (\<lambda>err. die ''sign_in init failed'' (sign_in_Error err)) (\<lambda>signInUC.
             run cfg (NewHandler ul spec (server_Deps ul kdf stack cfg pool cache signInUC)))))) w2"
    by (rule not_stops_try) (erule (1) that)
  from n2 obtain cache where cache: "valkey_New (redis_ParseURL env) (redis_NewClient env) (server_valkey cfg) = Inr cache"
    by (cases "valkey_New (redis_ParseURL env) (redis_NewClient env) (server_valkey cfg)") (simp_all add: stops_die)
  from not_stops_defer [OF n2 [unfolded cache sum.case]] obtain v w3 where
    ping: "valkey_Ping cache (WithTimeout None (3 * Second)) w2 = (Ret (Inr v), w3)"
    and n3: "\<not> stops (\<lambda>run :: Config \<Rightarrow> (('p, 'k) world) RequestHandler \<Rightarrow> (('p, 'k) world, int + unit) go.
        tryg (server_sign_in ul kdf cfg pool cache) (\<lambda>err. die ''sign_in init failed'' (sign_in_Error err)) (\<lambda>signInUC.
             run cfg (NewHandler ul spec (server_Deps ul kdf stack cfg pool cache signInUC)))) w3"
    by (rule not_stops_try) (erule (1) that)
  from n3 obtain uc w4 where sign: "server_sign_in ul kdf cfg pool cache w3 = (Ret (Inr uc), w4)"
    by (rule not_stops_try) (erule that)
  have "server_boot env ul kdf spec stack run w =
      defer_main (pool_Close env) (defer_main (bindg (valkey_Close cache) (\<lambda>_. ret ()))
        (run cfg (NewHandler ul spec (server_Deps ul kdf stack cfg pool cache uc)))) w4" for run
    unfolding server_boot_def bindg_def tracing prod.case outcome.case load sum.case
    by (rule trans, rule try_ok, rule pool, rule defer_main_cong, rule trans, rule try_ok, rule mig, unfold cache sum.case,
        rule defer_main_cong, rule trans, rule try_ok, rule ping, rule try_ok, rule sign)
  moreover note server_sign_in_params [OF assms sign]
  ultimately show ?thesis
    using tracing load pool mig cache ping sign by (intro disjI2) (auto 0 0)
qed

subsection \<open>Examples\<close>

text \<open>A machine on which every outside call succeeds.\<close>

definition sample_environment :: "(string \<Rightarrow> string) \<Rightarrow> (server, kvserver, unit) environment" where
  "sample_environment g = \<lparr>os_Getenv = g, otel_SetTracerProvider = (\<lambda>tp. ret ()), pgxpool_New = (\<lambda>url. ret (Inr (ref_pgx micros))), pool_Close = ret (),
     sql_host = (\<lambda>c. ret (Inr ())),
     redis_ParseURL = (\<lambda>url. Inr \<lparr>opt_DialTimeout = 0, opt_ReadTimeout = 0, opt_WriteTimeout = 0, opt_TLSMinVersion = None, opt_rest = ()\<rparr>),
     redis_NewClient = (\<lambda>opts. ref_redis), listen = (\<lambda>srv addr. ret None), shutdown = (\<lambda>srv ctx. ret (Inr ())), deadline_exceeded = (\<lambda>e. False)\<rparr>"

text \<open>A number of passes that the conversion to 32 bits wraps to zero is accepted by \<open>Load\<close>, but never serves.\<close>

theorem boot_fails_fast_witness:
  "\<exists>r w'. (r = Ret (Inl 1) \<or> (\<exists>p. r = Panic p)) \<and>
    (\<forall>run. server_boot (sample_environment (env_of ((''ARGON2_TIME'', ''4294967296'') # sample_env)))
      canonical_uuids sample_kdf '''' '''' run (sample_world (\<lambda>_. Served)) = (r, w'))"
proof -
  let ?g = "env_of ((''ARGON2_TIME'', ''4294967296'') # sample_env)"
  have k: "sample_kdf pw salt t m p n = None" if "t = 0 \<or> p = 0" for pw salt t m p n
    using that by (auto simp: sample_kdf_def)
  have g: "os_Getenv (sample_environment ?g) = ?g" by (simp add: sample_environment_def)
  obtain cfg where "Load ?g = Inr cfg" "Argon2Time cfg = 0" using load_with_time by blast
  with boot_fails_fast [of sample_kdf "sample_environment ?g" canonical_uuids "''''" "''''" "sample_world (\<lambda>_. Served)", OF k]
  show ?thesis by (auto simp: g)
qed

end
