(* ===== verification/Coherence.thy ===== *)
theory Coherence
  imports Middleware
begin

text \<open>
  The cache and the database together. \<open>coherent\<close> says that every readable entry of the cache is the
  entry of a session row: filed under the hash of its token, with the identity of the row. Lemmas: each use
  case and the session middleware keep the invariant, whatever requests the servers lose; so it holds in
  every state the service can reach (\<open>service_run\<close>), and an identity that the middleware accepts is that
  of a row. The last section has the order of steps in which a revoked session stays in the cache.
\<close>

definition entry_of :: "(time \<Rightarrow> time) \<Rightarrow> Session \<Rightarrow> CachedSession \<Rightarrow> bool" where
  "entry_of rnd x p =
    (cs_SessionID p = session_id x \<and> cs_UserID p = session_userID x \<and> cs_TenantID p = session_tenantID x
     \<and> (cs_ExpiresAt p = session_expiresAt x \<or> rnd (cs_ExpiresAt p) = session_expiresAt x))"

definition coherent :: "(time \<Rightarrow> time) \<Rightarrow> (string \<Rightarrow> CachedSession option) \<Rightarrow> store \<Rightarrow> bool" where
  "coherent rnd c s =
    (\<forall>h p. c h = Some p \<longrightarrow> (\<exists>x \<in> set (st_sessions s). h = hex_EncodeToString (session_tokenHash x) \<and> entry_of rnd x p))"

lemma coherentD:
  assumes "coherent rnd c s" "c h = Some p"
  obtains x where "x \<in> set (st_sessions s)" "h = hex_EncodeToString (session_tokenHash x)" "entry_of rnd x p"
  using assms unfolding coherent_def by blast

lemma coherent_empty: "coherent rnd (\<lambda>_. None) s"
  by (simp add: coherent_def)

lemma coherent_shrinks:
  assumes "coherent rnd c s" "shrinks c c'"
  shows "coherent rnd c' s"
  unfolding coherent_def
proof (intro allI impI)
  fix h p
  assume p: "c' h = Some p"
  have "c' h = c h \<or> c' h = None" using assms(2) by (simp add: shrinks_def)
  with p have "c h = Some p" by simp
  with assms(1) show "\<exists>x \<in> set (st_sessions s). h = hex_EncodeToString (session_tokenHash x) \<and> entry_of rnd x p"
    by (rule coherentD) blast
qed

definition same_entry :: "Session \<Rightarrow> Session \<Rightarrow> bool" where
  "same_entry x x' = (session_tokenHash x' = session_tokenHash x \<and> session_id x' = session_id x
     \<and> session_userID x' = session_userID x \<and> session_tenantID x' = session_tenantID x
     \<and> session_expiresAt x' = session_expiresAt x)"

lemma coherent_store:
  assumes "coherent rnd c s" "\<And>x. x \<in> set (st_sessions s) \<Longrightarrow> \<exists>x' \<in> set (st_sessions s'). same_entry x x'"
  shows "coherent rnd c s'"
  unfolding coherent_def
proof (intro allI impI)
  fix h p
  assume "c h = Some p"
  with assms(1) obtain x where x: "x \<in> set (st_sessions s)" "h = hex_EncodeToString (session_tokenHash x)" "entry_of rnd x p"
    by (rule coherentD)
  from assms(2) [OF x(1)] obtain x' where "x' \<in> set (st_sessions s')" "same_entry x x'" by blast
  with x(2,3) show "\<exists>x \<in> set (st_sessions s'). h = hex_EncodeToString (session_tokenHash x) \<and> entry_of rnd x p"
    by (intro bexI [where x = x']) (simp_all add: same_entry_def entry_of_def)
qed

lemma coherent_append: "coherent rnd c s \<Longrightarrow> st_sessions s' = st_sessions s @ xs \<Longrightarrow> coherent rnd c s'"
  by (erule coherent_store) (auto simp: same_entry_def intro!: bexI)

lemma coherent_add:
  assumes "coherent rnd c s" "x \<in> set (st_sessions s)" "entry_of rnd x p"
  shows "coherent rnd (c(hex_EncodeToString (session_tokenHash x) := Some p)) s"
  using assms by (auto simp: coherent_def)

lemma coherent_revoke:
  assumes "coherent rnd c s" "sign_out_effect rnd ul i s s'"
  shows "coherent rnd c s'"
proof -
  from assms(2) obtain t s1 es where r: "revoke_session (so_TenantID i) (so_SessionID i) t s = Some s1"
    and s': "s' = s1\<lparr>st_events := es\<rparr>"
    by (auto simp: sign_out_effect_def)
  let ?f = "\<lambda>x. if is_session (so_TenantID i) (so_SessionID i) x then revoke_at t x else x"
  from r have ss: "st_sessions s' = map ?f (st_sessions s)"
    by (auto simp: s' revoke_session_def split: if_splits)
  show ?thesis
  proof (rule coherent_store [OF assms(1)])
    fix x
    assume "x \<in> set (st_sessions s)"
    then have "?f x \<in> set (st_sessions s')" unfolding ss by simp
    moreover have "same_entry x (?f x)" by (simp add: same_entry_def)
    ultimately show "\<exists>x' \<in> set (st_sessions s'). same_entry x x'" by blast
  qed
qed

lemma sign_up_sessions:
  "sign_up_effect verifies rnd ul ttl i out s s' \<Longrightarrow> \<exists>x. st_sessions s' = st_sessions s @ [x] \<and>
    session_expiresAt x = rnd (su_SessionExpiresAt out)"
  by (auto simp: sign_up_effect_def round_session_def session_New_def)

lemma sign_in_sessions:
  "sign_in_effect verifies rnd ul ttl i out s s' \<Longrightarrow> \<exists>x. st_sessions s' = st_sessions s @ [x] \<and>
    session_expiresAt x = rnd (si_SessionExpiresAt out)"
  by (auto simp: sign_in_effect_def round_session_def session_New_def)

subsection \<open>Overtaking\<close>

text \<open>A repository whose lookup is overtaken: another request of the service, \<open>other\<close>, runs to its end between the answer of
  the database and the moment at which the caller goes on with it.\<close>

definition overtaken :: "('a rt_scheme, 'b) go \<Rightarrow> ('a rt_scheme) SessionRepository \<Rightarrow> ('a rt_scheme) SessionRepository" where
  "overtaken other repo = repo
    \<lparr>sessions_FindByTokenHash := \<lambda>h w.
       (case sessions_FindByTokenHash repo h w of (r, w1) \<Rightarrow> case other w1 of (_, w2) \<Rightarrow> (r, w2))\<rparr>"

context use_case_env
begin

text \<open>The invariant: the data are consistent and the cache agrees with them.\<close>

definition good :: "'a rt_scheme \<Rightarrow> bool" where
  "good w = (\<exists>s. db w s \<and> coherent rnd (cached w) s)"

lemma good_last:
  assumes c: "coherent rnd (cached w) s" and s': "st_sessions s' = st_sessions s @ [x]" "session_expiresAt x = rnd e"
    and l: "caches_last w z e s'" and a: "after w s' z"
  shows "good z"
proof -
  let ?p = "\<lparr>cs_SessionID = session_id x, cs_UserID = session_userID x, cs_TenantID = session_tenantID x, cs_ExpiresAt = e\<rparr>"
  from l s'(1) obtain m where m: "shrinks (cached w) m"
    "cached z = m \<or> cached z = m(hex_EncodeToString (session_tokenHash x) := Some ?p)"
    by (auto simp: caches_last_def gains_def)
  have "coherent rnd m s'" by (rule coherent_append [OF coherent_shrinks [OF c m(1)] s'(1)])
  with coherent_add [OF this, of x ?p] m(2) have "coherent rnd (cached z) s'"
    by (auto simp: s' entry_of_def)
  with after_db [OF a] show ?thesis by (auto simp: good_def)
qed

lemma good_kept: "coherent rnd (cached w) s \<Longrightarrow> cached z = cached w \<Longrightarrow> after w s z \<Longrightarrow> good z"
  unfolding good_def using after_db by metis

lemma good_appended:
  "coherent rnd (cached w) s \<Longrightarrow> cached z = cached w \<Longrightarrow> after w s' z \<Longrightarrow> st_sessions s' = st_sessions s @ xs \<Longrightarrow> good z"
  unfolding good_def using after_db coherent_append by metis

lemma sign_up_good:
  assumes "good w"
  shows "wp (sign_up_Execute ul (sign_up_uc ttl) i) (\<lambda>r z. good z) w"
proof -
  from assms obtain s where db: "db w s" and c: "coherent rnd (cached w) s" by (auto simp: good_def)
  show ?thesis
  proof (rule wp_mono [OF sign_up_law [OF db]], goal_cases)
    case (1 r z)
    show ?case
    proof (cases r)
      case (Ret y)
      show ?thesis
      proof (cases y)
        case (Inl e)
        with 1 Ret show ?thesis
          using good_kept [OF c] good_appended [OF c] sign_up_sessions unfolding sign_up_post_def by fastforce
      next
        case (Inr out)
        with 1 Ret obtain s' where s': "sign_up_effect verifies rnd ul ttl i out s s'" "after w s' z"
          "caches_last w z (su_SessionExpiresAt out) s'" by (auto simp: sign_up_post_def)
        from sign_up_sessions [OF s'(1)] good_last [OF c _ _ s'(3,2)] show ?thesis by blast
      qed
    qed (use 1 good_kept [OF c] in \<open>auto simp: sign_up_post_def\<close>)
  qed
qed

lemma sign_in_good:
  assumes "good w"
  shows "wp (sign_in_Execute ul (sign_in_uc ttl dummy) i) (\<lambda>r z. good z) w"
proof -
  from assms obtain s where db: "db w s" and c: "coherent rnd (cached w) s" by (auto simp: good_def)
  show ?thesis
  proof (rule wp_mono [OF sign_in_law [OF db]], goal_cases)
    case (1 r z)
    show ?case
    proof (cases r)
      case (Ret y)
      show ?thesis
      proof (cases y)
        case (Inl e)
        with 1 Ret show ?thesis
          using good_kept [OF c] good_appended [OF c] sign_in_sessions unfolding sign_in_post_def by fastforce
      next
        case (Inr out)
        with 1 Ret obtain s' where s': "sign_in_effect verifies rnd ul ttl i out s s'" "after w s' z"
          "caches_last w z (si_SessionExpiresAt out) s'" by (auto simp: sign_in_post_def)
        from sign_in_sessions [OF s'(1)] good_last [OF c _ _ s'(3,2)] show ?thesis by blast
      qed
    qed (use 1 good_kept [OF c] in \<open>auto simp: sign_in_post_def\<close>)
  qed
qed

lemma sign_out_good:
  assumes "good w"
  shows "wp (sign_out_Execute ul sign_out_uc i) (\<lambda>r z. good z) w"
proof -
  from assms obtain s where db: "db w s" and c: "coherent rnd (cached w) s" by (auto simp: good_def)
  show ?thesis
  proof (rule wp_mono [OF wp_conj [OF sign_out_law [OF db] sign_out_cached]], goal_cases)
    case (1 r z)
    then obtain s' where s': "after w s' z" "s' = s \<or> sign_out_effect rnd ul i s s'"
      by (auto simp: sign_out_post_def split: outcome.splits sum.splits)
    moreover have "shrinks (cached w) (cached z)"
      using 1 by (auto simp: sign_out_cache_post_def split: outcome.splits sum.splits)
    ultimately have "coherent rnd (cached z) s'"
      using coherent_shrinks coherent_revoke c by blast
    with after_db [OF s'(1)] show ?case by (auto simp: good_def)
  qed
qed

lemma get_me_good:
  assumes "good w"
  shows "wp (get_me_Execute (get_me_New users) i) (\<lambda>r z. good z) w"
proof -
  from assms obtain s where db: "db w s" and c: "coherent rnd (cached w) s" by (auto simp: good_def)
  have l: "leaves cached (get_me_Execute (get_me_New users) i)"
    unfolding get_me_Execute_def get_me_New_def get_me_UseCase.select_convs
    by (intro leaves_intro leaves_store)
  show ?thesis
    by (rule wp_mono [OF wp_conj [OF get_me_law [OF db] leavesD [OF l]]]) (use c in \<open>auto simp: good_def\<close>)
qed

text \<open>The middleware: a probe, a lookup and a write-back.\<close>

definition good_for :: "store \<Rightarrow> 'a rt_scheme \<Rightarrow> bool" where
  "good_for s w = (db w s \<and> coherent rnd (cached w) s)"

lemma good_for_quiet: "quiet w w' \<Longrightarrow> good_for s w \<Longrightarrow> good_for s w'"
  using db_frame [OF quiet_more] cache.cached_frame [OF quiet_more] by (simp add: good_for_def)

lemma good_for_shrinks: "keeps w w' \<Longrightarrow> shrinks (cached w) (cached w') \<Longrightarrow> good_for s w \<Longrightarrow> good_for s w'"
  using cache_keeps coherent_shrinks by (auto simp: good_for_def)

lemma probe_good:
  assumes g: "good_for s w"
  shows "wp (session_probe (Some cache) h) (\<lambda>r z. good_for s z) w"
  unfolding session_probe_def option.case wp_tryg
proof (rule wp_mono [OF cache.get_law], goal_cases)
  case (1 r w')
  then have k: "good_for s w'" using good_for_shrinks [OF _ _ g] by blast
  have q: "quiet w' (w'\<lparr>rt_logs := x\<rparr>)" "quiet w' (w'\<lparr>rt_clock_i := Suc (rt_clock_i w')\<rparr>)" for x by simp_all
  note f = good_for_quiet [OF q(1) k] good_for_quiet [OF q(2) k]
  show ?case using 1 k f by (auto simp: wp_simps nowFn_def split: outcome.splits sum.splits)
qed

lemma repopulate_good:
  assumes g: "good_for s w" and x: "x \<in> set (st_sessions s)"
  shows "wp (session_repopulate (Some cache) (hex_EncodeToString (session_tokenHash x)) x) (\<lambda>r z. good_for s z) w"
proof -
  let ?w = "w\<lparr>rt_clock_i := Suc (rt_clock_i w)\<rparr>"
  let ?p = "\<lparr>cs_SessionID = session_id x, cs_UserID = session_userID x, cs_TenantID = session_tenantID x,
    cs_ExpiresAt = session_expiresAt x\<rparr>"
  have q: "quiet w ?w" by simp
  note g1 = good_for_quiet [OF q g]
  have e: "entry_of rnd x ?p" by (simp add: entry_of_def)
  show ?thesis
  proof (cases "time_Sub (session_expiresAt x) (rt_clock w (rt_clock_i w)) > 0")
    case True
    show ?thesis
      unfolding session_repopulate_def option.case wp_bindg wp_time_Until outcome.case if_P [OF True] wp_tryg
    proof (rule wp_mono [OF cache.set_law], goal_cases)
      case (1 r w')
      then obtain m where m: "shrinks (cached ?w) m" "cached w' = m \<or> cached w' = m(hex_EncodeToString (session_tokenHash x) := Some ?p)"
        by blast
      have "coherent rnd m s" using coherent_shrinks [OF _ m(1)] g1 by (simp add: good_for_def)
      with coherent_add [OF this x e] m(2) have "coherent rnd (cached w') s" by auto
      moreover have "db w' s" using 1 cache_keeps [of ?w w' s] g1 by (auto simp: good_for_def)
      ultimately have k: "good_for s w'" by (simp add: good_for_def)
      have l: "quiet w' (w'\<lparr>rt_logs := y\<rparr>)" for y by simp
      from 1 k good_for_quiet [OF l k] show ?case
        by (auto simp: wp_simps split: outcome.splits sum.splits)
    qed
  next
    case False
    with g1 show ?thesis by (simp add: session_repopulate_def wp_simps)
  qed
qed

lemma authenticate_good_for:
  assumes g: "good_for s w"
  shows "wp (authenticate sessions (Some cache) raw) (\<lambda>r z. good_for s z) w"
  unfolding authenticate_def Let_def wp_bindg
proof (rule wp_mono [OF probe_good [OF g]], goal_cases)
  case (1 r w1)
  then have d1: "db w1 s" by (simp add: good_for_def)
  have look: "wp (tryg (sessions_FindByTokenHash sessions (HashOf raw))
       (\<lambda>e. ret (Inl (if e = ErrSession session_ErrSessionNotFound then SessionInvalid else Internal)))
       (\<lambda>x. bindg nowFn (\<lambda>now. if \<not> IsActive x now then ret (Inl SessionInvalid)
         else seqg (session_repopulate (Some cache) (hex_EncodeToString (HashOf raw)) x)
           (ret (Inr (session_userID x, session_id x, session_tenantID x)))))) (\<lambda>r z. good_for s z) w1"
    unfolding wp_tryg
  proof (rule wp_mono [OF wp_conj [OF find_by_token_hash [unfolded lookup_ok_def, rule_format, OF d1] leavesD [OF leaves_store(9)]]],
      goal_cases)
    case (1 r2 w2)
    with \<open>good_for s w1\<close> have g2: "good_for s w2" by (simp add: good_for_def)
    let ?w = "w2\<lparr>rt_clock_i := Suc (rt_clock_i w2)\<rparr>"
    have q: "quiet w2 ?w" by simp
    note g3 = good_for_quiet [OF q g2]
    show ?case
    proof (cases r2)
      case (Ret z)
      show ?thesis
      proof (cases z)
        case (Inl e)
        with Ret g2 show ?thesis by (simp add: wp_ret)
      next
        case (Inr x)
        with Ret 1 have "x \<in> set (st_sessions s)" "session_tokenHash x = HashOf raw" by (auto dest: find_session_Some)
        with repopulate_good [OF g3 this(1)] g3 show ?thesis
          unfolding Ret Inr outcome.case sum.case
          by (auto simp: wp_simps nowFn_def split: outcome.splits elim!: wp_mono)
      qed
    qed (use g2 in simp)
  qed
  show ?case
    using 1 look by (auto simp: wp_ret split: outcome.splits option.splits)
qed

lemma authenticate_good: "good w \<Longrightarrow> wp (authenticate sessions (Some cache) raw) (\<lambda>r z. good z) w"
  unfolding good_def using authenticate_good_for unfolding good_for_def by (blast intro: wp_mono)

text \<open>In a good state an accepted identity is that of the row of the token.\<close>

lemma authenticate_sound:
  assumes "db w s" "coherent rnd (cached w) s"
  shows "wp (authenticate sessions (Some cache) raw) (\<lambda>r z. \<forall>u sid t. r = Ret (Inr (u, sid, t)) \<longrightarrow>
    (\<exists>x. find_session s (HashOf raw) = Some x \<and> session_userID x = u \<and> session_id x = sid \<and> session_tenantID x = t)) w"
proof (rule wp_mono [OF authenticate_law [OF assms(1)]], intro allI impI)
  fix r z u sid t
  assume post: "auth_post raw w s r z" and r: "r = Ret (Inr (u, sid, t))"
  then consider p where "cached w (hex_EncodeToString (HashOf raw)) = Some p" "u = cs_UserID p" "sid = cs_SessionID p" "t = cs_TenantID p"
    | x where "find_session s (HashOf raw) = Some x" "u = session_userID x" "sid = session_id x" "t = session_tenantID x"
    by (auto simp: auth_post_def)
  then show "\<exists>x. find_session s (HashOf raw) = Some x \<and> session_userID x = u \<and> session_id x = sid \<and> session_tenantID x = t"
  proof cases
    case (1 p)
    from coherentD [OF assms(2) 1(1)] obtain x where "x \<in> set (st_sessions s)" "HashOf raw = session_tokenHash x" "entry_of rnd x p"
      by (metis hex_inject)
    with find_session_unique [OF db_consistent [OF assms(1)], of x "HashOf raw"] 1(2-4) show ?thesis
      by (auto simp: entry_of_def)
  next
    case (2 x)
    then show ?thesis by blast
  qed
qed

text \<open>A readable entry that is not expired is a hit, without a look at the database.\<close>

lemma authenticate_hit:
  assumes work: "working w" and p: "cached w (hex_EncodeToString (HashOf raw)) = Some p"
    and clk: "\<And>n. rt_clock w n < cs_ExpiresAt p"
  shows "wp (authenticate sessions (Some cache) raw) (\<lambda>r z. r = Ret (Inr (cs_UserID p, cs_SessionID p, cs_TenantID p))) w"
proof -
  have "wp (session_probe (Some cache) (hex_EncodeToString (HashOf raw))) (\<lambda>r z. r = Ret (Some p)) w"
    unfolding session_probe_def option.case wp_tryg
  proof (rule wp_mono [OF cache.get_law], goal_cases)
    case (1 r w')
    then have "working w \<longrightarrow> r = Ret (case cached w (hex_EncodeToString (HashOf raw)) of
        None \<Rightarrow> Inl (ErrSession session_ErrCacheMiss) | Some p \<Rightarrow> Inr p)" by blast
    with work have r: "r = Ret (Inr p)" by (simp only: p option.case simp_thms)
    from 1 have "keeps w w'" by blast
    then have "later w w'" using cache_keeps by blast
    with clk show ?case by (simp add: r wp_simps nowFn_def later_def)
  qed
  then show ?thesis
    unfolding authenticate_def Let_def wp_bindg by (rule wp_mono) (simp add: wp_ret)
qed

lemma repopulate_working:
  assumes work: "working w" and clk: "\<And>n. rt_clock w n < session_expiresAt x" and fits: "ok (cached_of x)"
    and a: "after w0 s w"
  shows "wp (session_repopulate (Some cache) h x) (\<lambda>r z. r = Ret () \<and> working z \<and> after w0 s z \<and> cached z h = Some (cached_of x)) w"
proof -
  let ?w = "w\<lparr>rt_clock_i := Suc (rt_clock_i w)\<rparr>"
  have q: "quiet w ?w" by simp
  have pos: "time_Sub (session_expiresAt x) (rt_clock w (rt_clock_i w)) > 0"
    using clk [of "rt_clock_i w"] by (simp add: time_Sub_pos)
  have w1: "working ?w" using work cache.working_frame [OF quiet_more [OF q]] by simp
  show ?thesis
    unfolding session_repopulate_def option.case wp_bindg wp_time_Until outcome.case if_P [OF pos] wp_tryg
      cached_of_def [symmetric]
  proof (rule wp_mono [OF cache.set_law], goal_cases)
    case (1 r w')
    then have "after w0 s w'" using after_keeps [OF _ after_frame [OF q a]] by blast
    with 1 w1 fits show ?case by (auto simp: wp_ret)
  qed
qed

text \<open>An entry that is missing from a cache that answers sends the request to the database.\<close>

lemma probe_miss:
  assumes work: "working w" and miss: "cached w h = None" and db: "db w s"
  shows "wp (session_probe (Some cache) h) (\<lambda>r z. r = Ret None \<and> working z \<and> after w s z) w"
  unfolding session_probe_def option.case wp_tryg
proof (rule wp_mono [OF cache.get_law], goal_cases)
  case (1 r w')
  with work miss have r: "r = Ret (Inl (ErrSession session_ErrCacheMiss))" by (simp only: option.case simp_thms)
  have "after w s w'" using 1 db after_keeps [of w w' w s] by (simp add: after_def)
  with 1 work r show ?case by (simp add: wp_ret)
qed

text \<open>The lost revocation: the sign-out of the session runs to its end between the lookup and the write-back of a request
  with its token. \<open>w1\<close>, \<open>w2\<close>, \<open>w3\<close>, \<open>w4\<close> are the states after the probe, the lookup, the sign-out and the write-back.\<close>

lemma revoked_but_cached:
  assumes db: "db w s" and up: "healthy w" and work: "working w"
    and miss: "cached w (hex_EncodeToString (HashOf raw)) = None"
    and x: "find_session s (HashOf raw) = Some x" "session_revokedAt x = None" and fits: "ok (cached_of x)"
    and clk: "\<And>n. rt_clock w n < session_expiresAt x"
    and ids: "\<And>n. \<exists>u. rt_uuids w n = Some u \<and> u \<notin> event_id ` set (st_events s)"
    and now: "\<And>w'. later w w' \<Longrightarrow> wp (clock_Now clk) (\<lambda>r _. \<forall>t. r = Ret t \<longrightarrow> time_MarshalJSON t \<noteq> None) w'"
    and i: "so_TenantID i = session_tenantID x" "so_SessionID i = session_id x"
      "\<not> tenant_IsZero (so_TenantID i)" "so_SessionID i \<noteq> uuid_Nil"
  shows "wp (authenticate (overtaken (sign_out_Execute ul sign_out_uc i) sessions) (Some cache) raw)
    (\<lambda>r z. r = Ret (Inr (session_userID x, session_id x, session_tenantID x)) \<and> working z
      \<and> cached z (hex_EncodeToString (HashOf raw)) = Some (cached_of x)
      \<and> (\<exists>s'. sign_out_effect rnd ul i s s' \<and> after w s' z)) w"
proof -
  let ?h = "hex_EncodeToString (HashOf raw)"
  obtain r1 w1 where e1: "session_probe (Some cache) ?h w = (r1, w1)" by fastforce
  note l1 = wpD [OF probe_miss [OF work miss db] e1]
  then have a1: "after w s w1" and db1: "db w1 s" by (auto simp: after_def)
  obtain r2 w2 where e2: "sessions_FindByTokenHash sessions (HashOf raw) w1 = (r2, w2)" by fastforce
  note l2 = wpD [OF find_by_token_hash [unfolded lookup_ok_def, rule_format, OF db1] e2]
  have a2: "after w s w2" using l2 later_truncate by (intro after_step [OF a1]) auto
  then have lat: "later w w2" and db2: "db w2 s" and up2: "healthy w2" using up by (auto simp: after_def)
  have r2: "r2 = Ret (Inr x)" using l2 a1 up x by (auto simp: after_def split: outcome.splits sum.splits)
  have k2: "working w2" using wpD [OF leavesD [OF leaves_store_working(9)] e2] l1 by simp
  have xs: "x \<in> set (st_sessions s)" "is_session (so_TenantID i) (so_SessionID i) x" "session_tokenHash x = HashOf raw"
    using find_session_Some [OF x(1)] i by (auto simp: is_session_def)
  have ids2: "\<And>n. \<exists>u. rt_uuids w2 n = Some u \<and> u \<notin> event_id ` set (st_events s)"
    using ids lat by (simp add: later_def)
  obtain r3 w3 where e3: "sign_out_Execute ul sign_out_uc i w2 = (r3, w3)" by fastforce
  have r3: "r3 = Ret (Inr ())"
    using wpD [OF sign_out_live [OF db2 up2 xs(1,2) ids2 now [OF lat] i(3,4)] e3] .
  obtain s' where s': "sign_out_effect rnd ul i s s'" "after w2 s' w3"
    using wpD [OF sign_out_law [OF db2] e3] r3 by (auto simp: sign_out_post_def)
  have k3: "working w3" using wpD [OF sign_out_cached e3] r3 k2 by (simp add: sign_out_cache_post_def)
  let ?w = "w3\<lparr>rt_clock_i := Suc (rt_clock_i w3)\<rparr>"
  have q: "quiet w3 ?w" by simp
  have a3: "after w s' ?w"
    using after_frame [OF q s'(2)] later_trans [OF lat] up2 by (auto simp: after_def)
  have k: "working ?w" using k3 cache.working_frame [OF quiet_more [OF q]] by simp
  have clk3: "\<And>n. rt_clock ?w n < session_expiresAt x" using clk a3 by (simp add: later_def after_def)
  have active: "IsActive x (rt_clock w3 (rt_clock_i w3))" using clk3 x(2) by (simp add: IsActive_iff)
  obtain r4 w4 where e4: "session_repopulate (Some cache) ?h x ?w = (r4, w4)" by fastforce
  note l4 = wpD [OF repopulate_working [OF k clk3 fits a3] e4]
  show ?thesis
    using l1 l4 s'(1)
    by (auto simp: authenticate_def Let_def wp_def e1 tryg_def overtaken_def e2 r2 e3 e4 bindg_def seqg_def ret_def
        nowFn_def time_Now_def active)
qed

lemma lost_revocation:
  assumes db: "db w s" and up: "healthy w" and work: "working w"
    and c: "ReadSessionCookieFast c = (raw, True)"
    and miss: "cached w (hex_EncodeToString (HashOf raw)) = None"
    and x: "find_session s (HashOf raw) = Some x" "session_revokedAt x = None" and fits: "ok (cached_of x)"
    and clk: "\<And>n. rt_clock w n < session_expiresAt x"
    and ids: "\<And>n. \<exists>u. rt_uuids w n = Some u \<and> u \<notin> event_id ` set (st_events s)"
    and now: "\<And>w'. later w w' \<Longrightarrow> wp (clock_Now clk) (\<lambda>r _. \<forall>t. r = Ret t \<longrightarrow> time_MarshalJSON t \<noteq> None) w'"
    and i: "so_TenantID i = session_tenantID x" "so_SessionID i = session_id x"
      "\<not> tenant_IsZero (so_TenantID i)" "so_SessionID i \<noteq> uuid_Nil"
  defines "accept \<equiv> set_identity (session_userID x) (session_id x) (session_tenantID x) (hex_EncodeToString (HashOf raw))"
  shows "\<exists>w' s' y.
    (\<forall>next. SessionMW (overtaken (sign_out_Execute ul sign_out_uc i) sessions) (Some cache) next (c, w) = next (accept c, w'))
    \<and> db w' s' \<and> sign_out_effect rnd ul i s s'
    \<and> find_session s' (HashOf raw) = Some y \<and> session_revokedAt y \<noteq> None
    \<and> (\<forall>c2. ReadSessionCookieFast c2 = (raw, True) \<longrightarrow>
        (\<exists>w''. \<forall>next. SessionMW sessions (Some cache) next (c2, w') = next (accept c2, w'')))"
proof -
  obtain r w' where e: "authenticate (overtaken (sign_out_Execute ul sign_out_uc i) sessions) (Some cache) raw w = (r, w')"
    by fastforce
  note l = wpD [OF revoked_but_cached [OF db up work miss x fits clk ids now i] e]
  then obtain s' where s': "sign_out_effect rnd ul i s s'" "after w s' w'" by blast
  from sign_out_effect_revokes(3) [OF s'(1) x(1)] obtain y where y: "find_session s' (HashOf raw) = Some y"
    "session_id y = session_id x" "session_tenantID y = session_tenantID x" by blast
  have "session_revokedAt y \<noteq> None"
    using sign_out_effect_revokes(2) [OF s'(1)] find_session_Some [OF y(1)] y i by (auto simp: is_session_def)
  moreover have "\<forall>next. SessionMW (overtaken (sign_out_Execute ul sign_out_uc i) sessions) (Some cache) next (c, w) = next (accept c, w')"
    using l cookie_found [OF c] by (simp add: SessionMW_result c e accept_def)
  moreover have "\<forall>c2. ReadSessionCookieFast c2 = (raw, True) \<longrightarrow>
        (\<exists>w''. \<forall>next. SessionMW sessions (Some cache) next (c2, w') = next (accept c2, w''))"
  proof (intro allI impI)
    fix c2 assume c2: "ReadSessionCookieFast c2 = (raw, True)"
    have clk': "\<And>n. rt_clock w' n < cs_ExpiresAt (cached_of x)"
      using clk s'(2) by (simp add: later_def after_def cached_of_def)
    obtain r2 w'' where e2: "authenticate sessions (Some cache) raw w' = (r2, w'')" by fastforce
    have "r2 = Ret (Inr (session_userID x, session_id x, session_tenantID x))"
      using wpD [OF authenticate_hit [OF _ _ clk'] e2] l by (simp add: cached_of_def)
    then have "\<forall>next. SessionMW sessions (Some cache) next (c2, w') = next (accept c2, w'')"
      using cookie_found [OF c2] by (simp add: SessionMW_result c2 e2 accept_def)
    then show "\<exists>w''. \<forall>next. SessionMW sessions (Some cache) next (c2, w') = next (accept c2, w'')" ..
  qed
  moreover have "db w' s'" using s'(2) by (simp add: after_def)
  ultimately show ?thesis using y(1) s'(1) by blast
qed

end

subsection \<open>The service\<close>

text \<open>One request of the service: a use case, or the middleware that authenticates a token; or the cache loses
  entries by itself, as it does when they expire.\<close>

inductive service_step ::
  "'p pgx \<Rightarrow> 'k SessionCache \<Rightarrow> ('k \<Rightarrow> string \<Rightarrow> string option) \<Rightarrow> uuid_lib \<Rightarrow> argon2_kdf \<Rightarrow> Params \<Rightarrow> duration \<Rightarrow>
    ('p, 'k) world \<Rightarrow> ('p, 'k) world \<Rightarrow> bool"
  for drv cl content ul kdf ps ttl where
  step_sign_up: "sign_up_Execute ul (prod_sign_up drv cl ul kdf ps ttl) i w = (r, w') \<Longrightarrow>
    service_step drv cl content ul kdf ps ttl w w'"
| step_sign_in: "prod_sign_in drv cl ul kdf ps ttl w0 = (Ret (Inr uc), w1) \<Longrightarrow> sign_in_Execute ul uc j w = (r', w') \<Longrightarrow>
    service_step drv cl content ul kdf ps ttl w w'"
| step_sign_out: "sign_out_Execute ul (prod_sign_out drv cl ul) k w = (r'', w') \<Longrightarrow>
    service_step drv cl content ul kdf ps ttl w w'"
| step_get_me: "get_me_Execute (prod_get_me drv) l w = (q, w') \<Longrightarrow> service_step drv cl content ul kdf ps ttl w w'"
| step_authenticate: "authenticate (pg_SessionRepository drv) (Some (valkey_SessionCache cl ul)) raw w = (a, w') \<Longrightarrow>
    service_step drv cl content ul kdf ps ttl w w'"
| step_evict: "shrinks (kv_cached content ul w) (kv_cached content ul (w\<lparr>w_kv := q'\<rparr>)) \<Longrightarrow>
    service_step drv cl content ul kdf ps ttl w (w\<lparr>w_kv := q'\<rparr>)"

inductive_cases service_stepE: "service_step drv cl content ul kdf ps ttl w w'"

context production
begin

lemma step_good:
  assumes "service_step drv cl content ul kdf ps ttl w w'" "env.good w"
  shows "env.good w'"
  using assms
proof (cases rule: service_step.cases)
  case (step_sign_up i r)
  from wpD [OF env.sign_up_good [OF assms(2)] this [unfolded prod_sign_up_def]] show ?thesis .
next
  case (step_sign_in w0 uc w1 j r')
  obtain dummy where uc: "uc = env.sign_in_uc ttl dummy" using prod_sign_in_uc [OF step_sign_in(1)] by blast
  from wpD [OF env.sign_in_good [OF assms(2)] step_sign_in(2) [unfolded uc]] show ?thesis .
next
  case (step_sign_out k r'')
  from wpD [OF env.sign_out_good [OF assms(2)] this [unfolded prod_sign_out_def]] show ?thesis .
next
  case (step_get_me l q)
  from wpD [OF env.get_me_good [OF assms(2)] this [unfolded prod_get_me_def]] show ?thesis .
next
  case (step_authenticate raw a)
  from wpD [OF env.authenticate_good [OF assms(2)] this] show ?thesis .
next
  case (step_evict q')
  from assms(2) obtain s where "pg_db committed w s" "coherent rnd (kv_cached content ul w) s"
    by (auto simp: env.good_def)
  with coherent_shrinks [OF this(2) step_evict(2)] step_evict(1) show ?thesis
    unfolding env.good_def by (intro exI [where x = s]) (simp add: pg_db_def)
qed

lemma run_good:
  "(service_step drv cl content ul kdf ps ttl)\<^sup>*\<^sup>* w w' \<Longrightarrow> env.good w \<Longrightarrow> env.good w'"
  by (induction rule: rtranclp_induct) (auto intro: step_good)

lemma run_coherent:
  assumes "pg_db committed w s" "coherent rnd (kv_cached content ul w) s"
    and "(service_step drv cl content ul kdf ps ttl)\<^sup>*\<^sup>* w w'"
  shows "\<exists>s'. pg_db committed w' s' \<and> coherent rnd (kv_cached content ul w') s'"
  using run_good [OF assms(3)] assms(1,2) by (auto simp: env.good_def)

lemma run_authenticate:
  assumes "pg_db committed w s" "coherent rnd (kv_cached content ul w) s"
    and "(service_step drv cl content ul kdf ps ttl)\<^sup>*\<^sup>* w w'"
    and "authenticate (pg_SessionRepository drv) (Some (valkey_SessionCache cl ul)) raw w' = (Ret (Inr (u, sid, t)), w'')"
  shows "\<exists>s' x. pg_db committed w' s' \<and> find_session s' (HashOf raw) = Some x
    \<and> session_userID x = u \<and> session_id x = sid \<and> session_tenantID x = t"
proof -
  from run_coherent [OF assms(1-3)] obtain s' where s': "pg_db committed w' s'" "coherent rnd (kv_cached content ul w') s'"
    by blast
  from wpD [OF env.authenticate_sound [OF s'] assms(4)] s'(1) show ?thesis by blast
qed

lemma race:
  fixes w :: "('p, 'k) world"
  assumes "pg_db committed w s" "up (w_pg w)" "kvup (w_kv w)"
    and "ReadSessionCookieFast c = (raw, True)" "kv_cached content ul w (hex_EncodeToString (HashOf raw)) = None"
    and "find_session s (HashOf raw) = Some x" "session_revokedAt x = None" "cacheable (cached_of x)"
    and "\<And>n. rt_clock w n < session_expiresAt x"
    and "\<And>n. \<exists>u. rt_uuids w n = Some u \<and> u \<notin> event_id ` set (st_events s)"
    and "\<And>n. time_MarshalJSON (rt_clock w n) \<noteq> None"
    and "so_TenantID i = session_tenantID x" "so_SessionID i = session_id x"
      "\<not> tenant_IsZero (so_TenantID i)" "so_SessionID i \<noteq> uuid_Nil"
  shows "\<exists>w' s' y.
    (\<forall>next. SessionMW (overtaken (sign_out_Execute ul (prod_sign_out drv cl ul) i) (pg_SessionRepository drv))
        (Some (valkey_SessionCache cl ul)) next (c, w)
      = next (set_identity (session_userID x) (session_id x) (session_tenantID x) (hex_EncodeToString (HashOf raw)) c, w'))
    \<and> pg_db committed w' s' \<and> sign_out_effect rnd ul i s s'
    \<and> find_session s' (HashOf raw) = Some y \<and> session_revokedAt y \<noteq> None
    \<and> (\<forall>c2. ReadSessionCookieFast c2 = (raw, True) \<longrightarrow>
        (\<exists>w''. \<forall>next. prod_session drv cl ul next (c2, w')
          = next (set_identity (session_userID x) (session_id x) (session_tenantID x) (hex_EncodeToString (HashOf raw)) c2, w'')))"
proof -
  have now: "later w w' \<Longrightarrow> wp (clock_Now clock_Real) (\<lambda>r _. \<forall>t. r = Ret t \<longrightarrow> time_MarshalJSON t \<noteq> None) w'" for w'
    using assms(11) by (simp add: clock_Real_def wp_simps later_def)
  show ?thesis
    using env.lost_revocation [OF assms(1-10) now assms(12-15)]
    by (simp add: prod_sign_out_def prod_session_def)
qed

end

text \<open>C10: the cache never contradicts the database. In every state the service can reach from a state in which the
  database is consistent and the cache agrees with it (an empty cache does), by any sequence of sign-ups,
  sign-ins, sign-outs, reads, authentications and losses in the cache, with any requests lost on the way, the
  database is consistent and every readable cache entry is filed under the token hash of a session row and
  carries the identity of that row.\<close>

theorem cache_agrees_with_database:
  assumes "production drv committed txview up rnd cl content kvup ul kdf ps"
    and "pg_db committed w s" "coherent rnd (kv_cached content ul w) s"
    and "(service_step drv cl content ul kdf ps ttl)\<^sup>*\<^sup>* w w'"
  shows "\<exists>s'. pg_db committed w' s' \<and> coherent rnd (kv_cached content ul w') s'"
  using production.run_coherent [OF assms] .

text \<open>C11: no forged identity. Whatever token is presented in such a state, the identity that the middleware accepts
  is the user, the session and the tenant of the database row that is stored under the hash of that token.\<close>

theorem accepted_identity_is_a_row:
  assumes "production drv committed txview up rnd cl content kvup ul kdf ps"
    and "pg_db committed w s" "coherent rnd (kv_cached content ul w) s"
    and "(service_step drv cl content ul kdf ps ttl)\<^sup>*\<^sup>* w w'"
    and "authenticate (pg_SessionRepository drv) (Some (valkey_SessionCache cl ul)) raw w' = (Ret (Inr (u, sid, t)), w'')"
  shows "\<exists>s' x. pg_db committed w' s' \<and> find_session s' (HashOf raw) = Some x
    \<and> session_userID x = u \<and> session_id x = sid \<and> session_tenantID x = t"
  using production.run_authenticate [OF assms] .

text \<open>C33: a revocation can be lost. A request with the token of an active session misses the cache, and between its lookup
  in the database and its next statement the sign-out of that session runs to its end: the sign-out commits, so that the
  row is revoked, and its delete in the cache finds nothing. The request then writes its entry back and is let through,
  and so is whatever request with the token comes next, although the session is revoked: it hits that entry.\<close>

theorem revocation_can_be_lost:
  fixes w :: "('p, 'k) world" and cl :: "'k SessionCache"
  assumes "production drv committed txview up rnd cl content kvup ul kdf ps"
    and "pg_db committed w s" "up (w_pg w)" "kvup (w_kv w)"
    and "ReadSessionCookieFast c = (raw, True)" "kv_cached content ul w (hex_EncodeToString (HashOf raw)) = None"
    and "find_session s (HashOf raw) = Some x" "session_revokedAt x = None" "cacheable (cached_of x)"
    and "\<And>n. rt_clock w n < session_expiresAt x"
    and "\<And>n. \<exists>u. rt_uuids w n = Some u \<and> u \<notin> event_id ` set (st_events s)"
    and "\<And>n. time_MarshalJSON (rt_clock w n) \<noteq> None"
    and "so_TenantID i = session_tenantID x" "so_SessionID i = session_id x"
      "\<not> tenant_IsZero (so_TenantID i)" "so_SessionID i \<noteq> uuid_Nil"
  shows "\<exists>w' s' y.
    (\<forall>next. SessionMW (overtaken (sign_out_Execute ul (prod_sign_out drv cl ul) i) (pg_SessionRepository drv))
        (Some (valkey_SessionCache cl ul)) next (c, w)
      = next (set_identity (session_userID x) (session_id x) (session_tenantID x) (hex_EncodeToString (HashOf raw)) c, w'))
    \<and> pg_db committed w' s' \<and> sign_out_effect rnd ul i s s'
    \<and> find_session s' (HashOf raw) = Some y \<and> session_revokedAt y \<noteq> None
    \<and> (\<forall>c2. ReadSessionCookieFast c2 = (raw, True) \<longrightarrow>
        (\<exists>w''. \<forall>next. prod_session drv cl ul next (c2, w')
          = next (set_identity (session_userID x) (session_id x) (session_tenantID x) (hex_EncodeToString (HashOf raw)) c2, w'')))"
  using production.race [OF assms] .

subsection \<open>Examples\<close>

abbreviation sample_run :: "(server, kvserver) world" where
  "sample_run \<equiv> seeded_world (\<lambda>_. Served)\<lparr>rt_clock := \<lambda>_. 1780000000000000000\<rparr>"

lemma sample_run_db: "pg_db srv_tables sample_run sample_store"
  using seeded_world_db [of "\<lambda>_. Served"] by (simp add: pg_db_def)

lemma sample_run_cache: "kv_cached kvs_content canonical_uuids sample_run = (\<lambda>_. None)"
  by (simp add: kv_cached_def kvs_content_def empty_cache_def fun_eq_iff)

theorem cache_agrees_with_database_witness:
  "\<exists>r w' s'. sign_out_Execute canonical_uuids (prod_sign_out (ref_pgx micros) ref_cache canonical_uuids) sample_sign_out
      sample_run = (r, w') \<and> pg_db srv_tables w' s' \<and> coherent micros (kv_cached kvs_content canonical_uuids w') s'"
proof -
  obtain r w' where e: "sign_out_Execute canonical_uuids (prod_sign_out (ref_pgx micros) ref_cache canonical_uuids)
    sample_sign_out sample_run = (r, w')" by fastforce
  have "(service_step (ref_pgx micros) ref_cache kvs_content canonical_uuids sample_kdf argon2_Default 3600000000000)\<^sup>*\<^sup>* sample_run w'"
    using step_sign_out [OF e] by (rule r_into_rtranclp)
  from cache_agrees_with_database [OF ref_production.production_axioms sample_run_db _ this] e show ?thesis
    by (auto simp: sample_run_cache coherent_empty)
qed

lemma sample_find: "find_session sample_store (HashOf sample_token) = Some sample_session"
  by (simp add: find_session_def sample_store_def sample_session_def)

theorem accepted_identity_is_a_row_witness:
  "\<exists>u sid t w' s' x. authenticate (pg_SessionRepository (ref_pgx micros)) (Some (valkey_SessionCache ref_cache canonical_uuids))
      sample_token sample_run = (Ret (Inr (u, sid, t)), w')
    \<and> pg_db srv_tables sample_run s' \<and> find_session s' (HashOf sample_token) = Some x \<and> session_userID x = u"
proof -
  have "wp (authenticate (pg_SessionRepository (ref_pgx micros)) (Some (valkey_SessionCache ref_cache canonical_uuids))
      sample_token) (\<lambda>r z. \<exists>y. r = Ret (Inr y)) sample_run"
    by (rule ref_production.env.authenticate_live [OF sample_run_db _ sample_find])
       (simp_all add: ref_up_def empty_server_def IsActive_iff sample_session_def)
  then obtain u sid t w' where e: "authenticate (pg_SessionRepository (ref_pgx micros))
      (Some (valkey_SessionCache ref_cache canonical_uuids)) sample_token sample_run = (Ret (Inr (u, sid, t)), w')"
    by (auto simp: wp_def split: prod.splits)
  have run: "(service_step (ref_pgx micros) ref_cache kvs_content canonical_uuids sample_kdf argon2_Default 3600000000000)\<^sup>*\<^sup>*
      sample_run sample_run" by simp
  from accepted_identity_is_a_row [OF ref_production.production_axioms sample_run_db _ run e] e show ?thesis
    by (auto simp: sample_run_cache coherent_empty)
qed

theorem revocation_can_be_lost_witness:
  "\<exists>w' s' y. SessionMW (overtaken (sign_out_Execute canonical_uuids (prod_sign_out (ref_pgx micros) ref_cache canonical_uuids) sample_sign_out)
        (pg_SessionRepository (ref_pgx micros))) (Some (valkey_SessionCache ref_cache canonical_uuids)) (ret ())
        (fresh_ctx sample_request, sample_run)
      = (Ret (), (set_identity 11 12 (ID 1) (hex_EncodeToString (HashOf sample_token)) (fresh_ctx sample_request), w'))
    \<and> find_session s' (HashOf sample_token) = Some y \<and> session_revokedAt y \<noteq> None \<and> pg_db srv_tables w' s'
    \<and> (\<exists>w''. prod_session (ref_pgx micros) ref_cache canonical_uuids (ret ()) (fresh_ctx sample_request, w')
      = (Ret (), (set_identity 11 12 (ID 1) (hex_EncodeToString (HashOf sample_token)) (fresh_ctx sample_request), w'')))"
proof -
  have ids: "\<exists>u. rt_uuids sample_run n = Some u \<and> u \<notin> event_id ` set (st_events sample_store)" for n
    by (simp add: seeded_world_def sample_world_def sample_rt_def rt.extend_def sample_store_def)
  have m: "time_MarshalJSON 1780000000000000000 \<noteq> None" by code_simp
  have exp: "cs_ExpiresAt (cached_of sample_session) = 1790000000000000000"
    by (simp add: cached_of_def sample_session_def)
  have c: "cacheable (cached_of sample_session)"
    unfolding cacheable_def exp year_civil by code_simp
  have up: "ref_up (w_pg sample_run)" "kvs_up (w_kv sample_run)"
    by (simp_all add: ref_up_def empty_server_def kvs_up_def empty_cache_def)
  have clk: "rt_clock sample_run n < session_expiresAt sample_session" "time_MarshalJSON (rt_clock sample_run n) \<noteq> None" for n
    using m by (simp_all add: sample_session_def)
  have i: "so_TenantID sample_sign_out = session_tenantID sample_session" "so_SessionID sample_sign_out = session_id sample_session"
    "\<not> tenant_IsZero (so_TenantID sample_sign_out)" "so_SessionID sample_sign_out \<noteq> uuid_Nil"
    by (simp_all add: sample_sign_out_def sample_session_def tenant_IsZero_def uuid_Nil_def)
  have miss: "kv_cached kvs_content canonical_uuids sample_run (hex_EncodeToString (HashOf sample_token)) = None"
    by (simp only: sample_run_cache)
  have x: "session_revokedAt sample_session = None" "session_userID sample_session = 11" "session_id sample_session = 12"
    "session_tenantID sample_session = ID 1"
    by (simp_all add: sample_session_def)
  from revocation_can_be_lost [OF ref_production.production_axioms sample_run_db up sample_cookie miss sample_find x(1) c clk(1) ids
      clk(2) i, unfolded x]
  show ?thesis using sample_cookie unfolding ret_def by blast
qed

end
