(* ===== verification/Surface.thy ===== *)
theory Surface
  imports Server Coherence
begin

text \<open>
  The HTTP surface as a whole: requests that go through the router of \<open>cmd/server\<close> and all its wrappers down to
  the database. Lemmas: what each wrapper does to a handler as a rule on weakest preconditions, what a request
  meets on its way to the handler (\<open>entered\<close>), and from these that every request is answered and
  logged, that requests from foreign origins write nothing, that a profile is shown only to the holder of a
  session of its user, and that sign-in and sign-out have the effect on later requests that they promise.
\<close>

subsection \<open>The wrappers\<close>

lemma wp_Recover:
  "wp (Recover stack m) Q (c, w) = wp m (\<lambda>r (c', w'). case r of
      Ret u \<Rightarrow> Q (Ret u) (c', w')
    | Panic p \<Rightarrow> Q (Ret ()) (failed Internal c', log_to Error ''panic recovered''
        [(''panic'', p), (''path'', req_Path (rc_req c')), (''method'', req_Method (rc_req c')), (''stack'', stack)] w')) (c, w)"
  by (simp add: wp_def Recover_result split: prod.splits outcome.splits)

abbreviation tick :: "'a rt_scheme \<Rightarrow> 'a rt_scheme" where
  "tick w \<equiv> w\<lparr>rt_clock_i := Suc (rt_clock_i w)\<rparr>"

lemma wp_AccessLog:
  "wp (AccessLog ul m) Q (c, w) = wp m (\<lambda>r (c', w'). case r of
      Ret u \<Rightarrow> Q (Ret u) (c', log_to (status_level (rc_status c')) ''request''
        (access_attrs ul c c' (time_Sub (rt_clock w' (rt_clock_i w')) (rt_clock w (rt_clock_i w)))) (tick w'))
    | Panic p \<Rightarrow> Q (Panic p) (c', w')) (c, tick w)"
  by (simp add: AccessLog_def wp_simps log_to_def wp_def [of m] split: prod.splits outcome.splits)

lemma wp_OTelTrace:
  "wp (OTelTrace m) Q (c, w) = wp m (\<lambda>r (c', w'). case r of
      Ret u \<Rightarrow> Q (Ret u) (update_span (length (rc_spans c)) (\<lambda>s. s\<lparr>span_ended := True\<rparr>)
        (update_span (length (rc_spans c)) (\<lambda>s. s\<lparr>span_attrs := span_attrs s @ [(''http.status_code'', int_string (rc_status c'))]\<rparr>) c'), w')
    | Panic p \<Rightarrow> Q (Panic p) (update_span (length (rc_spans c)) (\<lambda>s. s\<lparr>span_ended := True\<rparr>) c', w'))
    (c\<lparr>rc_spans := rc_spans c @ [\<lparr>span_name = req_Method (rc_req c) @ '' '' @ req_Path (rc_req c),
        span_attrs = [(''http.method'', req_Method (rc_req c)), (''http.target'', req_Path (rc_req c))], span_ended = False\<rparr>]\<rparr>, w)"
  by (simp add: OTelTrace_def Let_def wp_simps wp_def [of m] split: prod.splits outcome.splits)

definition with_request_id :: "string \<Rightarrow> rctx \<Rightarrow> rctx" where
  "with_request_id i c = (SetUserValue UVRequestID (UVText i) c)\<lparr>rc_headers := (rc_headers c)(headerRequestID \<mapsto> i)\<rparr>"

lemma wp_RequestID:
  "wp (RequestID ul m) Q (c, w) =
    (if req_Peek (rc_req c) headerRequestID \<noteq> '''' then wp m Q (with_request_id (req_Peek (rc_req c) headerRequestID) c, w)
     else case rt_uuids w (rt_uuids_i w) of
       None \<Rightarrow> Q (Panic ''uuid.New'') (c, w\<lparr>rt_uuids_i := Suc (rt_uuids_i w)\<rparr>)
     | Some u \<Rightarrow> wp m Q (with_request_id (uuid_String ul u) c, w\<lparr>rt_uuids_i := Suc (rt_uuids_i w)\<rparr>))"
  by (simp add: RequestID_def wp_simps with_request_id_def SetUserValue_def split: option.split)

lemma wp_Tenancy: "wp (Tenancy ul m) Q (c, w) = wp m Q (SetUserValue UVTenantID (UVTenant (tenant_DefaultID ul)) c, w)"
  by (simp add: Tenancy_def wp_simps)

subsection \<open>The way to the handler\<close>

text \<open>The wrappers that all routes of the API have, and the context that a handler behind them is called with.\<close>

definition outer :: "uuid_lib \<Rightarrow> string \<Rightarrow> ('a rt_scheme) Middleware" where
  "outer ul stack h = Recover stack (AccessLog ul (OTelTrace (RequestID ul (Tenancy ul h))))"

definition entered :: "uuid_lib \<Rightarrow> rctx \<Rightarrow> rctx \<Rightarrow> bool" where
  "entered ul c c' = (rc_req c' = rc_req c \<and> rc_cookies c' = rc_cookies c \<and> rc_user c' UVTenantID = Some (UVTenant (tenant_DefaultID ul)))"

text \<open>A property of the response and the world that neither the span nor what happens in the runtime alone changes.\<close>

definition settled :: "(rctx \<Rightarrow> 'a rt_scheme \<Rightarrow> bool) \<Rightarrow> bool" where
  "settled Q = (\<forall>c w s w'. Q c w \<longrightarrow> quiet w w' \<longrightarrow> Q (c\<lparr>rc_spans := s\<rparr>) w')"

lemma settledD: "settled Q \<Longrightarrow> Q c w \<Longrightarrow> quiet w w' \<Longrightarrow> Q (c\<lparr>rc_spans := s\<rparr>) w'"
  by (auto simp: settled_def)

lemma settled_quiet: "settled Q \<Longrightarrow> Q c w \<Longrightarrow> quiet w w' \<Longrightarrow> Q c w'"
  using settledD [of Q c w w' "rc_spans c"] by simp

lemma update_span_spans: "\<exists>s. update_span n f c = c\<lparr>rc_spans := s\<rparr>"
  by (auto simp: update_span_def)

lemma settled_span: "settled Q \<Longrightarrow> Q c w \<Longrightarrow> Q (update_span n f c) w"
  using settledD [of Q c w w] update_span_spans [of n f c] by auto

lemma failed_spans: "failed r (c\<lparr>rc_spans := s\<rparr>) = (failed r c)\<lparr>rc_spans := s\<rparr>"
  by (simp add: failed_def respond_def)

lemma failed_span: "failed r (update_span n f c) = update_span n f (failed r c)"
  by (simp add: failed_def respond_def update_span_def)

lemma quiet_log_tick: "quiet w (log_to l msg attrs (tick w))"
  by (simp add: log_to_def quiet_def later_def)

text \<open>\<open>answers h Q\<close>: once \<open>Recover\<close> has turned a panic of \<open>h\<close> into its response, \<open>Q\<close> holds.\<close>

definition answers :: "(rctx \<times> 'w, unit) go \<Rightarrow> (rctx \<Rightarrow> 'w \<Rightarrow> bool) \<Rightarrow> rctx \<Rightarrow> 'w \<Rightarrow> bool" where
  "answers h Q c w = wp h (\<lambda>r cw. Q (case r of Ret _ \<Rightarrow> fst cw | Panic _ \<Rightarrow> failed Internal (fst cw)) (snd cw)) (c, w)"

lemma answers_Recover:
  assumes "settled Q" "answers m Q c w"
  shows "wp (Recover stack m) (\<lambda>r cw. r = Ret () \<and> Q (fst cw) (snd cw)) (c, w)"
  unfolding wp_Recover
  by (rule wp_mono [OF assms(2) [unfolded answers_def]])
     (auto split: outcome.splits intro: settled_quiet [OF assms(1) _ log_to_more(2)])

lemma answers_AccessLog:
  assumes "settled Q" "answers m Q c (tick w)"
  shows "answers (AccessLog ul m) Q c w"
  unfolding answers_def wp_AccessLog
  by (rule wp_mono [OF assms(2) [unfolded answers_def]])
     (auto split: outcome.splits intro: settled_quiet [OF assms(1) _ quiet_log_tick])

lemma answers_OTelTrace:
  assumes "settled Q" "\<And>s. answers m Q (c\<lparr>rc_spans := s\<rparr>) w"
  shows "answers (OTelTrace m) Q c w"
  unfolding answers_def wp_OTelTrace
  by (rule wp_mono [OF assms(2) [unfolded answers_def]])
     (auto simp: failed_span split: outcome.splits intro!: settled_span [OF assms(1)])

lemma answers_RequestID:
  assumes "\<And>i w'. quiet w w' \<Longrightarrow> answers m Q (with_request_id i c) w'"
    and "\<And>w'. rt_uuids w (rt_uuids_i w) = None \<Longrightarrow> quiet w w' \<Longrightarrow> Q (failed Internal c) w'"
  shows "answers (RequestID ul m) Q c w"
  using assms unfolding answers_def wp_RequestID by (simp split: option.split)

lemma outer_law:
  assumes Q: "settled Q"
    and inner: "\<And>c' w'. entered ul c c' \<Longrightarrow> quiet w w' \<Longrightarrow> answers h Q c' w'"
    and early: "\<And>w'. rt_uuids w (rt_uuids_i w) = None \<Longrightarrow> quiet w w' \<Longrightarrow> Q (failed Internal c) w'"
  shows "wp (outer ul stack h) (\<lambda>r cw. r = Ret () \<and> Q (fst cw) (snd cw)) (c, w)"
  unfolding outer_def
proof (intro answers_Recover answers_AccessLog answers_OTelTrace Q, rule answers_RequestID, goal_cases)
  case (1 s i w')
  have "quiet w w'" using 1 quiet_trans [of w "tick w" w'] by simp
  then have "answers h Q (SetUserValue UVTenantID (UVTenant (tenant_DefaultID ul)) (with_request_id i (c\<lparr>rc_spans := s\<rparr>))) w'"
    by (intro inner) (simp_all add: entered_def with_request_id_def SetUserValue_def UV_defs)
  then show ?case by (simp add: answers_def wp_Tenancy)
next
  case (2 s w')
  then have "quiet w w'" using quiet_trans [of w "tick w" w'] by simp
  with early [of w'] 2 have "Q (failed Internal c) w'" by simp
  from settledD [OF Q this, of w' s] show ?case by (simp add: failed_spans)
qed

subsection \<open>The routes\<close>

datatype route = SignUpRoute | SignInRoute | SignOutRoute | GetMeRoute | HealthzRoute | OpenAPIRoute | NoRoute

definition route_of :: "request \<Rightarrow> route" where
  "route_of q =
    (if req_Method q = ''GET'' \<and> req_Path q = ''/healthz'' then HealthzRoute
     else if req_Method q = ''GET'' \<and> req_Path q = ''/openapi.json'' then OpenAPIRoute
     else if req_Method q = ''POST'' \<and> req_Path q = ''/api/v1/crm/public/identity/sign-up'' then SignUpRoute
     else if req_Method q = ''POST'' \<and> req_Path q = ''/api/v1/crm/public/identity/sessions'' then SignInRoute
     else if req_Method q = ''DELETE'' \<and> req_Path q = ''/api/v1/crm/public/identity/sessions/current'' then SignOutRoute
     else if req_Method q = ''GET'' \<and> req_Path q = ''/api/v1/crm/public/identity/profile/me'' then GetMeRoute
     else NoRoute)"

lemma mutating_routes: "req_Method q \<noteq> ''GET'' \<Longrightarrow> route_of q \<in> {SignUpRoute, SignInRoute, SignOutRoute, NoRoute}"
  by (simp add: route_of_def)

lemma NewHandler_route:
  "NewHandler ul spec d (c, w) = (case route_of (rc_req c) of
     SignUpRoute \<Rightarrow> publicMutatingChain ul d (SignUp_Handle ul (NewSignUpHandler (dep_SignUp d) (dep_Cookie d))) (c, w)
   | SignInRoute \<Rightarrow> publicMutatingChain ul d (SignIn_Handle ul (NewSignInHandler (dep_SignIn d) (dep_Cookie d))) (c, w)
   | SignOutRoute \<Rightarrow> protectedMutatingChain ul d (SignOut_Handle ul (NewSignOutHandler (dep_SignOut d) (dep_Cookie d))) (c, w)
   | GetMeRoute \<Rightarrow> protectedReadChain ul d (GetMe_Handle ul (NewGetMeHandler (dep_GetMe d))) (c, w)
   | HealthzRoute \<Rightarrow> infraChain d Healthz (c, w)
   | OpenAPIRoute \<Rightarrow> infraChain d (OpenAPI spec) (c, w)
   | NoRoute \<Rightarrow> (Ret (), (respond ''application/json'' 404 not_found_body c, w)))"
  by (simp add: NewHandler_def Let_def bindg_def ctx_get_def reads_def route_of_def WriteJSON_def ctx_set_def modifies_def)

text \<open>The router of \<open>cmd/server\<close>, with the names of the production environment.\<close>

definition server_handler ::
  "uuid_lib \<Rightarrow> argon2_kdf \<Rightarrow> string \<Rightarrow> string \<Rightarrow> Config \<Rightarrow> 'p pgx \<Rightarrow> 'k SessionCache \<Rightarrow> (('p, 'k) world) sign_in_UseCase \<Rightarrow>
    (('p, 'k) world) RequestHandler" where
  "server_handler ul kdf spec stack cfg pool cl uc = NewHandler ul spec (server_Deps ul kdf stack cfg pool cl uc)"

lemma prod_deps_sel [simp]:
  "dep_SignUp (server_Deps ul kdf stack cfg pool cl uc) = prod_sign_up pool cl ul kdf (server_params cfg) (SessionTTL cfg)" "dep_SignIn (server_Deps ul kdf stack cfg pool cl uc) = uc"
  "dep_SignOut (server_Deps ul kdf stack cfg pool cl uc) = prod_sign_out pool cl ul" "dep_GetMe (server_Deps ul kdf stack cfg pool cl uc) = prod_get_me pool"
  "dep_Cookie (server_Deps ul kdf stack cfg pool cl uc) = \<lparr>cookie_Secure = CookieSecure cfg\<rparr>" "dep_Recover (server_Deps ul kdf stack cfg pool cl uc) = Recover stack" "dep_AccessLog (server_Deps ul kdf stack cfg pool cl uc) = AccessLog ul"
  "dep_OTel (server_Deps ul kdf stack cfg pool cl uc) = OTelTrace" "dep_Origin (server_Deps ul kdf stack cfg pool cl uc) = OriginCheck (AllowedOrigins cfg)" "dep_SessionMW (server_Deps ul kdf stack cfg pool cl uc) = prod_session pool cl ul"
  by (simp_all add: server_Deps_def Let_def prod_sign_up_def prod_sign_out_def prod_get_me_def prod_session_def)

lemma prod_chains [simp]:
  "publicMutatingChain ul (server_Deps ul kdf stack cfg pool cl uc) h = outer ul stack (OriginCheck (AllowedOrigins cfg) h)"
  "protectedMutatingChain ul (server_Deps ul kdf stack cfg pool cl uc) h = outer ul stack (prod_session pool cl ul (OriginCheck (AllowedOrigins cfg) h))"
  "protectedReadChain ul (server_Deps ul kdf stack cfg pool cl uc) h = outer ul stack (prod_session pool cl ul h)"
  "infraChain (server_Deps ul kdf stack cfg pool cl uc) h = Recover stack (AccessLog ul h)"
  by (simp_all add: publicMutatingChain_def protectedMutatingChain_def protectedReadChain_def infraChain_def Chain_order outer_def)

lemma booted_sign_in:
  "server_sign_in ul kdf cfg pool cache = prod_sign_in pool cache ul kdf (server_params cfg) (SessionTTL cfg)"
  by (simp add: server_sign_in_def prod_sign_in_def)

subsection \<open>Every request is answered and logged\<close>

definition request_logged :: "rctx \<Rightarrow> rctx \<Rightarrow> log_line list \<Rightarrow> bool" where
  "request_logged c c' logs =
    (logs \<noteq> [] \<and>
     (log_msg (last logs) = ''request'' \<and> log_level (last logs) = status_level (rc_status c')
        \<and> {(''method'', req_Method (rc_req c)), (''path'', req_Path (rc_req c)), (''status'', int_string (rc_status c'))}
            \<subseteq> set (log_attrs (last logs))
      \<or> log_msg (last logs) = ''panic recovered'' \<and> log_level (last logs) = Error \<and> rc_status c' = 500))"

lemma logged_wrapper:
  "wp (Recover stack (AccessLog ul m)) (\<lambda>r cw. r = Ret () \<and> request_logged c (fst cw) (rt_logs (snd cw))) (c, w)"
proof -
  have "wp m (\<lambda>r cw. True) (c, tick w)" by (simp add: wp_def split: prod.split)
  then show ?thesis
    unfolding wp_Recover wp_AccessLog
    by (rule wp_mono) (auto simp: request_logged_def log_to_def access_attrs_def Internal_def split: outcome.splits)
qed

text \<open>C20: every request is answered and logged. Whatever the handlers, the other wrappers and the servers do, the
  router returns normally. A request without a route gets a 404 and leaves no trace; for a routed request
  the last line of the log either reports the method, the path and the status that was sent, at the level of that
  status, or it reports a panic, and then the status is 500.\<close>

theorem every_request_answered:
  "\<exists>c' w'. NewHandler ul spec (d\<lparr>dep_Recover := Recover stack, dep_AccessLog := AccessLog ul\<rparr>) (c, w) = (Ret (), (c', w'))
    \<and> (if route_of (rc_req c) = NoRoute then rc_status c' = 404 \<and> w' = w else request_logged c c' (rt_logs w'))"
proof -
  have "\<exists>c' w'. Recover stack (AccessLog ul m) (c, w) = (Ret (), (c', w')) \<and> request_logged c c' (rt_logs w')" for m
    using logged_wrapper [of stack ul m c w] by (auto simp: wp_def split: prod.splits)
  then show ?thesis
    by (cases "route_of (rc_req c)")
       (simp_all add: NewHandler_route publicMutatingChain_def protectedMutatingChain_def protectedReadChain_def infraChain_def
        Chain_order respond_def)
qed

subsection \<open>Requests from foreign origins\<close>

lemma quiet_pg_db: "quiet w w' \<Longrightarrow> pg_db committed w s \<Longrightarrow> pg_db committed w' s"
  using w_pg_more [OF quiet_more, of w w'] by (simp add: pg_db_def)

lemma quiet_kv_cached: "quiet w w' \<Longrightarrow> kv_cached content ul w' = kv_cached content ul w"
  using w_kv_more [OF quiet_more, of w w'] by (simp add: kv_cached_def fun_eq_iff)

definition refused :: "('p \<Rightarrow> tables) \<Rightarrow> store \<Rightarrow> cookie list \<Rightarrow> rctx \<Rightarrow> ('p, 'k) world \<Rightarrow> bool" where
  "refused committed s cookies c w = (pg_db committed w s \<and> rc_cookies c = cookies \<and> rc_status c \<in> {401, 403, 404, 500})"

lemma settled_refused: "settled (refused committed s cookies)"
  by (auto simp: settled_def refused_def dest: quiet_pg_db)

lemma refused_failed:
  "pg_db committed w s \<Longrightarrow> rc_cookies c = cookies \<Longrightarrow> resp_Status r \<in> {401, 403, 404, 500} \<Longrightarrow> refused committed s cookies (failed r c) w"
  by (simp add: refused_def)

lemmas response_defs = SessionRequired_def SessionInvalid_def Internal_def Forbidden_def InvalidBody_def

lemma origin_refuses:
  assumes "\<not> origin_ok allowed (rc_req c)" "pg_db committed w s"
  shows "answers (OriginCheck allowed h) (refused committed s (rc_cookies c)) c w"
proof -
  from OriginCheck_result [of allowed c h w] assms(1) obtain msg attrs where
    "OriginCheck allowed h (c, w) = (Ret (), (failed Forbidden c, log_to Warn msg attrs w))" by auto
  moreover have "pg_db committed (log_to Warn msg attrs w) s" by (rule quiet_pg_db [OF log_to_more(2) assms(2)])
  ultimately show ?thesis by (simp add: answers_def wp_def refused_failed response_defs)
qed

text \<open>The origin check as a rule.\<close>

lemma origin_answers:
  assumes "settled Q" "answers h Q c w" "Q (failed Forbidden c) w"
  shows "answers (OriginCheck allowed h) Q c w"
proof -
  have "Q (failed Forbidden c) (log_to l msg attrs w)" for l msg attrs
    by (rule settled_quiet [OF assms(1,3) log_to_more(2)])
  with OriginCheck_result [of allowed c h w] assms(2) show ?thesis
    by (auto simp: answers_def wp_def split: if_splits)
qed

lemma public_route_law:
  assumes Q: "settled Q"
    and inner: "\<And>c' w'. entered ul c c' \<Longrightarrow> quiet w w' \<Longrightarrow> answers h Q c' w'"
    and failed: "\<And>r c' w'. r = Forbidden \<or> r = Internal \<Longrightarrow> rc_cookies c' = rc_cookies c \<Longrightarrow> quiet w w' \<Longrightarrow> Q (failed r c') w'"
  shows "wp (outer ul stack (OriginCheck allowed h)) (\<lambda>r cw. r = Ret () \<and> Q (fst cw) (snd cw)) (c, w)"
  by (rule outer_law [OF Q], rule origin_answers [OF Q inner]) (auto simp: entered_def intro: failed)

context production
begin

text \<open>The session middleware as a rule: what it answers itself, and what it calls the next handler with.\<close>

lemma session_answers:
  fixes w :: "('p, 'k) world"
  assumes db: "pg_db committed w s"
    and missing: "\<And>raw. ReadSessionCookieFast c = (raw, False) \<Longrightarrow> Q (failed SessionRequired c) w"
    and rejected: "\<And>raw r w'. ReadSessionCookieFast c = (raw, True) \<Longrightarrow>
      authenticate (pg_SessionRepository drv) (Some (valkey_SessionCache cl ul)) raw w = (Ret (Inl r), w') \<Longrightarrow>
      r = SessionInvalid \<or> r = Internal \<and> \<not> up (w_pg w) \<Longrightarrow> store.after w s w' \<Longrightarrow> Q (failed r c) w'"
    and accepted: "\<And>raw u sid t w'. ReadSessionCookieFast c = (raw, True) \<Longrightarrow>
      authenticate (pg_SessionRepository drv) (Some (valkey_SessionCache cl ul)) raw w = (Ret (Inr (u, sid, t)), w') \<Longrightarrow>
      store.after w s w' \<Longrightarrow> answers h Q (set_identity u sid t (hex_EncodeToString (HashOf raw)) c) w'"
  shows "answers (prod_session drv cl ul h) Q c w"
proof -
  obtain raw ok where ck: "ReadSessionCookieFast c = (raw, ok)" by fastforce
  show ?thesis
  proof (cases ok)
    case False
    with ck missing show ?thesis by (simp add: answers_def wp_def prod_session_def SessionMW_result)
  next
    case True
    with ck have ck': "ReadSessionCookieFast c = (raw, True)" by simp
    obtain r w' where e: "authenticate (pg_SessionRepository drv) (Some (valkey_SessionCache cl ul)) raw w = (r, w')" by fastforce
    note post = wpD [OF env.authenticate_law [OF db] e, unfolded env.auth_post_def]
    have run: "prod_session drv cl ul h (c, w) = (case (r, w') of
         (Ret (Inl r), w') \<Rightarrow> (Ret (), (failed r c, w'))
       | (Ret (Inr (u, s, t)), w') \<Rightarrow> h (set_identity u s t (hex_EncodeToString (HashOf raw)) c, w')
       | (Panic p, w') \<Rightarrow> (Panic p, (c, w')))"
      using cookie_found [OF ck'] by (simp add: prod_session_def SessionMW_result ck' e)
    show ?thesis
    proof (cases r rule: outcome_sum_cases)
      case (1 x)
      with post rejected [OF ck' e [unfolded 1]] show ?thesis by (auto simp: answers_def wp_def run)
    next
      case (2 z)
      obtain u sid t where z: "z = (u, sid, t)" by (cases z)
      from accepted [OF ck' e [unfolded 2 z]] post show ?thesis by (simp add: answers_def wp_def run 2 z)
    qed (use post in simp)
  qed
qed

lemma session_refuses:
  fixes w :: "('p, 'k) world"
  assumes db: "pg_db committed w s"
    and h: "\<And>c' w'. rc_req c' = rc_req c \<Longrightarrow> rc_cookies c' = rc_cookies c \<Longrightarrow> pg_db committed w' s \<Longrightarrow>
      answers h (refused committed s (rc_cookies c)) c' w'"
  shows "answers (prod_session drv cl ul h) (refused committed s (rc_cookies c)) c w"
proof (rule session_answers [OF db], goal_cases)
  case (1 raw)
  from db show ?case by (simp add: refused_failed response_defs)
next
  case (2 raw r w')
  then show ?case by (auto simp: refused_failed response_defs store.after_def)
next
  case (3 raw u sid t w')
  then show ?case by (intro h) (simp_all add: set_identity_def SetUserValue_def store.after_def)
qed

lemma foreign_refused:
  fixes w :: "('p, 'k) world"
  assumes db: "pg_db committed w s" and o: "\<not> origin_ok (AllowedOrigins cfg) (rc_req c)" and m: "req_Method (rc_req c) \<noteq> ''GET''"
  shows "wp (server_handler ul kdf spec stack cfg drv cl uc) (\<lambda>r cw. r = Ret () \<and> refused committed s (rc_cookies c) (fst cw) (snd cw)) (c, w)"
proof -
  have db': "pg_db committed w' s" if "quiet w w'" for w' using quiet_pg_db [OF that db] .
  have o': "\<not> origin_ok (AllowedOrigins cfg) (rc_req c')" if "rc_req c' = rc_req c" for c' :: rctx using that o by simp
  have out: "wp (outer ul stack h) (\<lambda>r cw. r = Ret () \<and> refused committed s (rc_cookies c) (fst cw) (snd cw)) (c, w)"
    if "\<And>c' w'. rc_req c' = rc_req c \<Longrightarrow> rc_cookies c' = rc_cookies c \<Longrightarrow> pg_db committed w' s \<Longrightarrow>
      answers h (refused committed s (rc_cookies c)) c' w'" for h
    by (rule outer_law [OF settled_refused]) (auto simp: entered_def db' refused_failed response_defs intro!: that)
  have origin: "answers (OriginCheck (AllowedOrigins cfg) h) (refused committed s (rc_cookies c)) c' w'"
    if "rc_req c' = rc_req c" "rc_cookies c' = rc_cookies c" "pg_db committed w' s" for h c' and w' :: "('p, 'k) world"
    using origin_refuses [OF o' [OF that(1)] that(3)] that(2) by simp
  have prot: "answers (prod_session drv cl ul (OriginCheck (AllowedOrigins cfg) h)) (refused committed s (rc_cookies c)) c' w'"
    if c: "rc_req c' = rc_req c" "rc_cookies c' = rc_cookies c" "pg_db committed w' s" for h c' and w' :: "('p, 'k) world"
    using session_refuses [OF c(3), of c' "OriginCheck (AllowedOrigins cfg) h"] origin c by simp
  have none: "refused committed s (rc_cookies c) (respond ''application/json'' 404 not_found_body c) w"
    using db by (simp add: refused_def respond_def)
  from m consider "route_of (rc_req c) = SignUpRoute" | "route_of (rc_req c) = SignInRoute" | "route_of (rc_req c) = SignOutRoute"
    | "route_of (rc_req c) = NoRoute"
    using mutating_routes [OF m] by blast
  then show ?thesis
    using out [OF origin] out [OF prot] none
    by cases (simp_all add: server_handler_def NewHandler_route wp_def)
qed

end

text \<open>C9: requests from foreign origins write nothing. A request with a method other than \<open>GET\<close> whose \<open>Origin\<close>, or without
  one whose \<open>Referer\<close>, is not on the allow-list is answered with 401, 403, 404 or 500; it sets no cookie and leaves
  every user, session and event of the database as it is, whatever cookie it carries.\<close>

theorem foreign_origin_writes_nothing:
  fixes w :: "('p, 'k) world" and cl :: "'k SessionCache"
  assumes "production drv committed txview up rnd cl content kvup ul kdf ps"
    and "pg_db committed w s" and "req_Method (rc_req c) \<noteq> ''GET''" and "\<not> origin_ok (AllowedOrigins cfg) (rc_req c)"
  shows "\<exists>c' w'. server_handler ul kdf spec stack cfg drv cl uc (c, w) = (Ret (), (c', w')) \<and> pg_db committed w' s
    \<and> rc_cookies c' = rc_cookies c \<and> rc_status c' \<in> {401, 403, 404, 500}"
  using production.foreign_refused [OF assms(1,2,4,3), of spec stack uc]
  by (auto simp: wp_def refused_def split: prod.splits)

subsection \<open>The profile\<close>

definition profile_body :: "uuid_lib \<Rightarrow> User \<Rightarrow> string" where
  "profile_body ul u =
    (case marshal_MeResponse \<lparr>me_UserID = uuid_String ul (user_id u), me_Email = email_String (user_email u),
        me_Status = user_status u, me_CreatedAt = user_createdAt u\<rparr> of None \<Rightarrow> '''' | Some resp \<Rightarrow> resp)"

definition own_profile :: "uuid_lib \<Rightarrow> ('p \<Rightarrow> tables) \<Rightarrow> store \<Rightarrow> rctx \<Rightarrow> rctx \<Rightarrow> ('p, 'k) world \<Rightarrow> bool" where
  "own_profile ul committed s c c' w' =
    (pg_db committed w' s \<and> rc_cookies c' = rc_cookies c \<and>
     (rc_status c' \<in> {401, 500} \<or>
      rc_status c' = 200 \<and> (\<exists>raw x u. ReadSessionCookieFast c = (raw, True) \<and> find_session s (HashOf raw) = Some x
        \<and> find_user_by_id s (session_tenantID x) (session_userID x) = Some u \<and> rc_body c' = profile_body ul u)))"

lemma settled_own_profile: "settled (own_profile ul committed s c)"
  by (auto simp: settled_def own_profile_def dest: quiet_pg_db)

lemma set_identity_sel:
  "mustTenant ul (set_identity u sid t h c) = t" "userIDOrNil (set_identity u sid t h c) = u"
  "sessionIDOrNil (set_identity u sid t h c) = sid" "tokenHashHex (set_identity u sid t h c) = h"
  "rc_req (set_identity u sid t h c) = rc_req c" "rc_cookies (set_identity u sid t h c) = rc_cookies c"
  by (simp_all add: set_identity_def SetUserValue_def mustTenant_def userIDOrNil_def sessionIDOrNil_def tokenHashHex_def
      uuid_value_def text_value_def UV_defs)

lemma ReadSessionCookieFast_req: "rc_req c' = rc_req c \<Longrightarrow> ReadSessionCookieFast c' = ReadSessionCookieFast c"
  by (simp add: ReadSessionCookieFast_def Let_def)

context production
begin

lemma get_me_handler:
  fixes w :: "('p, 'k) world"
  assumes db: "pg_db committed w s" and c': "rc_req c' = rc_req c" "rc_cookies c' = rc_cookies c"
    and x: "ReadSessionCookieFast c = (raw, True)" "find_session s (HashOf raw) = Some x"
      "session_tenantID x = mustTenant ul c'" "session_userID x = userIDOrNil c'"
  shows "answers (GetMe_Handle ul (NewGetMeHandler (prod_get_me drv))) (own_profile ul committed s c) c' w"
proof -
  obtain r w' where e: "get_me_Execute (prod_get_me drv) \<lparr>gm_TenantID = mustTenant ul c', gm_UserID = userIDOrNil c'\<rparr> w = (r, w')"
    by fastforce
  note post = get_me_prod [OF db e]
  have fail: "own_profile ul committed s c (failed (FromGetMe err) c') w'" for err
    using post c' by (cases err) (simp_all add: own_profile_def FromGetMe_def Internal_def)
  show ?thesis
  proof (cases r rule: outcome_sum_cases)
    case (1 err)
    then show ?thesis
      using fail by (simp add: answers_def GetMe_Handle_def NewGetMeHandler_def wp_bindg wp_ctx_get wp_tryg wp_use wp_def [of "get_me_Execute _ _"] e
          wp_def [of "WriteFast _"] WriteFast_failed)
  next
    case (2 out)
    with post obtain u where "find_user_by_id s (mustTenant ul c') (userIDOrNil c') = Some u"
      "out = \<lparr>gm_OutUserID = user_id u, gm_Email = email_String (user_email u), gm_Status = user_status u,
                 gm_CreatedAt = user_createdAt u\<rparr>" by auto
    with post 2 x c' show ?thesis
      by (auto simp: answers_def GetMe_Handle_def NewGetMeHandler_def wp_bindg wp_ctx_get wp_ctx_set wp_tryg wp_use wp_def [of "get_me_Execute _ _"] e
          own_profile_def respond_def profile_body_def)
  qed (use post in simp)
qed

lemma profile_prod:
  fixes w :: "('p, 'k) world"
  assumes db: "pg_db committed w s" and co: "coherent rnd (kv_cached content ul w) s" and r: "route_of (rc_req c) = GetMeRoute"
  shows "wp (server_handler ul kdf spec stack cfg drv cl uc) (\<lambda>r cw. r = Ret () \<and> own_profile ul committed s c (fst cw) (snd cw)) (c, w)"
proof -
  have "wp (outer ul stack (prod_session drv cl ul (GetMe_Handle ul (NewGetMeHandler (prod_get_me drv)))))
    (\<lambda>r cw. r = Ret () \<and> own_profile ul committed s c (fst cw) (snd cw)) (c, w)"
  proof (rule outer_law [OF settled_own_profile], goal_cases)
    case (1 c' w')
    note db' = quiet_pg_db [OF 1(2) db] and co' = co [folded quiet_kv_cached [OF 1(2)]]
    from 1(1) have c': "rc_req c' = rc_req c" "rc_cookies c' = rc_cookies c" by (simp_all add: entered_def)
    show ?case
    proof (rule session_answers [OF db'], goal_cases)
      case (3 raw u sid t w2)
      from wpD [OF env.authenticate_sound [OF db' co'] 3(2)] obtain x where
        "find_session s (HashOf raw) = Some x" "session_userID x = u" "session_id x = sid" "session_tenantID x = t" by blast
      with 3 c' ReadSessionCookieFast_req [OF c'(1)] show ?case
        by (intro get_me_handler) (simp_all add: set_identity_sel store.after_def)
    qed (use db' c' in \<open>auto simp: own_profile_def response_defs store.after_def\<close>)
  next
    case (2 w')
    then show ?case using quiet_pg_db [OF _ db] by (simp add: own_profile_def response_defs)
  qed
  then show ?thesis using r by (simp add: server_handler_def NewHandler_route wp_def)
qed

end

text \<open>C8: a profile is shown only to its owner. In every state in which the cache agrees with the database (and the
  service reaches no other), a request for the profile leaves the database as it is, and it is answered with 401
  or 500, or with 200 and the data of the user to whom the session belongs that is stored under the hash of the
  token in the cookie.\<close>

theorem profile_only_own:
  fixes w :: "('p, 'k) world" and cl :: "'k SessionCache"
  assumes "production drv committed txview up rnd cl content kvup ul kdf ps"
    and "pg_db committed w s" and "coherent rnd (kv_cached content ul w) s" and "route_of (rc_req c) = GetMeRoute"
  shows "\<exists>c' w'. server_handler ul kdf spec stack cfg drv cl uc (c, w) = (Ret (), (c', w'))
    \<and> pg_db committed w' s \<and> rc_cookies c' = rc_cookies c
    \<and> (rc_status c' \<in> {401, 500} \<or>
       rc_status c' = 200 \<and> (\<exists>raw x u. ReadSessionCookieFast c = (raw, True) \<and> find_session s (HashOf raw) = Some x
         \<and> find_user_by_id s (session_tenantID x) (session_userID x) = Some u \<and> rc_body c' = profile_body ul u))"
  using production.profile_prod [OF assms, of spec stack cfg uc]
  by (auto simp: wp_def own_profile_def split: prod.splits)

subsection \<open>Sign-out and sign-in seen by the next request\<close>

lemma hex_HashOf_nonempty: "hex_EncodeToString (HashOf raw) \<noteq> ''''"
proof -
  have "length (HashOf raw) = 32" using length_token_Hash [of "Token raw"] HashOf_token [of "Token raw"] by simp
  then have "length (hex_EncodeToString (HashOf raw)) = 64" by simp
  then show ?thesis by (metis list.size(3) zero_neq_numeral)
qed

lemma sign_in_new_session:
  assumes "sign_in_effect verifies rnd ul ttl i out s s'"
  shows "\<exists>x \<in> set (st_sessions s'). session_tokenHash x = HashOf (si_SessionToken out) \<and> session_userID x = si_UserID out
    \<and> session_tenantID x = si_TenantID i \<and> session_revokedAt x = None \<and> session_expiresAt x = rnd (si_SessionExpiresAt out)"
proof -
  from assms obtain sid now es where
    s': "s' = s\<lparr>st_sessions := st_sessions s @ [round_session rnd (session_New sid (si_TenantID i) (si_UserID out)
        (HashOf (si_SessionToken out)) now (si_SessionExpiresAt out))], st_events := es\<rparr>"
    by (auto simp: sign_in_effect_def)
  show ?thesis by (rule bexI [where x = "last (st_sessions s')"]) (simp_all add: s' round_session_def session_New_def)
qed

lemma session_row_inject: "session_row x = session_row y \<longleftrightarrow> x = y"
proof
  assume "session_row x = session_row y"
  then have "(Inr x :: error + Session) = Inr y" using hydrate_session_row by metis
  then show "x = y" by simp
qed simp

lemma same_find:
  assumes "pg_db committed w s" "pg_db committed w s'"
  shows "find_session s h = find_session s' h"
proof -
  from assms have "tables_of s ''identity.sessions'' = tables_of s' ''identity.sessions''" unfolding pg_db_def by simp
  then have "map session_row (st_sessions s) = map session_row (st_sessions s')" by (simp only: tables_of_simps)
  then have "st_sessions s = st_sessions s'"
    by (rule map_injective) (simp add: inj_def session_row_inject)
  then show ?thesis by (simp add: find_session_def)
qed

context production
begin

lemma signed_out_prod:
  fixes w :: "('p, 'k) world"
  assumes db: "pg_db committed w s" and kv: "kvup (w_kv w)" and x: "find_session s (HashOf raw) = Some x"
    and i: "so_TenantID i = session_tenantID x" "so_SessionID i = session_id x" "so_TokenHashHex i = hex_EncodeToString (HashOf raw)"
    and e: "sign_out_Execute ul (prod_sign_out drv cl ul) i w = (Ret (Inr ()), w')" and ck: "ReadSessionCookieFast c = (raw, True)"
  shows "\<exists>r w''. prod_session drv cl ul next (c, w') = (Ret (), (failed r c, w''))
    \<and> (r = SessionInvalid \<or> r = Internal \<and> \<not> up (w_pg w'))"
proof -
  from sign_out_prod [OF db e] obtain s' where eff: "sign_out_effect rnd ul i s s'" and db': "pg_db committed w' s'" by auto
  from sign_out_effect_revokes(3) [OF eff x] obtain x' where
    x': "find_session s' (HashOf raw) = Some x'" "session_id x' = session_id x" "session_tenantID x' = session_tenantID x" by blast
  have "session_revokedAt x' \<noteq> None"
    using sign_out_effect_revokes(2) [OF eff, of x'] find_session_Some [OF x'(1)] x'(2,3) i(1,2) by (simp add: is_session_def)
  then have dead: "\<not> IsActive x' now" for now by (simp add: IsActive_iff)
  have "so_TokenHashHex i \<noteq> ''''" by (simp add: i(3) hex_HashOf_nonempty)
  with sign_out_cache_prod [OF e] kv i(3) have cache: "kv_cached content ul w' (hex_EncodeToString (HashOf raw)) = None" by simp
  from session_gate_prod [OF db', of "next" c] cache x'(1) dead show ?thesis by (auto simp: ck)
qed

lemma signed_in_prod:
  fixes w :: "('p, 'k) world"
  assumes uc: "prod_sign_in drv cl ul kdf ps ttl w0 = (Ret (Inr uc), w1)"
    and db: "pg_db committed w s" and co: "coherent rnd (kv_cached content ul w) s"
    and e: "sign_in_Execute ul uc i w = (Ret (Inr out), w')" and up: "up (w_pg w')"
    and ck: "ReadSessionCookieFast c = (si_SessionToken out, True)"
    and clk: "\<And>n. rt_clock_i w' \<le> n \<Longrightarrow> rt_clock w' n < rnd (si_SessionExpiresAt out)"
  shows "\<exists>sid w''. prod_session drv cl ul next (c, w') = next (set_identity (si_UserID out) sid (si_TenantID i)
    (hex_EncodeToString (HashOf (si_SessionToken out))) c, w'')"
proof -
  let ?tok = "si_SessionToken out"
  from sign_in_prod [OF uc db e] obtain s' where eff: "sign_in_effect (argon2_verifies kdf) rnd ul ttl i out s s'"
    and db': "pg_db committed w' s'" by auto
  from eff obtain x where x: "x \<in> set (st_sessions s')" "session_tokenHash x = HashOf ?tok" "session_userID x = si_UserID out"
    "session_tenantID x = si_TenantID i" "session_revokedAt x = None" "session_expiresAt x = rnd (si_SessionExpiresAt out)"
    using sign_in_new_session by blast
  have f: "find_session s' (HashOf ?tok) = Some x"
    using find_session_unique [OF _ x(1,2)] db' by (simp add: pg_db_def)
  have live: "rt_clock_i w' \<le> n \<Longrightarrow> IsActive x (rt_clock w' n)" for n using clk x(5,6) by (simp add: IsActive_iff)
  from run_coherent [OF db co r_into_rtranclp, of ttl w'] step_sign_in [OF uc e]
  obtain s2 where s2: "pg_db committed w' s2" "coherent rnd (kv_cached content ul w') s2" by blast
  obtain r w'' where auth: "authenticate (pg_SessionRepository drv) (Some (valkey_SessionCache cl ul)) ?tok w' = (r, w'')" by fastforce
  from wpD [OF env.authenticate_live [OF db' up f live] auth] obtain u sid t where r: "r = Ret (Inr (u, sid, t))" by auto
  from wpD [OF env.authenticate_sound [OF s2] auth] r same_find [OF db' s2(1), of "HashOf ?tok"] f x(3,4)
  have id: "u = si_UserID out" "t = si_TenantID i" by auto
  show ?thesis
    using cookie_found [OF ck] by (auto simp: prod_session_def SessionMW_result ck auth r id)
qed

end

text \<open>C12: signing out ends the session. If a session is signed out while the cache answers, then the next request with
  its token, whenever it comes and as long as nothing else has written, is rejected: with 401, or with 500 if the
  database is down.\<close>

theorem signed_out_is_rejected:
  fixes w :: "('p, 'k) world" and cl :: "'k SessionCache"
  assumes "production drv committed txview up rnd cl content kvup ul kdf ps"
    and "pg_db committed w s" and "kvup (w_kv w)" and "find_session s (HashOf raw) = Some x"
    and "so_TenantID i = session_tenantID x" "so_SessionID i = session_id x" "so_TokenHashHex i = hex_EncodeToString (HashOf raw)"
    and "sign_out_Execute ul (prod_sign_out drv cl ul) i w = (Ret (Inr ()), w')" and "ReadSessionCookieFast c = (raw, True)"
  shows "\<exists>r w''. prod_session drv cl ul next (c, w') = (Ret (), (failed r c, w''))
    \<and> (r = SessionInvalid \<or> r = Internal \<and> \<not> up (w_pg w'))"
  using production.signed_out_prod [OF assms] .

text \<open>C13: signing in opens a session. After a successful sign-in, from a state in which the cache agrees with the database,
  a request that carries the returned token is let through as the user who signed in, whatever the cache does,
  as long as the database is up and the clock has not reached the expiry.\<close>

theorem signed_in_is_accepted:
  fixes w :: "('p, 'k) world" and cl :: "'k SessionCache"
  assumes "production drv committed txview up rnd cl content kvup ul kdf ps"
    and "prod_sign_in drv cl ul kdf ps ttl w0 = (Ret (Inr uc), w1)"
    and "pg_db committed w s" and "coherent rnd (kv_cached content ul w) s"
    and "sign_in_Execute ul uc i w = (Ret (Inr out), w')" and "up (w_pg w')"
    and "ReadSessionCookieFast c = (si_SessionToken out, True)"
    and "\<And>n. rt_clock_i w' \<le> n \<Longrightarrow> rt_clock w' n < rnd (si_SessionExpiresAt out)"
  shows "\<exists>sid w''. prod_session drv cl ul next (c, w') = next (set_identity (si_UserID out) sid (si_TenantID i)
    (hex_EncodeToString (HashOf (si_SessionToken out))) c, w'')"
  using production.signed_in_prod [OF assms] .

subsection \<open>Sign-in over HTTP\<close>

definition sign_in_input :: "uuid_lib \<Rightarrow> SignInRequest \<Rightarrow> sign_in_Input" where
  "sign_in_input ul req = \<lparr>si_TenantID = tenant_DefaultID ul, si_Email = sireq_Email req, si_Password = sireq_Password req\<rparr>"

definition session_cookie :: "cookie_Config \<Rightarrow> string \<Rightarrow> time \<Rightarrow> cookie \<Rightarrow> bool" where
  "session_cookie cfg token expires k = (ck_Key k = cookie_Name cfg \<and> ck_Value k = token \<and> ck_Path k = ''/''
     \<and> ck_Expire k = ExpireAt expires \<and> ck_HTTPOnly k \<and> ck_Secure k = cookie_Secure cfg \<and> ck_SameSite k = CookieSameSiteLaxMode)"

text \<open>What a request to sign in may end with: a session, its cookie and 200; or an error, and no cookie.\<close>

definition sign_in_answer ::
  "uuid_lib \<Rightarrow> argon2_kdf \<Rightarrow> (time \<Rightarrow> time) \<Rightarrow> Config \<Rightarrow> ('p \<Rightarrow> tables) \<Rightarrow> bool \<Rightarrow> store \<Rightarrow> rctx \<Rightarrow> rctx \<Rightarrow> ('p, 'k) world \<Rightarrow> bool" where
  "sign_in_answer ul kdf rnd cfg committed alive s c c' w' =
    (rc_status c' = 200 \<and> (\<exists>req out s' k. decode_SignInRequest (req_PostBody (rc_req c)) = Some req
        \<and> sign_in_effect (argon2_verifies kdf) rnd ul (SessionTTL cfg) (sign_in_input ul req) out s s' \<and> pg_db committed w' s'
        \<and> rc_cookies c' = filter (\<lambda>k'. ck_Key k' \<noteq> ck_Key k) (rc_cookies c) @ [k]
        \<and> session_cookie \<lparr>cookie_Secure = CookieSecure cfg\<rparr> (si_SessionToken out) (si_SessionExpiresAt out) k
        \<and> rc_body c' = marshal_SignInResponse \<lparr>siresp_UserID = uuid_String ul (si_UserID out)\<rparr>)
     \<or> rc_status c' \<in> {400, 401, 403, 500} \<and> rc_cookies c' = rc_cookies c \<and> (pg_db committed w' s \<or> rc_status c' = 500 \<and> \<not> alive))"

lemma settled_sign_in_answer:
  fixes committed :: "'p \<Rightarrow> tables"
  shows "settled (sign_in_answer ul kdf rnd cfg committed alive s c :: rctx \<Rightarrow> ('p, 'k) world \<Rightarrow> bool)"
  unfolding settled_def
proof (intro allI impI)
  fix c1 sp and w w' :: "('p, 'k) world"
  assume a: "sign_in_answer ul kdf rnd cfg committed alive s c c1 w" and q: "quiet w w'"
  have "pg_db committed w x \<Longrightarrow> pg_db committed w' x" for x using quiet_pg_db [OF q] .
  with a show "sign_in_answer ul kdf rnd cfg committed alive s c (c1\<lparr>rc_spans := sp\<rparr>) w'"
    unfolding sign_in_answer_def by (auto 0 4)
qed

lemma SetFast_result:
  "\<exists>k. SetFast cfg token e (c, w) = (Ret (), (SetCookie k c, tick w)) \<and> session_cookie cfg token e k"
  unfolding SetFast_def bindg_def use_def time_Until_def time_Now_def ret_def ctx_set_def modifies_def
  by (simp only: prod.case outcome.case fst_conv snd_conv, rule exI, rule conjI, rule refl) (simp add: session_cookie_def)

lemma sign_in_handler_result:
  fixes w :: "'a rt_scheme"
  shows "SignIn_Handle ul (NewSignInHandler uc ck) (c, w) =
    (if length (req_PostBody (rc_req c)) > maxBodyBytes then (Ret (), (failed InvalidBody c, w))
     else case decode_SignInRequest (req_PostBody (rc_req c)) of
       None \<Rightarrow> (Ret (), (failed InvalidBody c, w))
     | Some req \<Rightarrow>
       (case sign_in_Execute ul uc \<lparr>si_TenantID = mustTenant ul c, si_Email = sireq_Email req, si_Password = sireq_Password req\<rparr> w of
          (Ret (Inl err), w') \<Rightarrow> (Ret (), (failed (FromSignIn err) c, w'))
        | (Ret (Inr out), w') \<Rightarrow> seqg (SetFast ck (si_SessionToken out) (si_SessionExpiresAt out))
            (ctx_set (respond ''application/json'' 200
               (marshal_SignInResponse \<lparr>siresp_UserID = uuid_String ul (si_UserID out)\<rparr>))) (c, w')
        | (Panic p, w') \<Rightarrow> (Panic p, (c, w'))))"
  by (simp add: SignIn_Handle_def NewSignInHandler_def Let_def bindg_def tryg_def ctx_get_def reads_def use_def WriteFast_failed
      split: option.split prod.split outcome.split sum.split)

context production
begin

lemma sign_in_handler:
  fixes w :: "('p, 'k) world"
  assumes uc: "prod_sign_in drv cl ul kdf ps (SessionTTL cfg) w0 = (Ret (Inr uc), w1)" and db: "pg_db committed w s"
    and c': "entered ul c c'" and h: "alive = up (w_pg w)"
  shows "answers (SignIn_Handle ul (NewSignInHandler uc \<lparr>cookie_Secure = CookieSecure cfg\<rparr>))
    (sign_in_answer ul kdf rnd cfg committed alive s c) c' w"
proof -
  from c' have req: "rc_req c' = rc_req c" "rc_cookies c' = rc_cookies c" "mustTenant ul c' = tenant_DefaultID ul"
    by (simp_all add: entered_def mustTenant_def)
  note res = sign_in_handler_result [of ul uc "\<lparr>cookie_Secure = CookieSecure cfg\<rparr>" c' w, unfolded req]
  have bad: "sign_in_answer ul kdf rnd cfg committed alive s c (failed r c') w'"
    if "resp_Status r \<in> {400, 401, 403, 500}" "pg_db committed w' s \<or> resp_Status r = 500 \<and> \<not> alive" for r and w' :: "('p, 'k) world"
    using that req by (auto simp: sign_in_answer_def)
  show ?thesis
  proof (cases "length (req_PostBody (rc_req c)) > maxBodyBytes \<or> decode_SignInRequest (req_PostBody (rc_req c)) = None")
    case True
    with db show ?thesis
      by (auto simp: answers_def wp_def res response_defs intro!: bad split: option.splits)
  next
    case False
    then obtain q where q: "decode_SignInRequest (req_PostBody (rc_req c)) = Some q" by auto
    obtain r w' where e: "sign_in_Execute ul uc (sign_in_input ul q) w = (r, w')" by fastforce
    note post = sign_in_prod [OF uc db e]
    note run = res [unfolded q option.case sign_in_input_def [symmetric] e prod.case]
    show ?thesis
    proof (cases r rule: outcome_sum_cases)
      case (1 err)
      with post False have "sign_in_answer ul kdf rnd cfg committed alive s c (failed (FromSignIn err) c') w'"
        by (intro bad) (auto simp: FromSignIn_def Internal_def h)
      with False 1 show ?thesis by (simp add: answers_def wp_def run)
    next
      case (2 out)
      obtain k where k: "SetFast \<lparr>cookie_Secure = CookieSecure cfg\<rparr> (si_SessionToken out) (si_SessionExpiresAt out) (c', w')
          = (Ret (), (SetCookie k c', tick w'))"
        "session_cookie \<lparr>cookie_Secure = CookieSecure cfg\<rparr> (si_SessionToken out) (si_SessionExpiresAt out) k"
        using SetFast_result by blast
      from post 2 obtain s' where "sign_in_effect (argon2_verifies kdf) rnd ul (SessionTTL cfg) (sign_in_input ul q) out s s'"
        and d: "pg_db committed w' s'" by auto
      moreover have "pg_db committed (tick w') s'" by (rule quiet_pg_db [OF _ d]) simp
      ultimately show ?thesis
        using False 2 k req q
        by (auto simp: answers_def wp_def run seqg_def bindg_def ctx_set_def modifies_def sign_in_answer_def respond_def SetCookie_def)
    next
      case (3 p)
      with post have "sign_in_answer ul kdf rnd cfg committed alive s c (failed Internal c') w'"
        by (intro bad) (auto simp: response_defs)
      with False 3 show ?thesis by (simp add: answers_def wp_def run)
    qed
  qed
qed

lemma sign_in_route:
  fixes w :: "('p, 'k) world"
  assumes uc: "prod_sign_in drv cl ul kdf ps (SessionTTL cfg) w0 = (Ret (Inr uc), w1)" and db: "pg_db committed w s"
    and r: "route_of (rc_req c) = SignInRoute"
  shows "wp (server_handler ul kdf spec stack cfg drv cl uc)
    (\<lambda>r cw. r = Ret () \<and> sign_in_answer ul kdf rnd cfg committed (up (w_pg w)) s c (fst cw) (snd cw)) (c, w)"
proof -
  let ?Q = "sign_in_answer ul kdf rnd cfg committed (up (w_pg w)) s c"
  have "wp (outer ul stack (OriginCheck (AllowedOrigins cfg) (SignIn_Handle ul (NewSignInHandler uc \<lparr>cookie_Secure = CookieSecure cfg\<rparr>))))
    (\<lambda>r cw. r = Ret () \<and> ?Q (fst cw) (snd cw)) (c, w)"
  proof (rule public_route_law [OF settled_sign_in_answer], goal_cases)
    case (1 c' w')
    have "up (w_pg w) = up (w_pg w')" using w_pg_more [OF quiet_more [OF 1(2)]] by simp
    then show ?case by (rule sign_in_handler [OF uc quiet_pg_db [OF 1(2) db] 1(1)])
  next
    case (2 r c' w')
    with quiet_pg_db [OF 2(3) db] show ?case by (auto simp: sign_in_answer_def response_defs)
  qed
  then show ?thesis using r by (simp add: server_handler_def NewHandler_route wp_def)
qed

lemma wrong_credentials_route:
  fixes w :: "('p, 'k) world"
  assumes uc: "prod_sign_in drv cl ul kdf ps (SessionTTL cfg) w0 = (Ret (Inr uc), w1)" and db: "pg_db committed w s"
    and up: "up (w_pg w)" and ids: "\<And>n. rt_uuids w n \<noteq> None"
    and hashes: "\<forall>u \<in> set (st_users s). made_by ps (user_passwordHash u)"
    and r: "route_of (rc_req c) = SignInRoute" and o: "origin_ok (AllowedOrigins cfg) (rc_req c)"
    and body: "length (req_PostBody (rc_req c)) \<le> maxBodyBytes" "decode_SignInRequest (req_PostBody (rc_req c)) = Some q"
    and wrong: "wrong_credentials (argon2_verifies kdf) s (sign_in_input ul q)"
  shows "wp (server_handler ul kdf spec stack cfg drv cl uc) (\<lambda>r cw. r = Ret () \<and> rc_status (fst cw) = 401
    \<and> rc_body (fst cw) = error_body (FromSignIn sign_in_ErrInvalidCredentials) \<and> rc_cookies (fst cw) = rc_cookies c
    \<and> pg_db committed (snd cw) s) (c, w)"
proof -
  let ?Q = "\<lambda>c' w'. rc_status c' = 401 \<and> rc_body c' = error_body (FromSignIn sign_in_ErrInvalidCredentials)
    \<and> rc_cookies c' = rc_cookies c \<and> pg_db committed w' s"
  let ?h = "SignIn_Handle ul (NewSignInHandler uc \<lparr>cookie_Secure = CookieSecure cfg\<rparr>)"
  have Q: "settled ?Q" by (auto simp: settled_def dest: quiet_pg_db)
  have tenant: "\<not> tenant_IsZero (si_TenantID (sign_in_input ul q))"
    by (simp add: sign_in_input_def tenant_DefaultID_eq [OF uuids] tenant_IsZero_def uuid_Nil_def)
  have "wp (outer ul stack (OriginCheck (AllowedOrigins cfg) ?h)) (\<lambda>r cw. r = Ret () \<and> ?Q (fst cw) (snd cw)) (c, w)"
  proof (rule outer_law [OF Q], goal_cases)
    case (1 c' w')
    from 1(1) have c': "rc_req c' = rc_req c" "rc_cookies c' = rc_cookies c" "mustTenant ul c' = tenant_DefaultID ul"
      by (simp_all add: entered_def mustTenant_def)
    have up': "up (w_pg w')" using up w_pg_more [OF quiet_more [OF 1(2)]] by simp
    from sign_in_uniform [OF uc quiet_pg_db [OF 1(2) db] up' hashes tenant wrong] obtain w2 where
      e: "sign_in_Execute ul uc (sign_in_input ul q) w' = (Ret (Inl sign_in_ErrInvalidCredentials), w2)" "pg_db committed w2 s" by blast
    have "OriginCheck (AllowedOrigins cfg) ?h (c', w') = ?h (c', w')"
      using OriginCheck_result [of "AllowedOrigins cfg" c' ?h w'] o c'(1) by simp
    then show ?case
      using body e c' by (simp add: answers_def wp_def sign_in_handler_result sign_in_input_def FromSignIn_def)
  next
    case (2 w')
    then show ?case using ids by simp
  qed
  then show ?thesis using r by (simp add: server_handler_def NewHandler_route wp_def)
qed

end

text \<open>C7: the cookie comes with a session. A request to sign in is answered with 200 exactly when the credentials named a user
  whose hash verifies the password: the database has gained the session and its event, and the response carries one
  session cookie with its token and expiry, not readable by scripts, with the \<open>Secure\<close> flag of the
  configuration. Every other answer is 400, 401, 403 or 500, sets no cookie and leaves the database unchanged
  (up to a \<open>Commit\<close> whose answer a failing server lost, with status 500).\<close>

theorem sign_in_over_http:
  fixes w :: "('p, 'k) world" and cl :: "'k SessionCache"
  assumes "production drv committed txview up rnd cl content kvup ul kdf (server_params cfg)"
    and "prod_sign_in drv cl ul kdf (server_params cfg) (SessionTTL cfg) w0 = (Ret (Inr uc), w1)"
    and "pg_db committed w s" and "route_of (rc_req c) = SignInRoute"
  shows "\<exists>c' w'. server_handler ul kdf spec stack cfg drv cl uc (c, w) = (Ret (), (c', w')) \<and>
    (rc_status c' = 200 \<and> (\<exists>req out s' k. decode_SignInRequest (req_PostBody (rc_req c)) = Some req
        \<and> sign_in_effect (argon2_verifies kdf) rnd ul (SessionTTL cfg) (sign_in_input ul req) out s s' \<and> pg_db committed w' s'
        \<and> rc_cookies c' = filter (\<lambda>k'. ck_Key k' \<noteq> ck_Key k) (rc_cookies c) @ [k]
        \<and> session_cookie \<lparr>cookie_Secure = CookieSecure cfg\<rparr> (si_SessionToken out) (si_SessionExpiresAt out) k
        \<and> rc_body c' = marshal_SignInResponse \<lparr>siresp_UserID = uuid_String ul (si_UserID out)\<rparr>)
     \<or> rc_status c' \<in> {400, 401, 403, 500} \<and> rc_cookies c' = rc_cookies c
        \<and> (pg_db committed w' s \<or> rc_status c' = 500 \<and> \<not> up (w_pg w)))"
  using production.sign_in_route [OF assms, of spec stack] unfolding wp_def sign_in_answer_def
  by (cases "server_handler ul kdf spec stack cfg drv cl uc (c, w)") auto

text \<open>C19: wrong credentials look the same over HTTP. A malformed address, an unknown address and a wrong password get the same
  status, the same body and no cookie.\<close>

theorem wrong_credentials_over_http:
  fixes w :: "('p, 'k) world" and cl :: "'k SessionCache"
  assumes "production drv committed txview up rnd cl content kvup ul kdf (server_params cfg)"
    and "prod_sign_in drv cl ul kdf (server_params cfg) (SessionTTL cfg) w0 = (Ret (Inr uc), w1)"
    and "pg_db committed w s" and "up (w_pg w)" and "\<And>n. rt_uuids w n \<noteq> None"
    and "\<forall>u \<in> set (st_users s). made_by (server_params cfg) (user_passwordHash u)"
    and "route_of (rc_req c) = SignInRoute" and "origin_ok (AllowedOrigins cfg) (rc_req c)"
    and "length (req_PostBody (rc_req c)) \<le> maxBodyBytes" and "decode_SignInRequest (req_PostBody (rc_req c)) = Some q"
    and "wrong_credentials (argon2_verifies kdf) s (sign_in_input ul q)"
  shows "\<exists>c' w'. server_handler ul kdf spec stack cfg drv cl uc (c, w) = (Ret (), (c', w')) \<and> rc_status c' = 401
    \<and> rc_body c' = error_body \<lparr>resp_Status = 401, resp_Code = ''invalid_credentials'', resp_Message = ''Invalid credentials''\<rparr>
    \<and> rc_cookies c' = rc_cookies c \<and> pg_db committed w' s"
  using production.wrong_credentials_route [OF assms, of spec stack]
  by (auto simp: wp_def FromSignIn_def split: prod.splits)

subsection \<open>Examples\<close>

definition sample_config :: Config where
  "sample_config = \<lparr>Addr = '':8080'', PostgresURL = ''postgres://db'', CookieSecure = False, SessionTTL = 3600000000000,
     Argon2MemoryKiB = 65536, Argon2Time = 3, Argon2Parallel = 1, AllowedOrigins = [''https://app.1klas.com''],
     RunMigrationsOnBoot = False, ValkeyURL = ''redis://cache'', ValkeyDialTimeout = 200000000, ValkeyOpTimeout = 100000000\<rparr>"

lemma sample_params: "server_params sample_config = argon2_Default" "SessionTTL sample_config = 3600000000000"
  "AllowedOrigins sample_config = [''https://app.1klas.com'']"
  by (simp_all add: server_params_def sample_config_def argon2_Default_def)

text \<open>A request with a cookie, an origin and a body.\<close>

definition http_request :: "string \<Rightarrow> string \<Rightarrow> string \<Rightarrow> string \<Rightarrow> string \<Rightarrow> request" where
  "http_request method path origin token body = \<lparr>req_Method = method, req_Path = path,
     req_Peek = (\<lambda>k. if k = ''Origin'' then origin else ''''), req_Cookie = (\<lambda>k. if k = NameInsecure then token else ''''),
     req_UserAgent = '''', req_PostBody = body, req_RemoteAddr = ''10.0.0.1:5000''\<rparr>"

lemma http_request_cookie: "token \<noteq> '''' \<Longrightarrow> ReadSessionCookieFast (fresh_ctx (http_request m p o' token b)) = (token, True)"
  by (simp add: ReadSessionCookieFast_def http_request_def fresh_ctx_def NameSecure_def NameInsecure_def)

abbreviation sample_handler :: "(server, kvserver) world sign_in_UseCase \<Rightarrow> (server, kvserver) world RequestHandler" where
  "sample_handler \<equiv> server_handler canonical_uuids sample_kdf '''' '''' sample_config (ref_pgx micros) ref_cache"

theorem foreign_origin_writes_nothing_witness:
  "\<exists>uc c' w'. sample_handler uc (fresh_ctx (http_request ''DELETE'' ''/api/v1/crm/public/identity/sessions/current''
      ''https://evil.example'' sample_token ''''), sample_run) = (Ret (), (c', w'))
    \<and> pg_db srv_tables w' sample_store \<and> rc_cookies c' = [] \<and> rc_status c' \<in> {401, 403, 404, 500}"
proof -
  let ?c = "fresh_ctx (http_request ''DELETE'' ''/api/v1/crm/public/identity/sessions/current'' ''https://evil.example'' sample_token '''')"
  obtain uc w1 where "prod_sign_in (ref_pgx micros) ref_cache canonical_uuids sample_kdf argon2_Default 3600000000000
    (sample_world (\<lambda>_. Served)) = (Ret (Inr uc), w1)" by (rule sample_sign_in)
  have "req_Method (rc_req ?c) \<noteq> ''GET''" "\<not> origin_ok (AllowedOrigins sample_config) (rc_req ?c)" "rc_cookies ?c = []"
    by (simp_all add: fresh_ctx_def http_request_def origin_ok_def sample_params)
  from foreign_origin_writes_nothing [OF ref_production.production_axioms sample_run_db this(1,2), of "''''" "''''" uc] this(3)
  show ?thesis by metis
qed

theorem profile_only_own_witness:
  "\<exists>uc c' w'. sample_handler uc (fresh_ctx (http_request ''GET'' ''/api/v1/crm/public/identity/profile/me'' '''' sample_token ''''),
      sample_run) = (Ret (), (c', w'))
    \<and> (rc_status c' \<in> {401, 500} \<or> rc_status c' = 200 \<and> rc_body c' = profile_body canonical_uuids sample_user)"
proof -
  let ?c = "fresh_ctx (http_request ''GET'' ''/api/v1/crm/public/identity/profile/me'' '''' sample_token '''')"
  obtain uc w1 where "prod_sign_in (ref_pgx micros) ref_cache canonical_uuids sample_kdf argon2_Default 3600000000000
    (sample_world (\<lambda>_. Served)) = (Ret (Inr uc), w1)" by (rule sample_sign_in)
  have co: "coherent micros (kv_cached kvs_content canonical_uuids sample_run) sample_store"
    by (simp add: sample_run_cache coherent_empty)
  have r: "route_of (rc_req ?c) = GetMeRoute" by (simp add: fresh_ctx_def http_request_def route_of_def)
  have one: "find_session sample_store h = Some x \<Longrightarrow> x = sample_session" for h x
    by (auto simp: find_session_def sample_store_def split: if_splits)
  have user: "find_user_by_id sample_store (session_tenantID sample_session) (session_userID sample_session) = Some sample_user"
    by (simp add: find_user_by_id_def sample_store_def sample_session_def sample_user_def)
  from profile_only_own [OF ref_production.production_axioms sample_run_db co r, of "''''" "''''" sample_config uc]
  obtain c' w' where run: "sample_handler uc (?c, sample_run) = (Ret (), (c', w'))"
    and st: "rc_status c' \<in> {401, 500} \<or> rc_status c' = 200 \<and> (\<exists>raw x u. ReadSessionCookieFast ?c = (raw, True)
      \<and> find_session sample_store (HashOf raw) = Some x
      \<and> find_user_by_id sample_store (session_tenantID x) (session_userID x) = Some u \<and> rc_body c' = profile_body canonical_uuids u)"
    by blast
  from st have "rc_status c' \<in> {401, 500} \<or> rc_status c' = 200 \<and> rc_body c' = profile_body canonical_uuids sample_user"
    using one user by fastforce
  with run show ?thesis by blast
qed

theorem signed_out_is_rejected_witness:
  "\<exists>w' r w''. sign_out_Execute canonical_uuids (prod_sign_out (ref_pgx micros) ref_cache canonical_uuids) sample_sign_out sample_run
      = (Ret (Inr ()), w')
    \<and> prod_session (ref_pgx micros) ref_cache canonical_uuids (ret ()) (fresh_ctx sample_request, w')
      = (Ret (), (failed r (fresh_ctx sample_request), w'')) \<and> (r = SessionInvalid \<or> r = Internal)"
proof -
  have m: "time_MarshalJSON 1780000000000000000 \<noteq> None" by code_simp
  have "\<exists>w'. sign_out_Execute canonical_uuids (prod_sign_out (ref_pgx micros) ref_cache canonical_uuids) sample_sign_out sample_run
      = (Ret (Inr ()), w')"
    by (rule ref_production.sign_out_live_prod [OF sample_run_db, where x = sample_session])
       (use m in \<open>simp_all add: ref_up_def empty_server_def sample_store_def is_session_def sample_sign_out_def sample_session_def
          tenant_IsZero_def uuid_Nil_def seeded_world_def sample_world_def sample_rt_def rt.extend_def\<close>)
  then obtain w' where e: "sign_out_Execute canonical_uuids (prod_sign_out (ref_pgx micros) ref_cache canonical_uuids) sample_sign_out
      sample_run = (Ret (Inr ()), w')" by blast
  have kv: "kvs_up (w_kv sample_run)" by (simp add: kvs_up_def empty_cache_def)
  have i: "so_TenantID sample_sign_out = session_tenantID sample_session" "so_SessionID sample_sign_out = session_id sample_session"
    "so_TokenHashHex sample_sign_out = hex_EncodeToString (HashOf sample_token)"
    by (simp_all add: sample_sign_out_def sample_session_def)
  from signed_out_is_rejected [OF ref_production.production_axioms sample_run_db kv sample_find i e sample_cookie, of "ret ()"] e
  show ?thesis by blast
qed

lemma member_cache: "coherent micros (kv_cached kvs_content canonical_uuids member_world) member_store"
proof -
  have "kv_cached kvs_content canonical_uuids member_world = (\<lambda>_. None)"
    by (simp add: kv_cached_def kvs_content_def member_world_sel empty_cache_def fun_eq_iff)
  then show ?thesis by (simp add: coherent_empty)
qed

theorem signed_in_is_accepted_witness:
  "\<exists>uc out w' c sid w''. sign_in_Execute canonical_uuids uc member_sign_in member_world = (Ret (Inr out), w')
    \<and> prod_session (ref_pgx micros) ref_cache canonical_uuids (ret ()) (c, w')
      = (Ret (), (set_identity (si_UserID out) sid (ID 1) (hex_EncodeToString (HashOf (si_SessionToken out))) c, w''))"
proof -
  obtain uc w1 out w' where uc: "prod_sign_in (ref_pgx micros) ref_cache canonical_uuids sample_kdf argon2_Default 3600000000000
      (sample_world (\<lambda>_. Served)) = (Ret (Inr uc), w1)"
    and e: "sign_in_Execute canonical_uuids uc member_sign_in member_world = (Ret (Inr out), w')" and up: "ref_up (w_pg w')"
    by (rule member_signs_in)
  note o = ref_production.sign_in_output_prod [OF uc member_world_db e]
  let ?c = "fresh_ctx (http_request ''GET'' ''/'' '''' (si_SessionToken out) '''')"
  have "si_SessionToken out \<noteq> ''''" using o by auto
  then have ck: "ReadSessionCookieFast ?c = (si_SessionToken out, True)" by (rule http_request_cookie)
  have exp: "si_SessionExpiresAt out = 1780003600000000000" and clk: "rt_clock w' n = 1780000000000000000" for n
    using o by (auto simp: member_world_sel time_Add_def later_def)
  then have "rt_clock w' n < micros (si_SessionExpiresAt out)" for n by (simp add: micros_def)
  from signed_in_is_accepted [OF ref_production.production_axioms uc member_world_db member_cache e up ck this, of "ret ()"]
  obtain sid w'' where "prod_session (ref_pgx micros) ref_cache canonical_uuids (ret ()) (?c, w')
      = (Ret (), (set_identity (si_UserID out) sid (ID 1) (hex_EncodeToString (HashOf (si_SessionToken out))) ?c, w''))"
    by (auto simp: ret_def member_sign_in_def)
  with e show ?thesis by metis
qed

definition sign_in_request :: "string \<Rightarrow> request" where
  "sign_in_request email = http_request ''POST'' ''/api/v1/crm/public/identity/sessions'' ''https://app.1klas.com'' ''''
     (json_strings [(''email'', email), (''password'', member_password)])"

lemma sign_in_request_ok:
  "route_of (rc_req (fresh_ctx (sign_in_request e))) = SignInRoute"
  "origin_ok (AllowedOrigins sample_config) (rc_req (fresh_ctx (sign_in_request e)))"
  "rc_cookies (fresh_ctx (sign_in_request e)) = []"
  by (simp_all add: fresh_ctx_def sign_in_request_def http_request_def route_of_def origin_ok_def sample_params)

theorem sign_in_over_http_witness:
  "\<exists>uc c' w'. sample_handler uc (fresh_ctx (sign_in_request ''user@example.com''), member_world) = (Ret (), (c', w'))
    \<and> (rc_status c' = 200 \<and> (\<exists>k. rc_cookies c' = [k] \<and> ck_HTTPOnly k \<and> \<not> ck_Secure k)
       \<or> rc_status c' \<in> {400, 401, 403, 500} \<and> rc_cookies c' = [])"
proof -
  let ?c = "fresh_ctx (sign_in_request ''user@example.com'')"
  obtain uc w1 where uc: "prod_sign_in (ref_pgx micros) ref_cache canonical_uuids sample_kdf argon2_Default 3600000000000
    (sample_world (\<lambda>_. Served)) = (Ret (Inr uc), w1)" by (rule sample_sign_in)
  have s: "CookieSecure sample_config = False" by (simp add: sample_config_def)
  from sign_in_over_http [of "ref_pgx micros" srv_tables ref_view ref_up micros ref_cache kvs_content kvs_up canonical_uuids sample_kdf
      sample_config "sample_world (\<lambda>_. Served)" uc w1 member_world member_store ?c "''''" "''''", unfolded sample_params,
      OF ref_production.production_axioms uc member_world_db sign_in_request_ok(1)]
  show ?thesis unfolding sign_in_request_ok(3) s session_cookie_def by fastforce
qed

lemma NewEmail_nobody: "NewEmail ''nobody@example.com'' = Inr e \<Longrightarrow> e \<noteq> Email ''user@example.com''"
proof -
  have "strings_TrimSpace (strings_ToLower ''nobody@example.com'') = ''nobody@example.com''" by code_simp
  then show "NewEmail ''nobody@example.com'' = Inr e \<Longrightarrow> e \<noteq> Email ''user@example.com''" by (auto simp: NewEmail_Inr Let_def)
qed

theorem wrong_credentials_over_http_witness:
  "\<exists>uc c' w'. sample_handler uc (fresh_ctx (sign_in_request ''nobody@example.com''), member_world) = (Ret (), (c', w'))
    \<and> rc_status c' = 401 \<and> rc_cookies c' = []"
proof -
  let ?c = "fresh_ctx (sign_in_request ''nobody@example.com'')"
  let ?q = "\<lparr>sireq_Email = ''nobody@example.com'', sireq_Password = member_password\<rparr>"
  obtain uc w1 where uc: "prod_sign_in (ref_pgx micros) ref_cache canonical_uuids sample_kdf argon2_Default 3600000000000
    (sample_world (\<lambda>_. Served)) = (Ret (Inr uc), w1)" by (rule sample_sign_in)
  have up: "ref_up (w_pg member_world)" and ids: "rt_uuids member_world n \<noteq> None"
    and hashes: "\<forall>u \<in> set (st_users member_store). made_by argon2_Default (user_passwordHash u)" for n
    using member_made by (simp_all add: member_world_sel ref_up_def empty_server_def sample_rt_def member_store_def)
  have len: "length (req_PostBody (rc_req ?c)) \<le> maxBodyBytes"
    by (simp add: fresh_ctx_def sign_in_request_def http_request_def maxBodyBytes_def member_password_def) code_simp
  have dec: "decode_SignInRequest (req_PostBody (rc_req ?c)) = Some ?q"
    using json_Unmarshal_strings [of "[(''email'', ''nobody@example.com''), (''password'', member_password)]" "[''email'', ''password'']"]
    by (simp add: fresh_ctx_def sign_in_request_def http_request_def decode_SignInRequest_def member_password_def
        safe_members_def json_safe_def)
  have wrong: "wrong_credentials (argon2_verifies sample_kdf) member_store (sign_in_input canonical_uuids ?q)"
    by (auto simp: wrong_credentials_def sign_in_input_def find_user_by_email_def member_store_def member_def sample_user_def
        split: sum.split dest: NewEmail_nobody)
  from wrong_credentials_over_http [of "ref_pgx micros" srv_tables ref_view ref_up micros ref_cache kvs_content kvs_up canonical_uuids sample_kdf
      sample_config "sample_world (\<lambda>_. Served)" uc w1 member_world member_store ?c ?q "''''" "''''", unfolded sample_params,
      OF ref_production.production_axioms uc member_world_db up ids hashes sign_in_request_ok(1) sign_in_request_ok(2) [unfolded sample_params] len dec wrong]
  show ?thesis unfolding sign_in_request_ok(3) by blast
qed

end
