(* ===== verification/Registration.thy ===== *)
theory Registration
  imports Surface
begin

text \<open>
  Sign-up through the whole stack: router, middleware, handler, use case and adapters. The route answers
  201 with the cookie of the first session exactly when the user has been created, and no other answer creates one or sets a
  cookie.
\<close>

definition sign_up_input :: "uuid_lib \<Rightarrow> SignUpRequest \<Rightarrow> sign_up_Input" where
  "sign_up_input ul req = \<lparr>su_TenantID = tenant_DefaultID ul, su_Email = sureq_Email req, su_Password = sureq_Password req\<rparr>"

definition sign_up_answer ::
  "uuid_lib \<Rightarrow> argon2_kdf \<Rightarrow> (time \<Rightarrow> time) \<Rightarrow> Config \<Rightarrow> ('p \<Rightarrow> tables) \<Rightarrow> bool \<Rightarrow> store \<Rightarrow> rctx \<Rightarrow> rctx \<Rightarrow> ('p, 'k) world \<Rightarrow> bool" where
  "sign_up_answer ul kdf rnd cfg committed alive s c c' w' =
    (rc_status c' = 201 \<and> (\<exists>req out s' k. decode_SignUpRequest (req_PostBody (rc_req c)) = Some req \<and> sign_up_valid (sign_up_input ul req)
        \<and> sign_up_effect (argon2_verifies kdf) rnd ul (SessionTTL cfg) (sign_up_input ul req) out s s' \<and> pg_db committed w' s'
        \<and> rc_cookies c' = filter (\<lambda>k'. ck_Key k' \<noteq> ck_Key k) (rc_cookies c) @ [k]
        \<and> session_cookie \<lparr>cookie_Secure = CookieSecure cfg\<rparr> (su_SessionToken out) (su_SessionExpiresAt out) k
        \<and> rc_body c' = marshal_SignUpResponse \<lparr>suresp_UserID = uuid_String ul (su_UserID out)\<rparr>)
     \<or> rc_status c' \<in> {400, 403, 409, 500} \<and> rc_cookies c' = rc_cookies c \<and> (pg_db committed w' s \<or> rc_status c' = 500 \<and> \<not> alive))"

lemma settled_sign_up_answer:
  fixes committed :: "'p \<Rightarrow> tables"
  shows "settled (sign_up_answer ul kdf rnd cfg committed alive s c :: rctx \<Rightarrow> ('p, 'k) world \<Rightarrow> bool)"
  unfolding settled_def
proof (intro allI impI)
  fix c1 sp and w w' :: "('p, 'k) world"
  assume a: "sign_up_answer ul kdf rnd cfg committed alive s c c1 w" and q: "quiet w w'"
  have "pg_db committed w x \<Longrightarrow> pg_db committed w' x" for x using quiet_pg_db [OF q] .
  with a show "sign_up_answer ul kdf rnd cfg committed alive s c (c1\<lparr>rc_spans := sp\<rparr>) w'"
    unfolding sign_up_answer_def by (auto 0 4)
qed

lemma sign_up_handler_result:
  fixes w :: "'a rt_scheme"
  shows "SignUp_Handle ul (NewSignUpHandler uc ck) (c, w) =
    (if length (req_PostBody (rc_req c)) > maxBodyBytes then (Ret (), (failed InvalidBody c, w))
     else case decode_SignUpRequest (req_PostBody (rc_req c)) of
       None \<Rightarrow> (Ret (), (failed InvalidBody c, w))
     | Some req \<Rightarrow>
       (case sign_up_Execute ul uc \<lparr>su_TenantID = mustTenant ul c, su_Email = sureq_Email req, su_Password = sureq_Password req\<rparr> w of
          (Ret (Inl err), w') \<Rightarrow> (Ret (), (failed (FromSignUp err) c, w'))
        | (Ret (Inr out), w') \<Rightarrow> seqg (SetFast ck (su_SessionToken out) (su_SessionExpiresAt out))
            (ctx_set (respond ''application/json'' 201
               (marshal_SignUpResponse \<lparr>suresp_UserID = uuid_String ul (su_UserID out)\<rparr>))) (c, w')
        | (Panic p, w') \<Rightarrow> (Panic p, (c, w'))))"
  by (simp add: SignUp_Handle_def NewSignUpHandler_def Let_def bindg_def tryg_def ctx_get_def reads_def use_def WriteFast_failed
      split: option.split prod.split outcome.split sum.split)

lemma FromSignUp_status: "resp_Status (FromSignUp e) \<in> {400, 409, 500}" "resp_Status (FromSignUp e) = 500 \<longleftrightarrow> e = sign_up_ErrInternal"
  by (cases e; simp add: FromSignUp_def Internal_def)+

context production
begin

lemma sign_up_handler:
  fixes w :: "('p, 'k) world"
  assumes db: "pg_db committed w s" and c': "entered ul c c'" and h: "alive = up (w_pg w)"
  shows "answers (SignUp_Handle ul (NewSignUpHandler (prod_sign_up drv cl ul kdf ps (SessionTTL cfg)) \<lparr>cookie_Secure = CookieSecure cfg\<rparr>))
    (sign_up_answer ul kdf rnd cfg committed alive s c) c' w"
proof -
  let ?uc = "prod_sign_up drv cl ul kdf ps (SessionTTL cfg) :: (('p, 'k) world) sign_up_UseCase"
  from c' have req: "rc_req c' = rc_req c" "rc_cookies c' = rc_cookies c" "mustTenant ul c' = tenant_DefaultID ul"
    by (simp_all add: entered_def mustTenant_def)
  note res = sign_up_handler_result [of ul ?uc "\<lparr>cookie_Secure = CookieSecure cfg\<rparr>" c' w, unfolded req]
  have bad: "sign_up_answer ul kdf rnd cfg committed alive s c (failed r c') w'"
    if "resp_Status r \<in> {400, 403, 409, 500}" "pg_db committed w' s \<or> resp_Status r = 500 \<and> \<not> alive" for r and w' :: "('p, 'k) world"
    using that req by (auto simp: sign_up_answer_def)
  show ?thesis
  proof (cases "length (req_PostBody (rc_req c)) > maxBodyBytes \<or> decode_SignUpRequest (req_PostBody (rc_req c)) = None")
    case True
    with db show ?thesis
      by (auto simp: answers_def wp_def res response_defs intro!: bad split: option.splits)
  next
    case False
    then obtain q where q: "decode_SignUpRequest (req_PostBody (rc_req c)) = Some q" by auto
    obtain r w' where e: "sign_up_Execute ul ?uc (sign_up_input ul q) w = (r, w')" by fastforce
    note post = sign_up_prod [OF db e]
    note run = res [unfolded q option.case sign_up_input_def [symmetric] e prod.case]
    show ?thesis
    proof (cases r rule: outcome_sum_cases)
      case (1 err)
      with post False FromSignUp_status [of err] have "sign_up_answer ul kdf rnd cfg committed alive s c (failed (FromSignUp err) c') w'"
        by (intro bad) (auto simp: h)
      with False 1 show ?thesis by (simp add: answers_def wp_def run)
    next
      case (2 out)
      obtain k where k: "SetFast \<lparr>cookie_Secure = CookieSecure cfg\<rparr> (su_SessionToken out) (su_SessionExpiresAt out) (c', w')
          = (Ret (), (SetCookie k c', tick w'))"
        "session_cookie \<lparr>cookie_Secure = CookieSecure cfg\<rparr> (su_SessionToken out) (su_SessionExpiresAt out) k"
        using SetFast_result by blast
      from post 2 obtain s' where "sign_up_effect (argon2_verifies kdf) rnd ul (SessionTTL cfg) (sign_up_input ul q) out s s'"
        "sign_up_valid (sign_up_input ul q)" and d: "pg_db committed w' s'" by auto
      moreover have "pg_db committed (tick w') s'" by (rule quiet_pg_db [OF _ d]) simp
      ultimately show ?thesis
        using False 2 k req q
        by (auto simp: answers_def wp_def run seqg_def bindg_def ctx_set_def modifies_def sign_up_answer_def respond_def SetCookie_def)
    next
      case (3 p)
      with post have "sign_up_answer ul kdf rnd cfg committed alive s c (failed Internal c') w'"
        by (intro bad) (auto simp: response_defs)
      with False 3 show ?thesis by (simp add: answers_def wp_def run)
    qed
  qed
qed

lemma sign_up_route:
  fixes w :: "('p, 'k) world"
  assumes p: "ps = server_params cfg" and db: "pg_db committed w s" and r: "route_of (rc_req c) = SignUpRoute"
  shows "wp (server_handler ul kdf spec stack cfg drv cl uc)
    (\<lambda>r cw. r = Ret () \<and> sign_up_answer ul kdf rnd cfg committed (up (w_pg w)) s c (fst cw) (snd cw)) (c, w)"
proof -
  let ?Q = "sign_up_answer ul kdf rnd cfg committed (up (w_pg w)) s c"
  let ?h = "SignUp_Handle ul (NewSignUpHandler (prod_sign_up drv cl ul kdf ps (SessionTTL cfg)) \<lparr>cookie_Secure = CookieSecure cfg\<rparr>)
    :: (('p, 'k) world) RequestHandler"
  have "wp (outer ul stack (OriginCheck (AllowedOrigins cfg) ?h)) (\<lambda>r cw. r = Ret () \<and> ?Q (fst cw) (snd cw)) (c, w)"
  proof (rule public_route_law [OF settled_sign_up_answer], goal_cases)
    case (1 c' w')
    have "up (w_pg w) = up (w_pg w')" using w_pg_more [OF quiet_more [OF 1(2)]] by simp
    then show ?case by (rule sign_up_handler [OF quiet_pg_db [OF 1(2) db] 1(1)])
  next
    case (2 r c' w')
    with quiet_pg_db [OF 2(3) db] show ?case by (auto simp: sign_up_answer_def response_defs)
  qed
  then show ?thesis using r by (simp add: server_handler_def NewHandler_route wp_def p)
qed

end

text \<open>C40: registration over HTTP. A request to sign up is answered with 201 exactly when its body is valid and the database has gained
  the user, the first session and the two events; the response then carries one session cookie with the token and
  the expiry of that session. Every other answer is 400, 403, 409 or 500, sets no cookie and leaves the database
  unchanged (up to a \<open>Commit\<close> whose answer a failing server lost, with status 500).\<close>

theorem sign_up_over_http:
  fixes w :: "('p, 'k) world" and cl :: "'k SessionCache"
  assumes "production drv committed txview up rnd cl content kvup ul kdf (server_params cfg)"
    and "pg_db committed w s" and "route_of (rc_req c) = SignUpRoute"
  shows "\<exists>c' w'. server_handler ul kdf spec stack cfg drv cl uc (c, w) = (Ret (), (c', w')) \<and>
    (rc_status c' = 201 \<and> (\<exists>req out s' k. decode_SignUpRequest (req_PostBody (rc_req c)) = Some req \<and> sign_up_valid (sign_up_input ul req)
        \<and> sign_up_effect (argon2_verifies kdf) rnd ul (SessionTTL cfg) (sign_up_input ul req) out s s' \<and> pg_db committed w' s'
        \<and> rc_cookies c' = filter (\<lambda>k'. ck_Key k' \<noteq> ck_Key k) (rc_cookies c) @ [k]
        \<and> session_cookie \<lparr>cookie_Secure = CookieSecure cfg\<rparr> (su_SessionToken out) (su_SessionExpiresAt out) k
        \<and> rc_body c' = marshal_SignUpResponse \<lparr>suresp_UserID = uuid_String ul (su_UserID out)\<rparr>)
     \<or> rc_status c' \<in> {400, 403, 409, 500} \<and> rc_cookies c' = rc_cookies c
        \<and> (pg_db committed w' s \<or> rc_status c' = 500 \<and> \<not> up (w_pg w)))"
  using production.sign_up_route [OF assms(1) refl assms(2,3), of spec stack uc] unfolding wp_def sign_up_answer_def
  by (cases "server_handler ul kdf spec stack cfg drv cl uc (c, w)") auto

definition sign_up_request :: request where
  "sign_up_request = http_request ''POST'' ''/api/v1/crm/public/identity/sign-up'' ''https://app.1klas.com'' ''''
     (json_strings [(''email'', ''new@example.com''), (''password'', member_password)])"

theorem sign_up_over_http_witness:
  "\<exists>uc c' w'. sample_handler uc (fresh_ctx sign_up_request, member_world) = (Ret (), (c', w'))
    \<and> (rc_status c' = 201 \<and> (\<exists>k. rc_cookies c' = [k] \<and> ck_HTTPOnly k \<and> \<not> ck_Secure k)
       \<or> rc_status c' \<in> {400, 403, 409, 500} \<and> rc_cookies c' = [])"
proof -
  obtain uc w1 where "prod_sign_in (ref_pgx micros) ref_cache canonical_uuids sample_kdf argon2_Default 3600000000000
    (sample_world (\<lambda>_. Served)) = (Ret (Inr uc), w1)" by (rule sample_sign_in)
  have s: "CookieSecure sample_config = False" by (simp add: sample_config_def)
  have r: "route_of (rc_req (fresh_ctx sign_up_request)) = SignUpRoute" "rc_cookies (fresh_ctx sign_up_request) = []"
    by (simp_all add: fresh_ctx_def sign_up_request_def http_request_def route_of_def)
  from sign_up_over_http [of "ref_pgx micros" srv_tables ref_view ref_up micros ref_cache kvs_content kvs_up canonical_uuids sample_kdf
      sample_config member_world member_store "fresh_ctx sign_up_request" "''''" "''''" uc, unfolded sample_params,
      OF ref_production.production_axioms member_world_db r(1)]
  show ?thesis unfolding r(2) s session_cookie_def by fastforce
qed

end
