(* ===== verification/Bodies.thy ===== *)
theory Bodies
  imports Registration
begin

text \<open>
  The gate in front of sign-in and sign-up: how the handlers read a request body and which use case they run with it.
  \<open>body_fields\<close> is the contract of the two request types, read off the parsed JSON text without
  the assignment loop of \<open>json.Unmarshal\<close>. Lemmas: both decoders implement it, and the handlers run their use
  case exactly on the bodies that pass.
\<close>

definition body_fields :: "string \<Rightarrow> (string \<times> string) option" where
  "body_fields body =
    (case json_parse body of
       Some (JObj ms) \<Rightarrow>
         if fields_fit [''email'', ''password''] ms
         then Some (last ('''' # text_members ''email'' ms), last ('''' # text_members ''password'' ms)) else None
     | Some JNull \<Rightarrow> Some ('''', '''')
     | _ \<Rightarrow> None)"

lemma request_fields: "distinct (map fold_name [''email'', ''password''])"
  by code_simp

lemma json_Unmarshal_fields:
  "map_option (\<lambda>m. (m ''email'', m ''password'')) (json_Unmarshal [''email'', ''password''] body) = body_fields body"
proof (cases "json_parse body")
  case (Some j)
  show ?thesis
  proof (cases j)
    case (JObj ms)
    with Some assign_members_texts [OF request_fields, of ms "\<lambda>_. ''''"] show ?thesis
      by (auto simp: json_Unmarshal_def decode_struct_def body_fields_def simp del: last.simps split: if_splits)
  qed (simp_all add: Some json_Unmarshal_def decode_struct_def body_fields_def)
qed (simp add: json_Unmarshal_def decode_struct_def body_fields_def)

lemma decode_fields:
  "decode_SignInRequest body = map_option (\<lambda>(e, p). \<lparr>sireq_Email = e, sireq_Password = p\<rparr>) (body_fields body)"
  "decode_SignUpRequest body = map_option (\<lambda>(e, p). \<lparr>sureq_Email = e, sureq_Password = p\<rparr>) (body_fields body)"
  by (simp_all add: decode_SignInRequest_def decode_SignUpRequest_def option.map_comp comp_def flip: json_Unmarshal_fields)

text \<open>A body that has been written as a JSON object of texts passes, whatever its members.\<close>

lemma body_fields_strings:
  assumes "utf8_members ms"
  shows "body_fields (json_strings ms) = Some (last_member ''email'' ms, last_member ''password'' ms)"
proof -
  have "fields_fit names (map (\<lambda>(k, v). (k, JStr v)) ms)" for names
    by (auto simp: fields_fit_def text_or_null_def list_all_iff)
  then show ?thesis
    by (simp add: body_fields_def json_parse_members [OF assms] text_members_strings del: last.simps)
qed

text \<open>What the client gets: the fixed rejection of a body, and the reply to what the use case answers.\<close>

definition rejected_body :: "rctx \<Rightarrow> rctx" where
  "rejected_body = respond ''application/json'' 400
     (''{'' @ [CHR 0x22] @ ''error'' @ [CHR 0x22] @ '':{'' @ [CHR 0x22] @ ''code'' @ [CHR 0x22] @ '':'' @ [CHR 0x22] @ ''invalid_body''
       @ [CHR 0x22] @ '','' @ [CHR 0x22] @ ''message'' @ [CHR 0x22] @ '':'' @ [CHR 0x22] @ ''Invalid request body'' @ [CHR 0x22] @ ''}}'')"

lemma rejected_body: "failed InvalidBody = rejected_body"
proof -
  have "error_body InvalidBody = (''{'' @ [CHR 0x22] @ ''error'' @ [CHR 0x22] @ '':{'' @ [CHR 0x22] @ ''code'' @ [CHR 0x22] @ '':'' @ [CHR 0x22]
      @ ''invalid_body'' @ [CHR 0x22] @ '','' @ [CHR 0x22] @ ''message'' @ [CHR 0x22] @ '':'' @ [CHR 0x22] @ ''Invalid request body''
      @ [CHR 0x22] @ ''}}'')" by code_simp
  then show ?thesis by (simp add: failed_def rejected_body_def InvalidBody_def)
qed

definition sign_in_reply ::
  "uuid_lib \<Rightarrow> cookie_Config \<Rightarrow> rctx \<Rightarrow> ((sign_in_error + sign_in_Output) outcome \<times> 'a rt_scheme) \<Rightarrow> (unit outcome \<times> rctx \<times> 'a rt_scheme) \<Rightarrow> bool" where
  "sign_in_reply ul ck c answer reply =
    (case answer of
       (Ret (Inl err), w) \<Rightarrow> reply = (Ret (), (failed (FromSignIn err) c, w))
     | (Ret (Inr out), w) \<Rightarrow> \<exists>k. session_cookie ck (si_SessionToken out) (si_SessionExpiresAt out) k
         \<and> reply = (Ret (), (respond ''application/json'' 200 (json_strings [(''user_id'', uuid_String ul (si_UserID out))]) (SetCookie k c), tick w))
     | (Panic p, w) \<Rightarrow> reply = (Panic p, (c, w)))"

definition sign_up_reply ::
  "uuid_lib \<Rightarrow> cookie_Config \<Rightarrow> rctx \<Rightarrow> ((sign_up_error + sign_up_Output) outcome \<times> 'a rt_scheme) \<Rightarrow> (unit outcome \<times> rctx \<times> 'a rt_scheme) \<Rightarrow> bool" where
  "sign_up_reply ul ck c answer reply =
    (case answer of
       (Ret (Inl err), w) \<Rightarrow> reply = (Ret (), (failed (FromSignUp err) c, w))
     | (Ret (Inr out), w) \<Rightarrow> \<exists>k. session_cookie ck (su_SessionToken out) (su_SessionExpiresAt out) k
         \<and> reply = (Ret (), (respond ''application/json'' 201 (json_strings [(''user_id'', uuid_String ul (su_UserID out))]) (SetCookie k c), tick w))
     | (Panic p, w) \<Rightarrow> reply = (Panic p, (c, w)))"

lemma sign_in_replies:
  assumes "length (req_PostBody (rc_req c)) \<le> maxBodyBytes" "body_fields (req_PostBody (rc_req c)) = Some (e, p)"
  shows "sign_in_reply ul ck c (sign_in_Execute ul uc \<lparr>si_TenantID = mustTenant ul c, si_Email = e, si_Password = p\<rparr> w)
    (SignIn_Handle ul (NewSignInHandler uc ck) (c, w))"
proof (cases "sign_in_Execute ul uc \<lparr>si_TenantID = mustTenant ul c, si_Email = e, si_Password = p\<rparr> w")
  case (Pair r w')
  show ?thesis
  proof (cases r rule: outcome_sum_cases)
    case (2 out)
    obtain k where "SetFast ck (si_SessionToken out) (si_SessionExpiresAt out) (c, w') = (Ret (), (SetCookie k c, tick w'))"
      "session_cookie ck (si_SessionToken out) (si_SessionExpiresAt out) k" using SetFast_result by blast
    with assms 2 show ?thesis
      by (auto simp: sign_in_reply_def sign_in_handler_result decode_fields Pair marshal_SignInResponse_def seqg_def bindg_def
          ctx_set_def modifies_def)
  qed (use assms in \<open>simp_all add: sign_in_reply_def sign_in_handler_result decode_fields Pair\<close>)
qed

lemma sign_up_replies:
  assumes "length (req_PostBody (rc_req c)) \<le> maxBodyBytes" "body_fields (req_PostBody (rc_req c)) = Some (e, p)"
  shows "sign_up_reply ul ck c (sign_up_Execute ul uc \<lparr>su_TenantID = mustTenant ul c, su_Email = e, su_Password = p\<rparr> w)
    (SignUp_Handle ul (NewSignUpHandler uc ck) (c, w))"
proof (cases "sign_up_Execute ul uc \<lparr>su_TenantID = mustTenant ul c, su_Email = e, su_Password = p\<rparr> w")
  case (Pair r w')
  show ?thesis
  proof (cases r rule: outcome_sum_cases)
    case (2 out)
    obtain k where "SetFast ck (su_SessionToken out) (su_SessionExpiresAt out) (c, w') = (Ret (), (SetCookie k c, tick w'))"
      "session_cookie ck (su_SessionToken out) (su_SessionExpiresAt out) k" using SetFast_result by blast
    with assms 2 show ?thesis
      by (auto simp: sign_up_reply_def sign_up_handler_result decode_fields Pair marshal_SignUpResponse_def seqg_def bindg_def
          ctx_set_def modifies_def)
  qed (use assms in \<open>simp_all add: sign_up_reply_def sign_up_handler_result decode_fields Pair\<close>)
qed

text \<open>C36: the gate of the request bodies. A body of more than 16384 bytes, or one whose JSON text is not \<open>null\<close> or an object in which
  every member for the email or the password is a text or \<open>null\<close>, is answered with the fixed 400, no use case
  runs and nothing else changes. For every other body sign-in and sign-up run their use case once, with the tenant of the
  request and the last text given for each field (keys up to case, \<open>""\<close> when there is none), and the reply carries its answer:
  the mapped error, or 200 and 201 with the user and one session cookie. An object of texts in UTF-8 is read as it
  was written, the last member of a field winning.\<close>

theorem request_body_gate:
  fixes w :: "'a rt_scheme"
  shows "(case (if length (req_PostBody (rc_req c)) > 16384 then None else body_fields (req_PostBody (rc_req c))) of
      None \<Rightarrow> SignIn_Handle ul (NewSignInHandler uci ck) (c, w) = (Ret (), (rejected_body c, w))
        \<and> SignUp_Handle ul (NewSignUpHandler ucu ck) (c, w) = (Ret (), (rejected_body c, w))
    | Some (email, password) \<Rightarrow>
        sign_in_reply ul ck c (sign_in_Execute ul uci \<lparr>si_TenantID = mustTenant ul c, si_Email = email, si_Password = password\<rparr> w)
          (SignIn_Handle ul (NewSignInHandler uci ck) (c, w))
        \<and> sign_up_reply ul ck c (sign_up_Execute ul ucu \<lparr>su_TenantID = mustTenant ul c, su_Email = email, su_Password = password\<rparr> w)
          (SignUp_Handle ul (NewSignUpHandler ucu ck) (c, w)))
   \<and> (utf8_members ms \<longrightarrow> body_fields (json_strings ms) = Some (last_member ''email'' ms, last_member ''password'' ms))"
proof (rule conjI)
  let ?b = "req_PostBody (rc_req c)"
  show "case (if length ?b > 16384 then None else body_fields ?b) of
      None \<Rightarrow> SignIn_Handle ul (NewSignInHandler uci ck) (c, w) = (Ret (), (rejected_body c, w))
        \<and> SignUp_Handle ul (NewSignUpHandler ucu ck) (c, w) = (Ret (), (rejected_body c, w))
    | Some (email, password) \<Rightarrow>
        sign_in_reply ul ck c (sign_in_Execute ul uci \<lparr>si_TenantID = mustTenant ul c, si_Email = email, si_Password = password\<rparr> w)
          (SignIn_Handle ul (NewSignInHandler uci ck) (c, w))
        \<and> sign_up_reply ul ck c (sign_up_Execute ul ucu \<lparr>su_TenantID = mustTenant ul c, su_Email = email, su_Password = password\<rparr> w)
          (SignUp_Handle ul (NewSignUpHandler ucu ck) (c, w))"
  proof (cases "length ?b > 16384 \<or> body_fields ?b = None")
    case True
    then have "(if length ?b > 16384 then None else body_fields ?b) = None" by auto
    with True show ?thesis
      by (auto simp: sign_in_handler_result sign_up_handler_result decode_fields rejected_body maxBodyBytes_def)
  next
    case False
    then obtain e p where f: "body_fields ?b = Some (e, p)" by auto
    with False sign_in_replies [OF _ f, of ul ck uci w] sign_up_replies [OF _ f, of ul ck ucu w]
    show ?thesis by (simp add: maxBodyBytes_def)
  qed
qed (use body_fields_strings in blast)

definition repeated_keys :: "(string \<times> string) list" where
  "repeated_keys = [(''Email'', ''first@example.com''), (''email'', ''last@example.com''), (''PASSWORD'', ''secret''), (''note'', '''')]"

abbreviation repeated_ctx :: rctx where
  "repeated_ctx \<equiv> fresh_ctx (sign_up_request\<lparr>req_PostBody := json_strings repeated_keys\<rparr>)"

theorem request_body_gate_witness:
  "\<forall>uc (w :: (server, kvserver) world). sign_in_reply canonical_uuids \<lparr>cookie_Secure = True\<rparr> repeated_ctx
    (sign_in_Execute canonical_uuids uc
      \<lparr>si_TenantID = tenant_DefaultID canonical_uuids, si_Email = ''last@example.com'', si_Password = ''secret''\<rparr> w)
    (SignIn_Handle canonical_uuids (NewSignInHandler uc \<lparr>cookie_Secure = True\<rparr>) (repeated_ctx, w))"
proof (intro allI)
  fix uc and w :: "(server, kvserver) world"
  have "safe_members repeated_keys" unfolding repeated_keys_def safe_members_def by code_simp
  then have u: "utf8_members repeated_keys" by (rule safe_members_utf8)
  have k: "last_member ''email'' repeated_keys = ''last@example.com''" "last_member ''password'' repeated_keys = ''secret''"
    by code_simp+
  have l: "\<not> 16384 < length (json_strings repeated_keys)" by code_simp
  have c: "req_PostBody (rc_req repeated_ctx) = json_strings repeated_keys" "mustTenant canonical_uuids repeated_ctx = tenant_DefaultID canonical_uuids"
    by (simp_all add: fresh_ctx_def mustTenant_def)
  note g = request_body_gate [where c = repeated_ctx and ul = canonical_uuids and uci = uc and ck = "\<lparr>cookie_Secure = True\<rparr>" and w = w
      and ms = repeated_keys, unfolded c if_not_P [OF l] k]
  have b: "body_fields (json_strings repeated_keys) = Some (''last@example.com'', ''secret'')"
    using g [THEN conjunct2] u by (rule mp)
  show "sign_in_reply canonical_uuids \<lparr>cookie_Secure = True\<rparr> repeated_ctx
    (sign_in_Execute canonical_uuids uc
      \<lparr>si_TenantID = tenant_DefaultID canonical_uuids, si_Email = ''last@example.com'', si_Password = ''secret''\<rparr> w)
    (SignIn_Handle canonical_uuids (NewSignInHandler uc \<lparr>cookie_Secure = True\<rparr>) (repeated_ctx, w))"
    by (rule g [THEN conjunct1, unfolded b option.case prod.case, THEN conjunct1])
qed

end
