(* ===== verification/Revocation.thy ===== *)
theory Revocation
  imports Surface
begin

text \<open>
  Sign-out through the whole stack: router, middleware, handler, use case and adapters. The route answers 204 and clears the
  cookie exactly when the session of the presented token has been revoked, in the database and in a cache that answers;
  no other answer ends a session or touches the cookie.
\<close>

subsection \<open>The middleware leaves a working cache working\<close>

context use_case_env
begin

lemma working_quiet: "quiet w w' \<Longrightarrow> working w \<Longrightarrow> working w'"
  using cache.working_frame [OF quiet_more, of w w'] by simp

lemma probe_leaves_working:
  assumes "working w"
  shows "wp (session_probe (Some cache) h) (\<lambda>r z. working z) w"
  unfolding session_probe_def option.case wp_tryg
proof (rule wp_mono [OF cache.get_law], goal_cases)
  case (1 r w')
  then have k: "working w'" using assms by blast
  have q: "quiet w' (w'\<lparr>rt_logs := x\<rparr>)" "quiet w' (w'\<lparr>rt_clock_i := Suc (rt_clock_i w')\<rparr>)" for x by simp_all
  show ?case using 1 k working_quiet [OF q(1) k] working_quiet [OF q(2) k]
    by (auto simp: wp_simps nowFn_def split: outcome.splits sum.splits)
qed

lemma repopulate_leaves_working:
  assumes "working w"
  shows "wp (session_repopulate (Some cache) h x) (\<lambda>r z. working z) w"
proof -
  let ?w = "w\<lparr>rt_clock_i := Suc (rt_clock_i w)\<rparr>"
  have w1: "working ?w" using working_quiet [OF _ assms, of ?w] by simp
  show ?thesis
  proof (cases "time_Sub (session_expiresAt x) (rt_clock w (rt_clock_i w)) > 0")
    case True
    show ?thesis
      unfolding session_repopulate_def option.case wp_bindg wp_time_Until outcome.case if_P [OF True] wp_tryg
    proof (rule wp_mono [OF cache.set_law], goal_cases)
      case (1 r w')
      with w1 have "working w' \<and> r = Ret (Inr ())" by blast
      then show ?case by (simp add: wp_ret)
    qed
  next
    case False
    with w1 show ?thesis by (simp add: session_repopulate_def wp_simps)
  qed
qed

lemma authenticate_leaves_working:
  assumes "working w"
  shows "wp (authenticate sessions (Some cache) raw) (\<lambda>r z. working z) w"
  unfolding authenticate_def Let_def wp_bindg
proof (rule wp_mono [OF probe_leaves_working [OF assms]], goal_cases)
  case (1 r w1)
  have look: "wp (tryg (sessions_FindByTokenHash sessions (HashOf raw))
       (\<lambda>e. ret (Inl (if e = ErrSession session_ErrSessionNotFound then SessionInvalid else Internal)))
       (\<lambda>x. bindg nowFn (\<lambda>now. if \<not> IsActive x now then ret (Inl SessionInvalid)
         else seqg (session_repopulate (Some cache) (hex_EncodeToString (HashOf raw)) x)
           (ret (Inr (session_userID x, session_id x, session_tenantID x)))))) (\<lambda>r z. working z) w1"
    unfolding wp_tryg
  proof (rule wp_mono [OF leavesD [OF leaves_store_working(9)]], goal_cases)
    case (1 r2 w2)
    with \<open>working w1\<close> have g2: "working w2" by simp
    have g3: "working (w2\<lparr>rt_clock_i := Suc (rt_clock_i w2)\<rparr>)" by (rule working_quiet [OF _ g2]) simp
    have "wp (session_repopulate (Some cache) h x) (\<lambda>r w'. (r = Ret () \<longrightarrow> working w') \<and> ((\<exists>p. r = Panic p) \<longrightarrow> working w'))
        (w2\<lparr>rt_clock_i := Suc (rt_clock_i w2)\<rparr>)" for h x
      by (rule wp_mono [OF repopulate_leaves_working [OF g3]]) simp
    with g2 g3 show ?case
      by (auto simp: wp_simps nowFn_def split: outcome.splits sum.splits)
  qed
  show ?case
    using 1 look by (auto simp: wp_ret split: outcome.splits option.splits)
qed

end

subsection \<open>The handler\<close>

definition sign_out_input :: "string \<Rightarrow> Session \<Rightarrow> sign_out_Input" where
  "sign_out_input raw x = \<lparr>so_TenantID = session_tenantID x, so_SessionID = session_id x, so_UserID = session_userID x,
     so_TokenHashHex = hex_EncodeToString (HashOf raw)\<rparr>"

definition cleared_cookie :: "cookie_Config \<Rightarrow> cookie" where
  "cleared_cookie cfg = \<lparr>ck_Key = cookie_Name cfg, ck_Value = '''', ck_Path = ''/'', ck_Expire = CookieExpireDelete,
     ck_MaxAge = - 1, ck_HTTPOnly = True, ck_Secure = cookie_Secure cfg, ck_SameSite = CookieSameSiteLaxMode\<rparr>"

text \<open>What a request to sign out may end with.\<close>

definition sign_out_answer ::
  "uuid_lib \<Rightarrow> (time \<Rightarrow> time) \<Rightarrow> Config \<Rightarrow> ('p \<Rightarrow> tables) \<Rightarrow> ('k \<Rightarrow> string \<Rightarrow> string option) \<Rightarrow> bool \<Rightarrow> bool \<Rightarrow> store \<Rightarrow>
    rctx \<Rightarrow> rctx \<Rightarrow> ('p, 'k) world \<Rightarrow> bool" where
  "sign_out_answer ul rnd cfg committed content alive caching s c c' w' =
    (rc_status c' = 204 \<and> (\<exists>raw x s' y. ReadSessionCookieFast c = (raw, True) \<and> find_session s (HashOf raw) = Some x
        \<and> sign_out_effect rnd ul (sign_out_input raw x) s s' \<and> pg_db committed w' s'
        \<and> find_session s' (HashOf raw) = Some y \<and> session_revokedAt y \<noteq> None
        \<and> (caching \<longrightarrow> kv_cached content ul w' (hex_EncodeToString (HashOf raw)) = None)
        \<and> rc_cookies c' = filter (\<lambda>k. ck_Key k \<noteq> cookie_Name \<lparr>cookie_Secure = CookieSecure cfg\<rparr>) (rc_cookies c)
            @ [cleared_cookie \<lparr>cookie_Secure = CookieSecure cfg\<rparr>])
     \<or> rc_status c' \<in> {401, 403, 500} \<and> rc_cookies c' = rc_cookies c \<and> (pg_db committed w' s \<or> rc_status c' = 500 \<and> \<not> alive))"

lemma settled_sign_out_answer:
  fixes committed :: "'p \<Rightarrow> tables"
  shows "settled (sign_out_answer ul rnd cfg committed content alive caching s c :: rctx \<Rightarrow> ('p, 'k) world \<Rightarrow> bool)"
  unfolding settled_def
proof (intro allI impI)
  fix c1 sp and w w' :: "('p, 'k) world"
  assume a: "sign_out_answer ul rnd cfg committed content alive caching s c c1 w" and q: "quiet w w'"
  have "pg_db committed w x \<Longrightarrow> pg_db committed w' x" for x using quiet_pg_db [OF q] .
  moreover have "kv_cached content ul w' = kv_cached content ul w" by (rule quiet_kv_cached [OF q])
  ultimately show "sign_out_answer ul rnd cfg committed content alive caching s c (c1\<lparr>rc_spans := sp\<rparr>) w'"
    using a unfolding sign_out_answer_def by (auto 0 4)
qed

lemma sign_out_answer_failed:
  assumes "resp_Status r \<in> {401, 403, 500}" "rc_cookies c' = rc_cookies c" "pg_db committed w' s \<or> resp_Status r = 500 \<and> \<not> alive"
  shows "sign_out_answer ul rnd cfg committed content alive caching s c (failed r c') w'"
  using assms by (auto simp: sign_out_answer_def)

lemma sign_out_handler_result:
  "SignOut_Handle ul (NewSignOutHandler uc ck) (c, w) =
    (case sign_out_Execute ul uc \<lparr>so_TenantID = mustTenant ul c, so_SessionID = sessionIDOrNil c, so_UserID = userIDOrNil c,
            so_TokenHashHex = tokenHashHex c\<rparr> w of
       (Ret (Inl err), w') \<Rightarrow> (Ret (), (failed (FromSignOut err) c, w'))
     | (Ret (Inr _), w') \<Rightarrow> (Ret (), ((SetCookie (cleared_cookie ck) c)\<lparr>rc_status := 204\<rparr>, w'))
     | (Panic p, w') \<Rightarrow> (Panic p, (c, w')))"
  by (simp add: SignOut_Handle_def NewSignOutHandler_def ClearFast_def cleared_cookie_def bindg_def tryg_def seqg_def ctx_get_def
      ctx_set_def modifies_def reads_def use_def WriteFast_failed split: prod.split outcome.split sum.split)

context production
begin

lemma sign_out_handler:
  fixes w :: "('p, 'k) world"
  assumes db: "pg_db committed w s" and x: "ReadSessionCookieFast c = (raw, True)" "find_session s (HashOf raw) = Some x"
    and c': "rc_cookies c' = rc_cookies c" "alive \<Longrightarrow> up (w_pg w)" "caching \<Longrightarrow> kvup (w_kv w)"
    and i: "mustTenant ul c' = session_tenantID x" "sessionIDOrNil c' = session_id x" "userIDOrNil c' = session_userID x"
      "tokenHashHex c' = hex_EncodeToString (HashOf raw)"
  shows "answers (SignOut_Handle ul (NewSignOutHandler (prod_sign_out drv cl ul) \<lparr>cookie_Secure = CookieSecure cfg\<rparr>))
    (sign_out_answer ul rnd cfg committed content alive caching s c) c' w"
proof -
  obtain r w' where e: "sign_out_Execute ul (prod_sign_out drv cl ul) (sign_out_input raw x) w = (r, w')" by fastforce
  note run = sign_out_handler_result [of ul "prod_sign_out drv cl ul" "\<lparr>cookie_Secure = CookieSecure cfg\<rparr>" c' w,
      unfolded i sign_out_input_def [symmetric] e prod.case]
  note post = sign_out_prod [OF db e]
  show ?thesis
  proof (cases r rule: outcome_sum_cases)
    case (1 err)
    with post c' show ?thesis
      by (auto simp: answers_def wp_def run FromSignOut_def Internal_def intro!: sign_out_answer_failed)
  next
    case (2 u)
    with post obtain s' where eff: "sign_out_effect rnd ul (sign_out_input raw x) s s'" and db': "pg_db committed w' s'" by auto
    from sign_out_effect_revokes(3) [OF eff x(2)] obtain y where
      y: "find_session s' (HashOf raw) = Some y" "session_id y = session_id x" "session_tenantID y = session_tenantID x" by blast
    have "session_revokedAt y \<noteq> None"
      using sign_out_effect_revokes(2) [OF eff, of y] find_session_Some [OF y(1)] y(2,3) by (simp add: is_session_def sign_out_input_def)
    moreover have "caching \<longrightarrow> kv_cached content ul w' (hex_EncodeToString (HashOf raw)) = None"
      using sign_out_cache_prod [OF e] 2 c'(3) hex_HashOf_nonempty [of raw] by (auto simp: sign_out_input_def)
    ultimately have "sign_out_answer ul rnd cfg committed content alive caching s c
        ((SetCookie (cleared_cookie \<lparr>cookie_Secure = CookieSecure cfg\<rparr>) c')\<lparr>rc_status := 204\<rparr>) w'"
      using x eff db' y(1) c'(1) unfolding sign_out_answer_def by (auto simp: SetCookie_def cleared_cookie_def)
    with 2 show ?thesis by (simp add: answers_def wp_def run)
  next
    case (3 p)
    with post c' show ?thesis
      by (auto simp: answers_def wp_def run Internal_def intro!: sign_out_answer_failed)
  qed
qed

lemma sign_out_route:
  fixes w :: "('p, 'k) world"
  assumes db: "pg_db committed w s" and co: "coherent rnd (kv_cached content ul w) s" and r: "route_of (rc_req c) = SignOutRoute"
  shows "wp (server_handler ul kdf spec stack cfg drv cl uc) (\<lambda>r cw. r = Ret () \<and>
    sign_out_answer ul rnd cfg committed content (up (w_pg w)) (kvup (w_kv w)) s c (fst cw) (snd cw)) (c, w)"
proof -
  let ?Q = "sign_out_answer ul rnd cfg committed content (up (w_pg w)) (kvup (w_kv w)) s c"
  let ?h = "SignOut_Handle ul (NewSignOutHandler (prod_sign_out drv cl ul) \<lparr>cookie_Secure = CookieSecure cfg\<rparr>)
    :: (('p, 'k) world) RequestHandler"
  note failed = sign_out_answer_failed
  have "wp (outer ul stack (prod_session drv cl ul (OriginCheck (AllowedOrigins cfg) ?h)))
    (\<lambda>r cw. r = Ret () \<and> ?Q (fst cw) (snd cw)) (c, w)"
  proof (rule outer_law [OF settled_sign_out_answer], goal_cases)
    case (1 c' w')
    note db' = quiet_pg_db [OF 1(2) db] and co' = co [folded quiet_kv_cached [OF 1(2)]]
    have same: "up (w_pg w') = up (w_pg w)" "kvup (w_kv w') = kvup (w_kv w)"
      using w_pg_more [OF quiet_more [OF 1(2)]] w_kv_more [OF quiet_more [OF 1(2)]] by simp_all
    from 1(1) have c': "rc_req c' = rc_req c" "rc_cookies c' = rc_cookies c" by (simp_all add: entered_def)
    show ?case
    proof (rule session_answers [OF db'], goal_cases)
      case (3 raw u sid t w2)
      from wpD [OF env.authenticate_sound [OF db' co'] 3(2)] obtain x where
        x: "find_session s (HashOf raw) = Some x" "session_userID x = u" "session_id x = sid" "session_tenantID x = t" by blast
      have o': "pg_db committed w2 s" "up (w_pg w) \<Longrightarrow> up (w_pg w2)" "kvup (w_kv w) \<Longrightarrow> kvup (w_kv w2)"
        using 3(3) wpD [OF env.authenticate_leaves_working 3(2)] same by (simp_all add: store.after_def)
      let ?c = "set_identity u sid t (hex_EncodeToString (HashOf raw)) c'"
      have c2: "rc_cookies ?c = rc_cookies c" by (simp add: set_identity_sel c')
      have h: "answers ?h ?Q ?c w2"
        by (rule sign_out_handler [OF o'(1) _ x(1)])
           (use 3(1) c' x o' ReadSessionCookieFast_req [OF c'(1)] in \<open>simp_all add: set_identity_sel\<close>)
      show ?case
        by (rule origin_answers [OF settled_sign_out_answer h]) (use c2 o'(1) in \<open>auto simp: response_defs intro!: failed\<close>)
    qed (use db' c' in \<open>auto simp: response_defs store.after_def same intro!: failed\<close>)
  next
    case (2 w')
    then show ?case using quiet_pg_db [OF _ db] by (auto simp: response_defs intro!: failed)
  qed
  then show ?thesis using r by (simp add: server_handler_def NewHandler_route wp_def)
qed

end

subsection \<open>Sign-out over HTTP\<close>

text \<open>C28: sign-out over HTTP. In every state in which the cache agrees with the database, a request to sign out is answered with 204
  exactly when the session stored under the hash of the presented token is now revoked and its event is written; then the cookie
  is cleared under the same name and attributes, and a cache that answers has forgotten the token. Every other answer is 401, 403
  or 500, sets no cookie and leaves the database unchanged (up to a \<open>Commit\<close> whose answer a failing server lost, with status 500).\<close>

theorem sign_out_over_http:
  fixes w :: "('p, 'k) world" and cl :: "'k SessionCache"
  assumes "production drv committed txview up rnd cl content kvup ul kdf ps"
    and "pg_db committed w s" and "coherent rnd (kv_cached content ul w) s" and "route_of (rc_req c) = SignOutRoute"
  shows "\<exists>c' w'. server_handler ul kdf spec stack cfg drv cl uc (c, w) = (Ret (), (c', w')) \<and>
    (rc_status c' = 204 \<and> (\<exists>raw x s' y. ReadSessionCookieFast c = (raw, True) \<and> find_session s (HashOf raw) = Some x
        \<and> sign_out_effect rnd ul (sign_out_input raw x) s s' \<and> pg_db committed w' s'
        \<and> find_session s' (HashOf raw) = Some y \<and> session_revokedAt y \<noteq> None
        \<and> (kvup (w_kv w) \<longrightarrow> kv_cached content ul w' (hex_EncodeToString (HashOf raw)) = None)
        \<and> rc_cookies c' = filter (\<lambda>k. ck_Key k \<noteq> cookie_Name \<lparr>cookie_Secure = CookieSecure cfg\<rparr>) (rc_cookies c)
            @ [cleared_cookie \<lparr>cookie_Secure = CookieSecure cfg\<rparr>])
     \<or> rc_status c' \<in> {401, 403, 500} \<and> rc_cookies c' = rc_cookies c
        \<and> (pg_db committed w' s \<or> rc_status c' = 500 \<and> \<not> up (w_pg w)))"
  using production.sign_out_route [OF assms, of spec stack cfg uc] unfolding wp_def sign_out_answer_def
  by (cases "server_handler ul kdf spec stack cfg drv cl uc (c, w)") auto

definition sign_out_request :: request where
  "sign_out_request = http_request ''DELETE'' ''/api/v1/crm/public/identity/sessions/current'' ''https://app.1klas.com'' sample_token ''''"

theorem sign_out_over_http_witness:
  "\<exists>uc c' w'. sample_handler uc (fresh_ctx sign_out_request, sample_run) = (Ret (), (c', w'))
    \<and> (rc_status c' = 204 \<and> rc_cookies c' = [cleared_cookie \<lparr>cookie_Secure = False\<rparr>]
         \<and> kv_cached kvs_content canonical_uuids w' (hex_EncodeToString (HashOf sample_token)) = None
       \<or> rc_status c' \<in> {401, 403, 500} \<and> rc_cookies c' = [] \<and> pg_db srv_tables w' sample_store)"
proof -
  obtain uc w1 where "prod_sign_in (ref_pgx micros) ref_cache canonical_uuids sample_kdf argon2_Default 3600000000000
    (sample_world (\<lambda>_. Served)) = (Ret (Inr uc), w1)" by (rule sample_sign_in)
  have co: "coherent micros (kv_cached kvs_content canonical_uuids sample_run) sample_store"
    by (simp add: sample_run_cache coherent_empty)
  have kv: "kvs_up (w_kv sample_run)" "ref_up (w_pg sample_run)" by (simp_all add: kvs_up_def empty_cache_def ref_up_def empty_server_def)
  have s: "CookieSecure sample_config = False" by (simp add: sample_config_def)
  have r: "route_of (rc_req (fresh_ctx sign_out_request)) = SignOutRoute" "rc_cookies (fresh_ctx sign_out_request) = []"
    "ReadSessionCookieFast (fresh_ctx sign_out_request) = (sample_token, True)"
    by (simp_all add: fresh_ctx_def sign_out_request_def http_request_def route_of_def ReadSessionCookieFast_def
        NameSecure_def NameInsecure_def sample_token_def)
  from sign_out_over_http [OF ref_production.production_axioms sample_run_db co r(1), of "''''" "''''" sample_config uc]
  show ?thesis unfolding r(2,3) s using kv by (auto 0 4)
qed

end
