(* ===== verification/Testkit.thy ===== *)
theory Testkit
  imports Production "HOL-Library.AList"
begin

text \<open>
  \<open>internal/usecase/internal_testkit\<close>: the in-memory fakes of the ports. Their fields are one more extension of
  the runtime record; a Go map is an association list without duplicate keys, updated in place. Go gives a
  missing key the zero value of its type. Lemmas: the fakes of the lookups, the cache, the hasher and the token
  generator are instances of the contracts that the production adapters keep, and the fake repositories
  simulate the abstract store for every write that it allows. The fake unit of work has no
  transactions: it is not an instance of \<open>identity_store\<close>.
\<close>

subsection \<open>State\<close>

record fakes = rt +
  fk_T :: time
  fk_Next :: int
  fk_users_byID :: "(uuid \<times> User) list"
  fk_users_byMail :: "(string \<times> uuid) list"
  fk_sessions_byID :: "(uuid \<times> Session) list"
  fk_sessions_byHash :: "(string \<times> uuid) list"
  fk_Events :: "Event list"
  fk_entries :: "(string \<times> CachedSession) list"
  fk_TTLs :: "(string \<times> duration) list"
  fk_SetCalls :: int
  fk_GetCalls :: int
  fk_DelCalls :: int
  fk_FailSet :: bool
  fk_FailGet :: bool
  fk_FailDel :: bool
  fk_ForceMiss :: bool

definition zero_time :: time where
  "zero_time = - 62135596800000000000"

definition zero_User :: User where
  "zero_User = \<lparr>user_id = uuid_Nil, user_tenantID = ID uuid_Nil, user_email = Email '''', user_passwordHash = PasswordHash '''',
     user_status = '''', user_createdAt = zero_time, user_updatedAt = zero_time\<rparr>"

definition zero_Session :: Session where
  "zero_Session = \<lparr>session_id = uuid_Nil, session_tenantID = ID uuid_Nil, session_userID = uuid_Nil, session_tokenHash = '''',
     session_createdAt = zero_time, session_expiresAt = zero_time, session_revokedAt = None\<rparr>"

subsection \<open>Clock, hasher and tokens\<close>

definition FakeClock :: "('a fakes_scheme) Clock" where
  "FakeClock = \<lparr>clock_Now = reads fk_T\<rparr>"

text \<open>\<open>HashFn\<close> and \<open>VerifyFn\<close> are \<open>None\<close> when they are \<open>nil\<close>.\<close>

definition FakeHasher_Hash :: "(string \<Rightarrow> string) option \<Rightarrow> string \<Rightarrow> ('w, error + PasswordHash) go" where
  "FakeHasher_Hash hashFn raw = ret (Inr (NewPasswordHash (case hashFn of Some f \<Rightarrow> f raw | None \<Rightarrow> ''fakehash:'' @ raw)))"

definition FakeHasher_Verify :: "(string \<Rightarrow> string \<Rightarrow> bool) option \<Rightarrow> PasswordHash \<Rightarrow> string \<Rightarrow> ('w, error + bool) go" where
  "FakeHasher_Verify verifyFn st raw = ret (Inr (case verifyFn of Some f \<Rightarrow> f (ph_String st) raw | None \<Rightarrow> ph_String st = ''fakehash:'' @ raw))"

definition FakeHasher :: "(string \<Rightarrow> string) option \<Rightarrow> (string \<Rightarrow> string \<Rightarrow> bool) option \<Rightarrow> 'w PasswordHasher" where
  "FakeHasher hashFn verifyFn = \<lparr>hasher_Hash = FakeHasher_Hash hashFn, hasher_Verify = FakeHasher_Verify verifyFn\<rparr>"

text \<open>The loop of \<open>intToString\<close>.\<close>

function int_digits :: "int \<Rightarrow> string \<Rightarrow> string" where
  "int_digits n s = (if n > 0 then int_digits (n div 10) (digit_char (nat (n mod 10)) # s) else s)"
  by pat_completeness auto
termination
  by (relation "measure (\<lambda>(n, s). nat n)") auto

declare int_digits.simps [simp del]

definition intToString :: "int \<Rightarrow> string" where
  "intToString n = (if n = 0 then ''0'' else int_digits n '''')"

definition FakeTokenGen_NewToken :: "('a fakes_scheme, error + Token) go" where
  "FakeTokenGen_NewToken =
    seqg (modifies (\<lambda>w. w\<lparr>fk_Next := int64 (fk_Next w + 1)\<rparr>))
    (bindg (reads fk_Next) (\<lambda>n.
      ret (case session_NewToken (replicate 40 (CHR ''a'') @ ''-'' @ intToString n) of
             Inl e \<Rightarrow> Inl (ErrSession e) | Inr t \<Rightarrow> Inr t)))"

definition FakeTokenGen :: "('a fakes_scheme) TokenGenerator" where
  "FakeTokenGen = \<lparr>tokens_NewToken = FakeTokenGen_NewToken\<rparr>"

subsection \<open>Unit of work and repositories\<close>

definition FakeUoW :: "'w UnitOfWork" where
  "FakeUoW = \<lparr>uow_Begin = ret (Inr (NewTx TxStruct)), uow_Commit = (\<lambda>_. ret (Inr ())), uow_Rollback = (\<lambda>_. ret (Inr ()))\<rparr>"

definition mail_key :: "uuid_lib \<Rightarrow> tenant_ID \<Rightarrow> Email \<Rightarrow> string" where
  "mail_key ul t e = tenant_String ul t @ ''|'' @ email_String e"

definition NewFakeUsers :: "'a fakes_scheme \<Rightarrow> 'a fakes_scheme" where
  "NewFakeUsers w = w\<lparr>fk_users_byID := [], fk_users_byMail := []\<rparr>"

definition FakeUsers_SaveTx :: "uuid_lib \<Rightarrow> Tx \<Rightarrow> User \<Rightarrow> ('a fakes_scheme, error + unit) go" where
  "FakeUsers_SaveTx ul tx u =
    bindg (reads fk_users_byMail) (\<lambda>byMail.
      let key = mail_key ul (user_tenantID u) (user_email u) in
      if map_of byMail key \<noteq> None then ret (Inl (ErrUser user_ErrEmailTaken))
      else seqg (modifies (\<lambda>w. w\<lparr>fk_users_byID := AList.update (user_id u) u (fk_users_byID w),
               fk_users_byMail := AList.update key (user_id u) (fk_users_byMail w)\<rparr>))
             (ret (Inr ())))"

definition FakeUsers_FindByEmail :: "uuid_lib \<Rightarrow> tenant_ID \<Rightarrow> Email \<Rightarrow> ('a fakes_scheme, error + User) go" where
  "FakeUsers_FindByEmail ul t e =
    bindg (reads id) (\<lambda>w.
      case map_of (fk_users_byMail w) (mail_key ul t e) of
        None \<Rightarrow> ret (Inl (ErrUser user_ErrUserNotFound))
      | Some i \<Rightarrow> ret (Inr (case map_of (fk_users_byID w) i of None \<Rightarrow> zero_User | Some u \<Rightarrow> u)))"

text \<open>The keys of a Go map come in any order; here in that of insertion.\<close>

definition FakeUsers_NewListIDs :: "('a fakes_scheme, uuid list) go" where
  "FakeUsers_NewListIDs = reads (\<lambda>w. map fst (fk_users_byID w))"

definition FakeUsers_FindByID :: "uuid_lib \<Rightarrow> tenant_ID \<Rightarrow> uuid \<Rightarrow> ('a fakes_scheme, error + User) go" where
  "FakeUsers_FindByID ul t i =
    bindg (reads fk_users_byID) (\<lambda>byID.
      case map_of byID i of
        None \<Rightarrow> ret (Inl (ErrUser user_ErrUserNotFound))
      | Some u \<Rightarrow> if tenant_String ul (user_tenantID u) \<noteq> tenant_String ul t then ret (Inl (ErrUser user_ErrUserNotFound))
          else ret (Inr u))"

definition FakeUsers :: "uuid_lib \<Rightarrow> ('a fakes_scheme) UserRepository" where
  "FakeUsers ul = \<lparr>users_SaveTx = FakeUsers_SaveTx ul, users_FindByEmail = FakeUsers_FindByEmail ul, users_FindByID = FakeUsers_FindByID ul\<rparr>"

definition NewFakeSessions :: "'a fakes_scheme \<Rightarrow> 'a fakes_scheme" where
  "NewFakeSessions w = w\<lparr>fk_sessions_byID := [], fk_sessions_byHash := []\<rparr>"

definition FakeSessions_SaveTx :: "Tx \<Rightarrow> Session \<Rightarrow> ('a fakes_scheme, error + unit) go" where
  "FakeSessions_SaveTx tx x =
    seqg (modifies (\<lambda>w. w\<lparr>fk_sessions_byID := AList.update (session_id x) x (fk_sessions_byID w),
        fk_sessions_byHash := AList.update (session_tokenHash x) (session_id x) (fk_sessions_byHash w)\<rparr>))
      (ret (Inr ()))"

definition FakeSessions_FindByTokenHash :: "string \<Rightarrow> ('a fakes_scheme, error + Session) go" where
  "FakeSessions_FindByTokenHash h =
    bindg (reads id) (\<lambda>w.
      case map_of (fk_sessions_byHash w) h of
        None \<Rightarrow> ret (Inl (ErrSession session_ErrSessionNotFound))
      | Some i \<Rightarrow> ret (Inr (case map_of (fk_sessions_byID w) i of None \<Rightarrow> zero_Session | Some x \<Rightarrow> x)))"

definition FakeSessions_NewListIDs :: "('a fakes_scheme, uuid list) go" where
  "FakeSessions_NewListIDs = reads (\<lambda>w. map fst (fk_sessions_byID w))"

definition FakeSessions_RevokeTx :: "uuid_lib \<Rightarrow> Tx \<Rightarrow> tenant_ID \<Rightarrow> uuid \<Rightarrow> ('a fakes_scheme, error + unit) go" where
  "FakeSessions_RevokeTx ul tx t i =
    bindg (reads fk_sessions_byID) (\<lambda>byID.
      case map_of byID i of
        None \<Rightarrow> ret (Inl (ErrSession session_ErrSessionNotFound))
      | Some x \<Rightarrow>
        if tenant_String ul (session_tenantID x) \<noteq> tenant_String ul t then ret (Inl (ErrSession session_ErrSessionNotFound))
        else if session_revokedAt x \<noteq> None then ret (Inr ())
        else bindg time_Now (\<lambda>now.
          seqg (modifies (\<lambda>w. w\<lparr>fk_sessions_byID := AList.update i (session_Hydrate (session_id x) (session_tenantID x)
              (session_userID x) (session_tokenHash x) (session_createdAt x) (session_expiresAt x) (Some now)) (fk_sessions_byID w)\<rparr>))
            (ret (Inr ()))))"

definition FakeSessions :: "uuid_lib \<Rightarrow> ('a fakes_scheme) SessionRepository" where
  "FakeSessions ul = \<lparr>sessions_SaveTx = FakeSessions_SaveTx, sessions_FindByTokenHash = FakeSessions_FindByTokenHash,
     sessions_RevokeTx = FakeSessions_RevokeTx ul\<rparr>"

definition NewFakeOutbox :: "'a fakes_scheme \<Rightarrow> 'a fakes_scheme" where
  "NewFakeOutbox w = w\<lparr>fk_Events := []\<rparr>"

definition FakeOutbox_WriteTx :: "Tx \<Rightarrow> Event \<Rightarrow> ('a fakes_scheme, error + unit) go" where
  "FakeOutbox_WriteTx tx ev = seqg (modifies (\<lambda>w. w\<lparr>fk_Events := fk_Events w @ [ev]\<rparr>)) (ret (Inr ()))"

definition FakeOutbox :: "('a fakes_scheme) OutboxRepository" where
  "FakeOutbox = \<lparr>outbox_WriteTx = FakeOutbox_WriteTx\<rparr>"

subsection \<open>The cache\<close>

definition NewFakeCache :: "'a fakes_scheme \<Rightarrow> 'a fakes_scheme" where
  "NewFakeCache w = w\<lparr>fk_entries := [], fk_TTLs := [], fk_SetCalls := 0, fk_GetCalls := 0, fk_DelCalls := 0,
     fk_FailSet := False, fk_FailGet := False, fk_FailDel := False, fk_ForceMiss := False\<rparr>"

definition FakeCache_Set :: "string \<Rightarrow> CachedSession \<Rightarrow> duration \<Rightarrow> ('a fakes_scheme, error + unit) go" where
  "FakeCache_Set h payload ttl =
    seqg (modifies (\<lambda>w. w\<lparr>fk_SetCalls := int64 (fk_SetCalls w + 1)\<rparr>))
    (bindg (reads fk_FailSet) (\<lambda>fail.
      if fail then ret (Inl (ErrOther ''fake cache set failure''))
      else seqg (modifies (\<lambda>w. w\<lparr>fk_entries := AList.update h payload (fk_entries w), fk_TTLs := AList.update h ttl (fk_TTLs w)\<rparr>))
             (ret (Inr ()))))"

definition FakeCache_Get :: "string \<Rightarrow> ('a fakes_scheme, error + CachedSession) go" where
  "FakeCache_Get h =
    seqg (modifies (\<lambda>w. w\<lparr>fk_GetCalls := int64 (fk_GetCalls w + 1)\<rparr>))
    (bindg (reads id) (\<lambda>w.
      if fk_FailGet w then ret (Inl (ErrOther ''fake cache get failure''))
      else if fk_ForceMiss w then ret (Inl (ErrSession session_ErrCacheMiss))
      else case map_of (fk_entries w) h of
        None \<Rightarrow> ret (Inl (ErrSession session_ErrCacheMiss))
      | Some v \<Rightarrow> ret (Inr v)))"

definition FakeCache_Delete :: "string \<Rightarrow> ('a fakes_scheme, error + unit) go" where
  "FakeCache_Delete h =
    seqg (modifies (\<lambda>w. w\<lparr>fk_DelCalls := int64 (fk_DelCalls w + 1)\<rparr>))
    (bindg (reads fk_FailDel) (\<lambda>fail.
      if fail then ret (Inl (ErrOther ''fake cache delete failure''))
      else seqg (modifies (\<lambda>w. w\<lparr>fk_entries := AList.delete h (fk_entries w), fk_TTLs := AList.delete h (fk_TTLs w)\<rparr>))
             (ret (Inr ()))))"

definition FakeCache_Has :: "string \<Rightarrow> ('a fakes_scheme, bool) go" where
  "FakeCache_Has h = reads (\<lambda>w. map_of (fk_entries w) h \<noteq> None)"

definition FakeCache_Seed :: "string \<Rightarrow> CachedSession \<Rightarrow> duration \<Rightarrow> ('a fakes_scheme, unit) go" where
  "FakeCache_Seed h payload ttl =
    modifies (\<lambda>w. w\<lparr>fk_entries := AList.update h payload (fk_entries w), fk_TTLs := AList.update h ttl (fk_TTLs w)\<rparr>)"

definition FakeCache_TTL :: "string \<Rightarrow> ('a fakes_scheme, duration) go" where
  "FakeCache_TTL h = reads (\<lambda>w. case map_of (fk_TTLs w) h of None \<Rightarrow> 0 | Some d \<Rightarrow> d)"

definition FakeCache :: "('a fakes_scheme) Cache" where
  "FakeCache = \<lparr>cache_Set = FakeCache_Set, cache_Get = FakeCache_Get, cache_Delete = FakeCache_Delete\<rparr>"

subsection \<open>Decimal digits\<close>

lemma int_digits_itoa: "n > 0 \<Longrightarrow> int_digits n s = itoa (nat n) @ s"
proof (induction n s rule: int_digits.induct)
  case (1 n s)
  show ?case
  proof (cases "n < 10")
    case True
    with 1(2) have "n div 10 = 0" "n mod 10 = n" "nat n < 10"
      by simp_all
    with 1(2) show ?thesis
      by (simp add: int_digits.simps [of n] int_digits.simps [of 0] itoa.simps [of "nat n"])
  next
    case False
    then have "0 < n div 10" "nat n div 10 = nat (n div 10)" "nat n mod 10 = nat (n mod 10)" "\<not> nat n < 10"
      by (simp_all add: nat_div_distrib nat_mod_distrib)
    with 1 show ?thesis
      by (simp add: int_digits.simps [of n s] itoa.simps [of "nat n"])
  qed
qed

lemma digit_char_0: "digit_char 0 = CHR ''0''"
  by code_simp

lemma intToString_itoa: "0 \<le> n \<Longrightarrow> intToString n = itoa (nat n)"
  by (auto simp: intToString_def int_digits_itoa itoa.simps [of 0] digit_char_0)

subsection \<open>Association lists of rows\<close>

lemmas go_run = bindg_def seqg_def reads_def modifies_def ret_def

lemma map_of_rows: "map_of (map (\<lambda>u. (f u, g u)) xs) k = map_option g (find (\<lambda>u. f u = k) xs)"
  by (induction xs) auto

lemma update_fresh: "k \<notin> fst ` set al \<Longrightarrow> AList.update k v al = al @ [(k, v)]"
  by (induction al) auto

lemma update_row:
  "distinct (map f xs) \<Longrightarrow> x \<in> set xs \<Longrightarrow> f y = f x \<Longrightarrow>
    AList.update (f x) y (map (\<lambda>u. (f u, u)) xs) = map (\<lambda>u. (f u, u)) (map (\<lambda>z. if f z = f x then y else z) xs)"
proof (induction xs)
  case (Cons z zs)
  show ?case
  proof (cases "f z = f x")
    case True
    with Cons.prems(1) have "\<And>u. u \<in> set zs \<Longrightarrow> f u \<noteq> f x"
      by (auto simp: image_iff)
    with True Cons.prems(3) show ?thesis
      by simp
  qed (use Cons in auto)
qed simp

lemma tenant_String_inject: "uuid_laws ul \<Longrightarrow> tenant_String ul t = tenant_String ul t' \<longleftrightarrow> t = t'"
  by (auto simp: tenant_String_def uuid_String_inject intro: tenant_ID.expand)

lemma mail_key_inject: "uuid_laws ul \<Longrightarrow> mail_key ul t e = mail_key ul t' e' \<longleftrightarrow> t = t' \<and> e = e'"
  using append_eq_append_conv [of "tenant_String ul t" "tenant_String ul t'"] tenant_String_inject [of ul t t']
    uuid_lawsD(2) [of ul "tenant_UUID t"] uuid_lawsD(2) [of ul "tenant_UUID t'"]
  by (auto simp: mail_key_def tenant_String_def [symmetric] intro: Email.expand)

subsection \<open>The state of the fakes as a store\<close>

definition fk_db :: "uuid_lib \<Rightarrow> 'a fakes_scheme \<Rightarrow> store \<Rightarrow> bool" where
  "fk_db ul w s = (consistent s
     \<and> fk_users_byID w = map (\<lambda>u. (user_id u, u)) (st_users s)
     \<and> fk_users_byMail w = map (\<lambda>u. (mail_key ul (user_tenantID u) (user_email u), user_id u)) (st_users s)
     \<and> fk_sessions_byID w = map (\<lambda>x. (session_id x, x)) (st_sessions s)
     \<and> fk_sessions_byHash w = map (\<lambda>x. (session_tokenHash x, session_id x)) (st_sessions s)
     \<and> fk_Events w = st_events s)"

lemma fk_dbD:
  assumes "fk_db ul w s"
  shows "consistent s" "fk_users_byID w = map (\<lambda>u. (user_id u, u)) (st_users s)"
    "fk_users_byMail w = map (\<lambda>u. (mail_key ul (user_tenantID u) (user_email u), user_id u)) (st_users s)"
    "fk_sessions_byID w = map (\<lambda>x. (session_id x, x)) (st_sessions s)"
    "fk_sessions_byHash w = map (\<lambda>x. (session_tokenHash x, session_id x)) (st_sessions s)"
    "fk_Events w = st_events s"
  using assms by (auto simp: fk_db_def)

lemma fk_db_new: "fk_db ul (NewFakeUsers (NewFakeSessions (NewFakeOutbox w))) empty_store"
  using consistent_empty
  by (simp add: fk_db_def NewFakeUsers_def NewFakeSessions_def NewFakeOutbox_def) (simp add: empty_store_def)

lemma find_user_via_id:
  assumes "consistent s" "find P (st_users s) = Some u"
  shows "find (\<lambda>v. user_id v = user_id u) (st_users s) = Some u"
  using assms find_distinct [of user_id "st_users s" u "\<lambda>v. user_id v = user_id u"] find_Some_iff_filter [OF assms(2)]
  by (simp add: consistent_def)

lemma find_session_via_id:
  assumes "consistent s" "find P (st_sessions s) = Some x"
  shows "find (\<lambda>y. session_id y = session_id x) (st_sessions s) = Some x"
  using assms find_distinct [of session_id "st_sessions s" x "\<lambda>v. session_id v = session_id x"] find_Some_iff_filter [OF assms(2)]
  by (simp add: consistent_def)

lemma fake_find_email:
  assumes "uuid_laws ul" "fk_db ul w s"
  shows "FakeUsers_FindByEmail ul t e w =
    (Ret (case find_user_by_email s t e of None \<Rightarrow> Inl (ErrUser user_ErrUserNotFound) | Some u \<Rightarrow> Inr u), w)"
  using find_user_via_id [OF fk_dbD(1) [OF assms(2)]]
  by (auto simp: FakeUsers_FindByEmail_def fk_dbD [OF assms(2)] map_of_rows mail_key_inject [OF assms(1)] find_user_by_email_def
      go_run split: option.splits)

lemma fake_find_id:
  assumes "uuid_laws ul" "fk_db ul w s"
  shows "FakeUsers_FindByID ul t i w =
    (Ret (case find_user_by_id s t i of None \<Rightarrow> Inl (ErrUser user_ErrUserNotFound) | Some u \<Rightarrow> Inr u), w)"
proof (cases "find (\<lambda>u. user_id u = i) (st_users s)")
  case None
  then have "find_user_by_id s t i = None"
    by (auto simp: find_user_by_id_def find_None_all)
  with None show ?thesis
    by (simp add: FakeUsers_FindByID_def fk_dbD [OF assms(2)] map_of_rows go_run)
next
  case (Some u)
  note u = find_Some_iff_filter [OF Some]
  have only: "v = u" if "v \<in> set (st_users s)" "user_id v = i" for v
    using u that fk_dbD(1) [OF assms(2)] by (auto simp: consistent_def distinct_map dest: inj_onD)
  have "find_user_by_id s t i = (if user_tenantID u = t then Some u else None)"
    using u fk_dbD(1) [OF assms(2)] find_distinct [of user_id "st_users s" u "\<lambda>v. user_tenantID v = t \<and> user_id v = i"] only
    by (auto simp: find_user_by_id_def consistent_def find_None_all)
  with Some show ?thesis
    by (simp add: FakeUsers_FindByID_def fk_dbD [OF assms(2)] map_of_rows go_run tenant_String_inject [OF assms(1)])
qed

lemma fake_find_session:
  assumes "fk_db ul w s"
  shows "FakeSessions_FindByTokenHash h w =
    (Ret (case find_session s h of None \<Rightarrow> Inl (ErrSession session_ErrSessionNotFound) | Some x \<Rightarrow> Inr x), w)"
  using find_session_via_id [OF fk_dbD(1) [OF assms]]
  by (auto simp: FakeSessions_FindByTokenHash_def fk_dbD [OF assms] map_of_rows find_session_def
      go_run split: option.splits)

lemma fake_save_user:
  assumes "uuid_laws ul" "fk_db ul w s" "valid_user u" "save_user id u s = Some s'"
  shows "\<exists>w'. FakeUsers_SaveTx ul tx u w = (Ret (Inr ()), w') \<and> fk_db ul w' s'"
proof -
  have s': "s' = s\<lparr>st_users := st_users s @ [u]\<rparr>" and new: "\<not> user_conflict u s"
    using assms(4) by (auto simp: save_user_def round_user_def split: if_splits)
  have "find (\<lambda>v. user_tenantID v = user_tenantID u \<and> user_email v = user_email u) (st_users s) = None"
    using new by (auto simp: find_None_all user_conflict_def user_key_def image_iff)
  moreover have "consistent s'"
    using consistent_save_user [OF fk_dbD(1) [OF assms(2)] assms(3,4)] .
  ultimately show ?thesis
    using new by (auto simp: FakeUsers_SaveTx_def fk_dbD [OF assms(2)] map_of_rows mail_key_inject [OF assms(1)] go_run Let_def fk_db_def s' user_conflict_def user_key_def image_image intro!: update_fresh)
qed

lemma fake_save_user_taken:
  assumes "uuid_laws ul" "fk_db ul w s" "user_key u \<in> user_key ` set (st_users s)"
  shows "FakeUsers_SaveTx ul tx u w = (Ret (Inl (ErrUser user_ErrEmailTaken)), w)"
proof -
  have "find (\<lambda>v. user_tenantID v = user_tenantID u \<and> user_email v = user_email u) (st_users s) \<noteq> None"
    using assms(3) by (auto simp: find_None_all user_key_def)
  then show ?thesis
    by (auto simp: FakeUsers_SaveTx_def fk_dbD [OF assms(2)] map_of_rows mail_key_inject [OF assms(1)] go_run Let_def)
qed

lemma fake_save_session:
  assumes "fk_db ul w s" "session_revokedAt x = None" "save_session id x s = Some s'"
  shows "\<exists>w'. FakeSessions_SaveTx tx x w = (Ret (Inr ()), w') \<and> fk_db ul w' s'"
proof -
  have s': "s' = s\<lparr>st_sessions := st_sessions s @ [x]\<rparr>" and new: "\<not> session_conflict x s"
    using assms(2,3) by (auto simp: save_session_def round_session_def split: if_splits)
  have "consistent s'"
    using consistent_save_session [OF fk_dbD(1) [OF assms(1)] assms(3)] .
  then show ?thesis
    using new by (auto simp: FakeSessions_SaveTx_def fk_dbD [OF assms(1)] go_run fk_db_def s' session_conflict_def image_image intro!: update_fresh)
qed

lemma fake_write_event:
  assumes "fk_db ul w s" "write_event id e s = Some s'"
  shows "\<exists>w'. FakeOutbox_WriteTx tx e w = (Ret (Inr ()), w') \<and> fk_db ul w' s'"
  using consistent_write_event [OF fk_dbD(1) [OF assms(1)] assms(2)] assms
  by (auto simp: FakeOutbox_WriteTx_def go_run fk_db_def write_event_def round_event_def split: if_splits)

lemma fake_revoke_missing:
  assumes "uuid_laws ul" "fk_db ul w s" "\<not> (\<exists>x \<in> set (st_sessions s). is_session t i x)"
  shows "FakeSessions_RevokeTx ul tx t i w = (Ret (Inl (ErrSession session_ErrSessionNotFound)), w)"
proof (cases "find (\<lambda>x. session_id x = i) (st_sessions s)")
  case None
  then show ?thesis
    by (simp add: FakeSessions_RevokeTx_def fk_dbD [OF assms(2)] map_of_rows go_run)
next
  case (Some x)
  then have "session_tenantID x \<noteq> t"
    using assms(3) find_Some_iff_filter [OF Some] by (auto simp: is_session_def)
  with Some show ?thesis
    by (simp add: FakeSessions_RevokeTx_def fk_dbD [OF assms(2)] map_of_rows go_run tenant_String_inject [OF assms(1)])
qed

lemma fake_revoke:
  assumes "uuid_laws ul" "fk_db ul w s" "x \<in> set (st_sessions s)" "is_session t i x"
  shows "\<exists>now w'. FakeSessions_RevokeTx ul tx t i w = (Ret (Inr ()), w') \<and> (\<exists>s'. revoke_session t i now s = Some s' \<and> fk_db ul w' s')"
proof -
  have d: "distinct (map session_id (st_sessions s))" and x: "session_id x = i" "session_tenantID x = t"
    using fk_dbD(1) [OF assms(2)] assms(4) by (simp_all add: consistent_def is_session_def)
  have f: "find (\<lambda>y. session_id y = i) (st_sessions s) = Some x"
    using find_distinct [OF d assms(3), of "\<lambda>y. session_id y = i"] x by simp
  have only: "is_session t i y \<longleftrightarrow> y = x" if "y \<in> set (st_sessions s)" for y
    using that d x assms(3) by (auto simp: is_session_def distinct_map dest: inj_onD)
  have same: "y = x" if "y \<in> set (st_sessions s)" "session_id y = i" for y
    using that d x assms(3) by (auto simp: distinct_map dest: inj_onD)
  have rows: "map (\<lambda>y. if is_session t i y then revoke_at n y else y) (st_sessions s)
      = map (\<lambda>y. if session_id y = i then revoke_at n x else y) (st_sessions s)" for n
    using only same x(1) by (intro map_cong refl) metis
  have ex: "\<exists>y \<in> set (st_sessions s). is_session t i y"
    using assms(3,4) by blast
  have rev: "revoke_session t i n s = Some (s\<lparr>st_sessions := map (\<lambda>y. if session_id y = i then revoke_at n x else y) (st_sessions s)\<rparr>)" for n
    by (simp only: revoke_session_def ex if_True rows)
  let ?n = "rt_clock w (rt_clock_i w)"
  note cons = consistent_revoke [OF fk_dbD(1) [OF assms(2)] rev [of ?n]]
  show ?thesis
  proof (cases "session_revokedAt x")
    case None
    then have "session_Hydrate (session_id x) (session_tenantID x) (session_userID x) (session_tokenHash x) (session_createdAt x)
        (session_expiresAt x) (Some ?n) = revoke_at ?n x"
      by (simp add: session_Hydrate_def revoke_at_def)
    with None f have run: "FakeSessions_RevokeTx ul tx t i w = (Ret (Inr ()), w\<lparr>rt_clock_i := Suc (rt_clock_i w),
        fk_sessions_byID := AList.update i (revoke_at ?n x) (fk_sessions_byID w)\<rparr>)"
      by (simp add: FakeSessions_RevokeTx_def fk_dbD [OF assms(2)] map_of_rows go_run time_Now_def x)
    have "map (\<lambda>y. (session_tokenHash y, session_id y)) (st_sessions s)
        = map (\<lambda>y. (session_tokenHash y, session_id y)) (map (\<lambda>y. if session_id y = i then revoke_at ?n x else y) (st_sessions s))"
      using same by auto
    then have "fk_db ul (snd (FakeSessions_RevokeTx ul tx t i w))
        (s\<lparr>st_sessions := map (\<lambda>y. if session_id y = i then revoke_at ?n x else y) (st_sessions s)\<rparr>)"
      using cons update_row [OF d assms(3), of "revoke_at ?n x"] fk_dbD [OF assms(2)] x(1)
      by (simp add: fk_db_def run)
    with run rev [of ?n] show ?thesis
      by auto
  next
    case Some
    then have "map (\<lambda>y. if session_id y = i then revoke_at ?n x else y) (st_sessions s) = st_sessions s"
      using same by (auto simp: revoke_at_def intro!: map_idI)
    with rev [of ?n] have "revoke_session t i ?n s = Some s"
      by simp
    moreover have "FakeSessions_RevokeTx ul tx t i w = (Ret (Inr ()), w)"
      using Some f by (simp add: FakeSessions_RevokeTx_def fk_dbD [OF assms(2)] map_of_rows go_run x)
    ultimately show ?thesis
      using assms(2) by blast
  qed
qed

subsection \<open>The fakes keep the contracts of the ports\<close>

text \<open>A fake never loses a request, so every state is healthy.\<close>

lemma fake_lookup_ok:
  assumes "\<And>w s. fk_db ul w s \<Longrightarrow> m w = (Ret (case f s of None \<Rightarrow> Inl e | Some x \<Rightarrow> Inr x), w)"
  shows "lookup_ok (fk_db ul) (\<lambda>_. True) m e f"
  using assms by (auto simp: lookup_ok_def wp_def split: option.splits)

lemma fake_lookups:
  assumes "uuid_laws ul"
  shows "user_lookup (FakeUsers ul) (fk_db ul) (\<lambda>_. True)" "session_lookup (FakeSessions ul) (fk_db ul) (\<lambda>_. True)"
  by (unfold_locales; rule fake_lookup_ok; simp add: FakeUsers_def FakeSessions_def fake_find_email [OF assms] fake_find_id [OF assms]
      fake_find_session)+

definition fk_working :: "'a fakes_scheme \<Rightarrow> bool" where
  "fk_working w = (\<not> fk_FailSet w \<and> \<not> fk_FailGet w \<and> \<not> fk_FailDel w \<and> \<not> fk_ForceMiss w)"

definition fk_keeps :: "'a fakes_scheme \<Rightarrow> 'a fakes_scheme \<Rightarrow> bool" where
  "fk_keeps w w' = (rt.truncate w' = rt.truncate w \<and> (\<forall>ul s. fk_db ul w' s = fk_db ul w s))"

interpretation fake_cache: session_cache FakeCache "\<lambda>w. map_of (fk_entries w)" fk_working "\<lambda>_. True" fk_keeps
proof (unfold_locales, goal_cases)
  case (1 w' w)
  then show ?case by (cases w; cases w') simp
next
  case (2 w' w)
  then show ?case by (cases w; cases w') (simp add: fk_working_def)
qed (auto simp: FakeCache_def FakeCache_Set_def FakeCache_Get_def FakeCache_Delete_def wp_simps fk_keeps_def fk_db_def rt.truncate_def
    fk_working_def shrinks_def update_conv' delete_conv' map_comp_def split: option.splits)

interpretation fake_hasher: password_hasher "FakeHasher None None" "\<lambda>h raw. ph_String h = ''fakehash:'' @ raw" "\<lambda>_ _. []" "\<lambda>_. True"
  by unfold_locales (auto simp: FakeHasher_def FakeHasher_Hash_def FakeHasher_Verify_def wp_simps NewPasswordHash_def)

interpretation fake_tokens: token_generator FakeTokenGen fk_keeps
  by unfold_locales (auto simp: FakeTokenGen_def FakeTokenGen_NewToken_def wp_simps session_NewToken_def fk_keeps_def rt.truncate_def fk_db_def
      split: if_splits sum.splits)

subsection \<open>The fakes simulate the store\<close>

text \<open>C35: Whenever the maps of the fake repositories represent a store, every lookup answers what the store
  holds and leaves the fakes as they are; every insert and every event that the store accepts is accepted and the
  maps then represent the new store; a taken address and the revocation of a session the tenant does not have are refused with the
  sentinel errors of the ports; and a revocation of an existing session is one of the store.\<close>

theorem fakes_simulate_store:
  assumes "uuid_laws ul" "fk_db ul w s"
  shows "FakeUsers_FindByEmail ul t e w =
      (Ret (case find_user_by_email s t e of None \<Rightarrow> Inl (ErrUser user_ErrUserNotFound) | Some u \<Rightarrow> Inr u), w)
    \<and> FakeUsers_FindByID ul t i w =
      (Ret (case find_user_by_id s t i of None \<Rightarrow> Inl (ErrUser user_ErrUserNotFound) | Some u \<Rightarrow> Inr u), w)
    \<and> FakeSessions_FindByTokenHash h w =
      (Ret (case find_session s h of None \<Rightarrow> Inl (ErrSession session_ErrSessionNotFound) | Some x \<Rightarrow> Inr x), w)
    \<and> (\<forall>u s'. valid_user u \<longrightarrow> save_user id u s = Some s' \<longrightarrow>
        (\<exists>w'. FakeUsers_SaveTx ul tx u w = (Ret (Inr ()), w') \<and> fk_db ul w' s'))
    \<and> (\<forall>u. user_key u \<in> user_key ` set (st_users s) \<longrightarrow>
        FakeUsers_SaveTx ul tx u w = (Ret (Inl (ErrUser user_ErrEmailTaken)), w))
    \<and> (\<forall>x s'. session_revokedAt x = None \<longrightarrow> save_session id x s = Some s' \<longrightarrow>
        (\<exists>w'. FakeSessions_SaveTx tx x w = (Ret (Inr ()), w') \<and> fk_db ul w' s'))
    \<and> (\<forall>ev s'. write_event id ev s = Some s' \<longrightarrow>
        (\<exists>w'. FakeOutbox_WriteTx tx ev w = (Ret (Inr ()), w') \<and> fk_db ul w' s'))
    \<and> (if \<exists>x \<in> set (st_sessions s). is_session t i x
       then \<exists>now w' s'. FakeSessions_RevokeTx ul tx t i w = (Ret (Inr ()), w') \<and> revoke_session t i now s = Some s' \<and> fk_db ul w' s'
       else FakeSessions_RevokeTx ul tx t i w = (Ret (Inl (ErrSession session_ErrSessionNotFound)), w))"
  using assms by (auto simp: fake_find_email fake_find_id fake_find_session fake_save_user_taken fake_revoke_missing
      intro: fake_save_user fake_save_session fake_write_event fake_revoke)

definition fakes0 :: fakes where
  "fakes0 = NewFakeUsers (NewFakeSessions (NewFakeOutbox (NewFakeCache (rt.extend sample_rt
     \<lparr>fk_T = 0, fk_Next = 0, fk_users_byID = [], fk_users_byMail = [], fk_sessions_byID = [], fk_sessions_byHash = [],
      fk_Events = [], fk_entries = [], fk_TTLs = [], fk_SetCalls = 0, fk_GetCalls = 0, fk_DelCalls = 0,
      fk_FailSet = False, fk_FailGet = False, fk_FailDel = False, fk_ForceMiss = False\<rparr>))))"

text \<open>On new fakes: the sample user is saved, found by address, and cannot be saved again.\<close>

theorem fakes_simulate_store_witness:
  "\<exists>w'. FakeUsers_SaveTx canonical_uuids (NewTx TxStruct) sample_user fakes0 = (Ret (Inr ()), w')
    \<and> FakeUsers_FindByEmail canonical_uuids (user_tenantID sample_user) (user_email sample_user) w' = (Ret (Inr sample_user), w')
    \<and> FakeUsers_SaveTx canonical_uuids (NewTx TxStruct) sample_user w' = (Ret (Inl (ErrUser user_ErrEmailTaken)), w')"
proof -
  let ?s = "empty_store\<lparr>st_users := [sample_user]\<rparr>"
  have "fk_db canonical_uuids fakes0 empty_store"
    unfolding fakes0_def by (rule fk_db_new)
  moreover have "save_user id sample_user empty_store = Some ?s"
    by (simp add: save_user_def user_conflict_def empty_store_def round_user_def)
  ultimately obtain w' where w': "FakeUsers_SaveTx canonical_uuids (NewTx TxStruct) sample_user fakes0 = (Ret (Inr ()), w')"
      "fk_db canonical_uuids w' ?s"
    using fakes_simulate_store [OF canonical_uuids_laws] valid_sample_user by blast
  then show ?thesis
    using fakes_simulate_store [OF canonical_uuids_laws w'(2)] by (auto simp: find_user_by_email_def)
qed

end
