(* ===== verification/Spec2Isabelle.thy ===== *)
theory Spec2Isabelle
  imports Config Bodies Revocation Testkit
begin

text \<open>
  A verification development for the identity service: sign-up, sign-in, sign-out and profile over HTTP, with
  Postgres as the source of truth, a write-through session cache in Valkey, Argon2id password hashes, opaque
  session tokens and a transactional outbox.

  \<^bold>\<open>The program and its model.\<close> A Go call is a function from a world to an outcome (a result or a panic) and a
  new world (\<open>Prelude\<close>): \<open>bindg\<close> and \<open>tryg\<close> sequence calls and early returns, \<open>deferg\<close> and
  \<open>recoverg\<close> are \<open>defer\<close> and \<open>recover\<close>. An \<open>(T, error)\<close> result is a value of a sum type. The world is a record: the
  runtime of \<open>Ports\<close> (clock readings, random bytes and UUIDs as sequences, the log, the calls of the KDF),
  extended by what the adapters talk to. Times are nanoseconds, \<open>int\<close> and \<open>Duration\<close> wrap at 64 bits
  (\<open>int64\<close>), the parameters of Argon2 are 32- and 8-bit words, strings and byte slices are lists of bytes.

    \<^item> \<open>Go_Strings\<close>, \<open>Go_Regexp\<close>, \<open>Go_Encoding\<close>, \<open>Go_Num\<close>, \<open>Go_Time\<close>, \<open>Go_Json\<close>, \<open>Go_Net\<close>, \<open>Sha256\<close>: the parts of the
      standard library the program uses, executable (UTF-8 case mapping and trimming, regular expressions, hex and base64,
      \<open>strconv\<close> and \<open>Sscanf\<close>, RFC 3339 times, JSON, URLs and addresses, SHA-256).
    \<^item> \<open>Tenant\<close>, \<open>User\<close>, \<open>Session\<close>, \<open>Outbox\<close>, \<open>Ports\<close>: \<open>internal/domain\<close>. Every port is a record of functions.
    \<^item> \<open>Config\<close>: \<open>internal/config\<close>.
    \<^item> \<open>Postgres\<close>, \<open>Valkey\<close>, \<open>Argon2id\<close>: \<open>internal/infrastructure\<close> (the token generator is in \<open>Argon2id\<close>); the
      repositories are the SQL statements they send and the rows they scan.
    \<^item> \<open>Sign_Up\<close>, \<open>Sign_In\<close>, \<open>Sign_Out\<close> (with \<open>get_me\<close>): \<open>internal/usecase\<close>; \<open>Transactions\<close> has what they share,
      \<open>Testkit\<close> the in-memory fakes of \<open>internal_testkit\<close>.
    \<^item> \<open>Http\<close>, \<open>Middleware\<close>, \<open>Handlers\<close>: \<open>internal/transport/http\<close>, the router included.
    \<^item> \<open>Server\<close> and \<open>Migrate\<close>: \<open>cmd/server\<close> with \<open>internal/observability\<close>, \<open>cmd/migrate\<close> and \<open>postgres.Migrate\<close>.
    \<^item> \<open>Store\<close>, \<open>Production\<close>, \<open>Coherence\<close>, \<open>Surface\<close>, \<open>Registration\<close>, \<open>Revocation\<close>, \<open>Bodies\<close>: the abstract store, the wiring of \<open>cmd/server\<close>, and the properties that
      span components: sequences of service calls, and whole requests through the router.

  \<^bold>\<open>Interfaces.\<close> \<open>Store\<close> specifies the persistence layer as a store of users, sessions and events with its
  steps, its invariant \<open>consistent\<close> and the locales \<open>user_lookup\<close>, \<open>session_lookup\<close> and \<open>identity_store\<close>; \<open>session_cache\<close>,
  \<open>password_hasher\<close> and \<open>token_generator\<close> are the contracts of the other ports, and \<open>use_case_env\<close> is all of them together. The use
  cases are verified once, over any environment that satisfies the contracts. The code outside the
  repository is a parameter: the database server behind pgx (\<open>pgx_driver\<close>: what a statement does to the
  tables of the schema, that \<open>Commit\<close> is all or nothing, that any request may get lost, before or after it takes effect, unless
  the server is up), the cache server behind go-redis (\<open>redis_client\<close>), the KDF (\<open>argon2id\<close>) and the UUID
  package (\<open>uuid_laws\<close>). \<open>production\<close> collects these hypotheses; sublocales prove that the adapters of the program then satisfy every
  contract, and \<open>ref_production\<close> instantiates the hypotheses with executable servers, on which the
  witnesses run.

  \<^bold>\<open>What is proved.\<close>
    \<^item> Use cases (C1, C2, C4, C6, C14 to C16, C18, C27): atomicity under lost requests, authenticity, revocation,
      that wrong credentials cannot be told apart by result or cost, and that with the database up the calls return and succeed.
    \<^item> Sessions and the cache (C3, C10 to C13, C17, C24, C33): the middleware admits exactly the
      sessions it should, sequences of calls keep the cache coherent with the database, an outage of the cache blocks nobody, and
      the one interleaving in which a revocation is lost: the middleware over a repository
      whose lookup is overtaken by a whole sign-out (\<open>overtaken\<close>).
    \<^item> HTTP (C7 to C9, C19 to C22, C28, C36, C39, C40): every request is answered, cookies come with sessions only, foreign
      origins write nothing, a profile is shown only to its owner, 204 means that the session is over, and which bodies
      reach the use cases with which fields.
    \<^item> Adapters and domain (C5, C23, C25, C26, C35): the Postgres adapters and the fakes of the test kit
      implement the abstract store; hashes, tokens and addresses have the promised form.
    \<^item> Processes (C29 to C32, C34, C37, C38): configuration with its errors, bounds and the wrap-around of its numbers, fail-fast boot, the migration job.

  \<^bold>\<open>Loops and fuel.\<close> All functions are total; the recursions that are not structural (UTF-8 decoding, JSON strings, decimal digits)
  have termination proofs. Only the JSON parser has fuel, twice the length of the text plus one, and \<open>json_parse_fuel\<close> shows that
  any larger amount gives the same result.

  \<^bold>\<open>Not modelled.\<close> \<open>internal/transport/apispec\<close> embeds a file, whose bytes are an argument of the router. The passing of
  deadlines: an outside call is told how much time its context leaves (\<open>ctx_timeout\<close>), and one that times out is a lost
  request. Cancellation of a request's context, and the monotonic clock: every reading of the clock is wall time. fasthttp's
  parsing of requests and its server loop: a request is a record of method, path, headers, cookies and body. Concurrency: calls
  are atomic steps except in C33, where the steps of two requests are interleaved explicitly; the mutexes of the fakes
  protect what is one step here. The random sources are sequences; nothing is said about their distribution.
\<close>

end
